(* ===== verification/Prelude.thy ===== *)
theory Prelude
  imports Main "HOL-Library.Multiset"
begin

text \<open>
  Shared vocabulary of the timeline development: the types that name calendar days and
  item identifiers, the \<open>model_defs\<close> collection of definitions that concrete
  evaluations unfold, and generic facts on lists and multisets that the lane-assignment
  proofs use (counting with \<open>filter\<close>, the last elements of a list of lists, a maximum
  over a list, the at-most-one lemma for pairwise incompatible elements).
\<close>

named_theorems model_defs "definitions of the model unfolded when a concrete input is evaluated"

type_synonym day = int \<comment> \<open>a calendar day, as the number of days from a fixed epoch\<close>
type_synonym item_id = int

subsection \<open>Counting with filter\<close>

lemma length_filter_mono:
  assumes "\<forall>x\<in>set xs. P x \<longrightarrow> Q x"
  shows "length (filter P xs) \<le> length (filter Q xs)"
  using assms by (induction xs) auto

lemma length_filter_mset:
  "length (filter P xs) = size (filter_mset P (mset xs))"
  by (induction xs) auto

lemma length_filter_concat:
  "length (filter P (concat xss)) = (\<Sum>xs\<leftarrow>xss. length (filter P xs))"
  by (induction xss) auto

lemma sum_list_le_length:
  assumes "\<forall>x\<in>set xs. f x \<le> (1::nat)"
  shows "(\<Sum>x\<leftarrow>xs. f x) \<le> length xs"
  using assms by (induction xs) (auto simp: add_mono)

text \<open>
  In a list ordered by a relation that no two elements with property \<open>P\<close> satisfy,
  at most one element has \<open>P\<close>.
\<close>

lemma sorted_wrt_filter_at_most_one:
  assumes "sorted_wrt R xs"
    and "\<And>a b. P a \<Longrightarrow> P b \<Longrightarrow> \<not> R a b"
  shows "length (filter P xs) \<le> 1"
  using assms
proof (induction xs)
  case Nil
  then show ?case by simp
next
  case (Cons x xs)
  show ?case
  proof (cases "P x")
    case True
    with Cons.prems have "filter P xs = []"
      by (auto simp: filter_empty_conv)
    then show ?thesis by simp
  next
    case False
    with Cons show ?thesis by simp
  qed
qed

subsection \<open>Last elements of a list of non-empty lists\<close>

lemma mset_map_last_subseteq:
  "[] \<notin> set xss \<Longrightarrow> mset (map last xss) \<subseteq># mset (concat xss)"
proof (induction xss)
  case Nil
  then show ?case by simp
next
  case (Cons xs xss)
  then have "xs \<noteq> []" by auto
  then have "{#last xs#} \<subseteq># mset xs" by simp
  moreover from Cons have "mset (map last xss) \<subseteq># mset (concat xss)" by simp
  ultimately have "{#last xs#} + mset (map last xss) \<subseteq># mset xs + mset (concat xss)"
    by (rule subset_mset.add_mono)
  then show ?case by simp
qed

lemma size_filter_mset_mono:
  "A \<subseteq># B \<Longrightarrow> size (filter_mset P A) \<le> size (filter_mset P B)"
  by (simp add: size_mset_mono multiset_filter_mono)

lemma mset_concat_update_snoc:
  "i < length xss \<Longrightarrow> mset (concat (xss[i := xss ! i @ [x]])) = add_mset x (mset (concat xss))"
proof (induction xss arbitrary: i)
  case Nil
  then show ?case by simp
next
  case (Cons xs xss)
  then show ?case by (cases i) auto
qed

subsection \<open>A maximum over a list\<close>

lemma ex_max_on_list:
  fixes f :: "'a \<Rightarrow> 'b::linorder"
  assumes "x \<in> set xs" and "P x"
  shows "\<exists>y\<in>set xs. P y \<and> (\<forall>z\<in>set xs. P z \<longrightarrow> f z \<le> f y)"
proof -
  let ?S = "f ` {z \<in> set xs. P z}"
  have fin: "finite ?S" and ne: "?S \<noteq> {}" using assms by auto
  obtain y where y: "y \<in> set xs" "P y" "f y = Max ?S"
    using Max_in [OF fin ne] by auto
  have "\<forall>z\<in>set xs. P z \<longrightarrow> f z \<le> f y"
    using y(3) Max_ge [OF fin] by auto
  with y show ?thesis by blast
qed

subsection \<open>Running minimum and maximum\<close>

text \<open>The \<open>reduce\<close> that keeps the smaller (larger) of the accumulator and the next key.\<close>

lemma foldl_running_min:
  fixes g :: "'a \<Rightarrow> 'b::linorder"
  shows "foldl (\<lambda>m x. if g x < m then g x else m) m xs \<le> m \<and>
         (\<forall>x\<in>set xs. foldl (\<lambda>m x. if g x < m then g x else m) m xs \<le> g x) \<and>
         foldl (\<lambda>m x. if g x < m then g x else m) m xs \<in> insert m (g ` set xs)"
proof (induction xs arbitrary: m)
  case Nil
  then show ?case by simp
next
  case (Cons y xs)
  show ?case using Cons.IH [of "if g y < m then g y else m"] by (auto split: if_splits)
qed

lemma foldl_running_max:
  fixes g :: "'a \<Rightarrow> 'b::linorder"
  shows "m \<le> foldl (\<lambda>m x. if g x > m then g x else m) m xs \<and>
         (\<forall>x\<in>set xs. g x \<le> foldl (\<lambda>m x. if g x > m then g x else m) m xs) \<and>
         foldl (\<lambda>m x. if g x > m then g x else m) m xs \<in> insert m (g ` set xs)"
proof (induction xs arbitrary: m)
  case Nil
  then show ?case by simp
next
  case (Cons y xs)
  show ?case using Cons.IH [of "if g y > m then g y else m"] by (auto split: if_splits)
qed

subsection \<open>Search and enumeration\<close>

lemma find_SomeD: "find P xs = Some x \<Longrightarrow> x \<in> set xs \<and> P x"
  by (induction xs) (auto split: if_splits)

lemma map_snd_enumerate: "map snd (enumerate n xs) = xs"
  by (induction xs arbitrary: n) auto

lemma find_distinct_key:
  assumes "distinct (map f xs)" "y \<in> set xs"
  shows "find (\<lambda>i. f i = f y) xs = Some y"
  using assms by (induction xs) (auto simp: find_None_iff)

end
