(* ===== verification/Item.thy ===== *)
theory Item
  imports Prelude
begin

text \<open>
  The \<open>Item\<close> data model: one schedulable unit of the timeline, as the data file and the
  spec describe it (\<open>{ id, name, start, end, description? }\<close>). Dates are calendar days
  (the value of \<open>parseISO\<close> on a \<open>YYYY-MM-DD\<close> string, at day resolution). The
  field \<open>end\<close> is a keyword of Isabelle and is called \<open>end'\<close>; \<open>id\<close> is the HOL
  identity and is called \<open>item_id\<close>. An item is well formed when its start is not
  after its end; an item covers a day when the day lies in its inclusive interval.
\<close>

record item =
  item_id :: item_id
  name :: string
  start :: day
  end' :: day
  description :: "string option"

definition valid_item :: "item \<Rightarrow> bool" where
  "valid_item x \<longleftrightarrow> start x \<le> end' x"

definition covers :: "day \<Rightarrow> item \<Rightarrow> bool" where
  "covers d x \<longleftrightarrow> start x \<le> d \<and> d \<le> end' x"

declare valid_item_def [model_defs] covers_def [model_defs]

text \<open>Two items overlap in the sense of the spec (inclusive bounds, touching counts).\<close>

definition overlap :: "item \<Rightarrow> item \<Rightarrow> bool" where
  "overlap a b \<longleftrightarrow> start b \<le> end' a \<and> start a \<le> end' b"

declare overlap_def [model_defs]

text \<open>An item without description, the shape of the entries of the data file.\<close>

definition mk_item :: "item_id \<Rightarrow> string \<Rightarrow> day \<Rightarrow> day \<Rightarrow> item" where
  "mk_item i n s e = \<lparr>item_id = i, name = n, start = s, end' = e, description = None\<rparr>"

declare mk_item_def [model_defs]

lemma valid_covers_start: "valid_item x \<Longrightarrow> covers (start x) x"
  by (simp add: valid_item_def covers_def)

lemma covers_both_overlap: "covers d a \<Longrightarrow> covers d b \<Longrightarrow> overlap a b"
  by (auto simp: covers_def overlap_def)

end
