(* ===== verification/Lanes.thy ===== *)
theory Lanes
  imports Item
begin

text \<open>
  The LaneAssigner (\<open>assignLanes\<close> of \<open>utils/assign-lanes\<close>, imported by
  \<open>pages/timeline/timeline.jsx\<close>; its file is not part of the sources, so it is
  modelled from the spec, section 4.1). Items are sorted by start with a stable sort;
  the state keeps the lanes and, per lane, the end day of its last item; each item goes
  to the first lane whose last end is strictly before the item's start, or opens a new
  lane at the end. A malformed item (start after end) makes the whole call fail with
  \<open>ValidationError\<close>.

  \<open>place\<close> is the reference: first fit over the lanes themselves, reading the end of
  the last item of each lane. \<open>place_item\<close> is the implementation with the array of
  lane ends, and refines it.
\<close>

datatype lane_error = ValidationError

type_synonym lane = "item list"

record lane_state =
  open_lanes :: "lane list"
  lane_ends :: "day list"

definition init_state :: lane_state where
  "init_state = \<lparr>open_lanes = [], lane_ends = []\<rparr>"

text \<open>Index of the first lane whose last end is strictly before day \<open>s\<close>.\<close>

fun first_fit :: "day list \<Rightarrow> day \<Rightarrow> nat option" where
  "first_fit [] s = None"
| "first_fit (e # es) s = (if e < s then Some 0 else map_option Suc (first_fit es s))"

definition place_item :: "item \<Rightarrow> lane_state \<Rightarrow> lane_state" where
  "place_item x st =
     (case first_fit (lane_ends st) (start x) of
        Some i \<Rightarrow> \<lparr>open_lanes = (open_lanes st)[i := open_lanes st ! i @ [x]],
                   lane_ends = (lane_ends st)[i := end' x]\<rparr>
      | None \<Rightarrow> \<lparr>open_lanes = open_lanes st @ [[x]], lane_ends = lane_ends st @ [end' x]\<rparr>)"

definition sort_by_start :: "item list \<Rightarrow> item list" where
  "sort_by_start items = sort_key start items"

definition assignLanes :: "item list \<Rightarrow> lane_error + lane list" where
  "assignLanes items =
     (if list_ex (\<lambda>x. end' x < start x) items then Inl ValidationError
      else Inr (open_lanes (fold place_item (sort_by_start items) init_state)))"

subsection \<open>Reference: first fit over the lanes\<close>

fun place :: "item \<Rightarrow> lane list \<Rightarrow> lane list" where
  "place x [] = [[x]]"
| "place x (l # ls) = (if end' (last l) < start x then (l @ [x]) # ls else l # place x ls)"

definition lane_ends_of :: "lane list \<Rightarrow> day list" where
  "lane_ends_of ls = map (\<lambda>l. end' (last l)) ls"

definition lane_state_inv :: "lane_state \<Rightarrow> bool" where
  "lane_state_inv st \<longleftrightarrow> [] \<notin> set (open_lanes st) \<and> lane_ends st = lane_ends_of (open_lanes st)"

declare init_state_def [model_defs] place_item_def [model_defs] sort_by_start_def [model_defs]
  assignLanes_def [model_defs] lane_ends_of_def [model_defs]

subsection \<open>Characteristics of the lane-count measure\<close>

text \<open>
  The depth of a day is the number of items that cover it; the clique number of the
  input is the largest depth, which is reached at the start day of some item.
\<close>

definition depth :: "item list \<Rightarrow> day \<Rightarrow> nat" where
  "depth xs d = length (filter (covers d) xs)"

definition max_depth :: "item list \<Rightarrow> nat" where
  "max_depth xs = Max (insert 0 ((\<lambda>x. depth xs (start x)) ` set xs))"

declare depth_def [model_defs] max_depth_def [model_defs]

text \<open>
  The spec's guarantees on one lane: each item starts strictly after the end of every item
  before it in the lane; a lane set is well formed when no lane is empty and every lane is
  non-overlapping.
\<close>

definition non_overlapping :: "lane \<Rightarrow> bool" where
  "non_overlapping l \<longleftrightarrow> sorted_wrt (\<lambda>a b. end' a < start b) l"

definition lanes_wf :: "lane list \<Rightarrow> bool" where
  "lanes_wf ls \<longleftrightarrow> [] \<notin> set ls \<and> (\<forall>l\<in>set ls. non_overlapping l)"

subsection \<open>The scenarios of the spec\<close>

text \<open>
  Items of the scenarios of section 8 of the spec, with their dates as day numbers
  counted from 1970-01-01 (2024-01-01 is day 19723).
\<close>

definition task_A :: item where "task_A = mk_item 1 ''A'' 19723 19725"
definition task_B :: item where "task_B = mk_item 2 ''B'' 19724 19726"
definition task_C :: item where "task_C = mk_item 3 ''C'' 19727 19728"
definition touch_A :: item where "touch_A = mk_item 1 ''A'' 19723 19724"
definition touch_B :: item where "touch_B = mk_item 2 ''B'' 19724 19725"

lemmas scenario_items = task_A_def task_B_def task_C_def touch_A_def touch_B_def

subsection \<open>The lane-end array refines first fit over the lanes\<close>

lemma first_fit_Some:
  "first_fit es s = Some i \<Longrightarrow> i < length es \<and> es ! i < s \<and> (\<forall>j<i. \<not> es ! j < s)"
proof (induction es arbitrary: i)
  case Nil
  then show ?case by simp
next
  case (Cons e es)
  show ?case
  proof (cases "e < s")
    case True
    with Cons.prems show ?thesis by simp
  next
    case False
    with Cons.prems obtain j where "first_fit es s = Some j" "i = Suc j" by auto
    with Cons.IH False show ?thesis by (auto simp: less_Suc_eq_0_disj)
  qed
qed

lemma first_fit_None: "first_fit es s = None \<longleftrightarrow> (\<forall>e\<in>set es. \<not> e < s)"
  by (induction es) auto

lemma place_first_fit:
  "[] \<notin> set ls \<Longrightarrow> place x ls =
     (case first_fit (lane_ends_of ls) (start x) of
        Some i \<Rightarrow> ls[i := ls ! i @ [x]]
      | None \<Rightarrow> ls @ [[x]])"
  by (induction ls) (auto simp: lane_ends_of_def split: option.splits)

lemma place_item_refines:
  assumes "lane_state_inv st"
  shows "open_lanes (place_item x st) = place x (open_lanes st) \<and> lane_state_inv (place_item x st)"
proof (cases "first_fit (lane_ends st) (start x)")
  case None
  with assms show ?thesis
    by (simp add: place_item_def lane_state_inv_def place_first_fit lane_ends_of_def)
next
  case (Some i)
  with assms have i: "i < length (open_lanes st)"
    using first_fit_Some by (fastforce simp: lane_state_inv_def lane_ends_of_def)
  have "[] \<notin> set ((open_lanes st)[i := open_lanes st ! i @ [x]])"
    using assms set_update_subset_insert by (fastforce simp: lane_state_inv_def)
  with Some assms i show ?thesis
    by (simp add: place_item_def lane_state_inv_def place_first_fit lane_ends_of_def map_update)
qed

lemma fold_place_item_refines:
  "lane_state_inv st \<Longrightarrow>
     open_lanes (fold place_item xs st) = fold place xs (open_lanes st) \<and> lane_state_inv (fold place_item xs st)"
  by (induction xs arbitrary: st) (simp_all add: place_item_refines)

lemma lane_state_inv_init: "lane_state_inv init_state"
  by (simp add: lane_state_inv_def init_state_def lane_ends_of_def)

lemma assignLanes_reference:
  "assignLanes items =
     (if list_ex (\<lambda>x. end' x < start x) items then Inl ValidationError
      else Inr (fold place (sort_by_start items) []))"
  using fold_place_item_refines [OF lane_state_inv_init]
  by (simp add: assignLanes_def init_state_def)

subsection \<open>Invariants of first-fit placement\<close>

lemma mset_place: "mset (concat (place x ls)) = add_mset x (mset (concat ls))"
  by (induction ls) auto

lemma length_place:
  "length (place x ls) = length ls \<or>
   (length (place x ls) = Suc (length ls) \<and> (\<forall>l\<in>set ls. start x \<le> end' (last l)))"
  by (induction ls) auto

lemma end_le_end_last:
  assumes "non_overlapping l" and "\<forall>a\<in>set l. valid_item a" and "a \<in> set l"
  shows "end' a \<le> end' (last l)"
  using assms
proof (induction l)
  case Nil
  then show ?case by simp
next
  case (Cons b l)
  show ?case
  proof (cases "l = []")
    case True
    with Cons.prems show ?thesis by simp
  next
    case False
    then have lst: "last (b # l) = last l" and "last l \<in> set l" by auto
    with Cons.prems have "end' b < start (last l)" "start (last l) \<le> end' (last l)"
      by (auto simp: non_overlapping_def valid_item_def)
    with Cons lst show ?thesis by (auto simp: non_overlapping_def)
  qed
qed

lemma non_overlapping_snoc:
  assumes "non_overlapping l" and "\<forall>a\<in>set l. valid_item a" and "l \<noteq> []"
    and "end' (last l) < start x"
  shows "non_overlapping (l @ [x])"
proof -
  have "\<forall>a\<in>set l. end' a < start x"
    using end_le_end_last [OF assms(1,2)] assms(4) by fastforce
  with assms(1) show ?thesis by (simp add: non_overlapping_def sorted_wrt_append)
qed

lemma lanes_wf_place:
  "lanes_wf ls \<Longrightarrow> \<forall>a\<in>set (concat ls). valid_item a \<Longrightarrow> lanes_wf (place x ls)"
proof (induction ls)
  case Nil
  then show ?case by (simp add: lanes_wf_def non_overlapping_def)
next
  case (Cons l ls)
  then show ?case
    by (auto simp: lanes_wf_def intro: non_overlapping_snoc)
qed

lemma fold_place_wf:
  assumes "lanes_wf ls" and "\<forall>a\<in>set (concat ls) \<union> set xs. valid_item a"
  shows "lanes_wf (fold place xs ls) \<and> mset (concat (fold place xs ls)) = mset (concat ls) + mset xs"
  using assms
proof (induction xs arbitrary: ls)
  case Nil
  then show ?case by simp
next
  case (Cons x xs)
  have "lanes_wf (place x ls)"
    using Cons.prems by (simp add: lanes_wf_place)
  moreover have "\<forall>a\<in>set (concat (place x ls)) \<union> set xs. valid_item a"
    using Cons.prems by (simp flip: set_mset_mset add: mset_place)
  ultimately show ?case
    using Cons.IH by (simp add: mset_place)
qed

corollary fold_place_wf_empty:
  assumes "\<forall>a\<in>set xs. valid_item a"
  shows "lanes_wf (fold place xs []) \<and> mset (concat (fold place xs [])) = mset xs"
  using fold_place_wf [of "[]" xs] assms by (simp add: lanes_wf_def)

subsection \<open>Depth of a day: lower and upper bounds on the lane count\<close>

lemma depth_le_max_depth_start: "y \<in> set xs \<Longrightarrow> depth xs (start y) \<le> max_depth xs"
  by (simp add: max_depth_def)

lemma max_depth_cases: "max_depth xs = 0 \<or> (\<exists>y\<in>set xs. max_depth xs = depth xs (start y))"
proof -
  have "max_depth xs \<in> insert 0 ((\<lambda>x. depth xs (start x)) ` set xs)"
    unfolding max_depth_def by (rule Max_in) auto
  then show ?thesis by auto
qed

lemma depth_mset: "mset xs = mset ys \<Longrightarrow> depth xs d = depth ys d"
  by (simp add: depth_def length_filter_mset)

lemma max_depth_mset: "mset xs = mset ys \<Longrightarrow> max_depth xs = max_depth ys"
proof -
  assume eq: "mset xs = mset ys"
  then have "set xs = set ys" by (metis set_mset_mset)
  moreover have "depth xs = depth ys" using depth_mset [OF eq] by (rule ext)
  ultimately show ?thesis by (simp add: max_depth_def)
qed

lemma depth_le_max_depth: "depth xs d \<le> max_depth xs"
proof (cases "\<exists>x\<in>set xs. covers d x")
  case False
  then have "depth xs d = 0" by (simp add: depth_def filter_empty_conv)
  then show ?thesis by simp
next
  case True
  then obtain y where y: "y \<in> set xs" "covers d y"
    and ymax: "\<forall>z\<in>set xs. covers d z \<longrightarrow> start z \<le> start y"
    using ex_max_on_list [where f = start] by blast
  have "\<forall>z\<in>set xs. covers d z \<longrightarrow> covers (start y) z"
    using ymax y(2) by (auto simp: covers_def)
  then have "depth xs d \<le> depth xs (start y)"
    unfolding depth_def by (rule length_filter_mono)
  also have "\<dots> \<le> max_depth xs" using y(1) by (rule depth_le_max_depth_start)
  finally show ?thesis .
qed

lemma max_depth_snoc: "max_depth xs \<le> max_depth (xs @ [x])"
proof (cases "max_depth xs = 0")
  case False
  with max_depth_cases [of xs] have "\<exists>y\<in>set xs. max_depth xs = depth xs (start y)"
    by simp
  then obtain y :: item where "max_depth xs = depth xs (start y)" by blast
  also have "\<dots> \<le> depth (xs @ [x]) (start y)" by (simp add: depth_def)
  also have "\<dots> \<le> max_depth (xs @ [x])" by (rule depth_le_max_depth)
  finally show ?thesis .
qed simp

text \<open>Lower bound: in any partition into non-overlapping lanes, each lane holds at most one
  item covering a given day.\<close>

lemma covering_in_lane_le_1:
  "non_overlapping l \<Longrightarrow> length (filter (covers d) l) \<le> 1"
  unfolding non_overlapping_def
  by (erule sorted_wrt_filter_at_most_one) (auto simp: covers_def)

lemma depth_le_length_lanes:
  assumes "mset (concat ls) = mset xs" and "\<forall>l\<in>set ls. non_overlapping l"
  shows "depth xs d \<le> length ls"
proof -
  have "depth xs d = length (filter (covers d) (concat ls))"
    using assms(1) by (simp add: depth_def length_filter_mset)
  also have "\<dots> = (\<Sum>l\<leftarrow>ls. length (filter (covers d) l))"
    by (rule length_filter_concat)
  also have "\<dots> \<le> length ls"
  proof (rule sum_list_le_length)
    show "\<forall>l\<in>set ls. length (filter (covers d) l) \<le> 1"
      using assms(2) covering_in_lane_le_1 by blast
  qed
  finally show ?thesis .
qed

text \<open>Upper bound: a lane is opened only when the last item of every lane covers the
  start day of the item being placed.\<close>

lemma new_lane_depth:
  assumes wf: "lanes_wf ls" and ms: "mset (concat ls) = mset xs"
    and before: "\<forall>y\<in>set xs. start y \<le> start x"
    and blocked: "\<forall>l\<in>set ls. start x \<le> end' (last l)"
  shows "length ls \<le> depth xs (start x)"
proof -
  let ?P = "covers (start x)"
  have ne: "[] \<notin> set ls" using wf by (simp add: lanes_wf_def)
  have "\<forall>l\<in>set ls. last l \<in> set xs"
  proof
    fix l assume "l \<in> set ls"
    with ne have "l \<noteq> []" by auto
    then have "last l \<in> set l" by simp
    with \<open>l \<in> set ls\<close> have "last l \<in> set (concat ls)" by auto
    then show "last l \<in> set xs" using ms by (metis set_mset_mset)
  qed
  then have "\<forall>y\<in>set (map last ls). ?P y"
    using before blocked by (auto simp: covers_def)
  then have "length ls = length (filter ?P (map last ls))" by simp
  also have "\<dots> = size (filter_mset ?P (mset (map last ls)))" by (rule length_filter_mset)
  also have "\<dots> \<le> size (filter_mset ?P (mset (concat ls)))"
    using ne by (intro size_filter_mset_mono mset_map_last_subseteq)
  also have "\<dots> = depth xs (start x)" using ms by (simp add: depth_def length_filter_mset)
  finally show ?thesis .
qed

lemma greedy_le_max_depth:
  "sorted (map start xs) \<Longrightarrow> \<forall>a\<in>set xs. valid_item a \<Longrightarrow> length (fold place xs []) \<le> max_depth xs"
proof (induction xs rule: rev_induct)
  case Nil
  then show ?case by simp
next
  case (snoc x xs)
  let ?ls = "fold place xs []"
  have sxs: "sorted (map start xs)" and before: "\<forall>y\<in>set xs. start y \<le> start x"
    using snoc.prems(1) by (auto simp: sorted_append)
  have IH: "length ?ls \<le> max_depth xs" using snoc sxs by simp
  show ?case
  proof (cases "length (place x ?ls) = length ?ls")
    case True
    then show ?thesis using IH max_depth_snoc [of xs x] by simp
  next
    case False
    then have new: "length (place x ?ls) = Suc (length ?ls)"
      and blocked: "\<forall>l\<in>set ?ls. start x \<le> end' (last l)"
      using length_place [of x ?ls] by auto
    have wf: "lanes_wf ?ls \<and> mset (concat ?ls) = mset xs"
      using snoc.prems(2) by (simp add: fold_place_wf_empty)
    have "length ?ls \<le> depth xs (start x)"
      using new_lane_depth [OF conjunct1 [OF wf] conjunct2 [OF wf] before blocked] .
    moreover have "depth (xs @ [x]) (start x) = Suc (depth xs (start x))"
      using snoc.prems(2) valid_covers_start by (simp add: depth_def)
    ultimately have "length (place x ?ls) \<le> depth (xs @ [x]) (start x)"
      using new by simp
    also have "\<dots> \<le> max_depth (xs @ [x])" by (rule depth_le_max_depth)
    finally show ?thesis by simp
  qed
qed

subsection \<open>Lane order\<close>

lemma place_heads:
  "[] \<notin> set ls \<Longrightarrow> map hd (place x ls) = map hd ls \<or> map hd (place x ls) = map hd ls @ [x]"
  by (induction ls) auto

lemma hd_lanes_in_items:
  "[] \<notin> set ls \<Longrightarrow> mset (concat ls) = mset xs \<Longrightarrow> l \<in> set ls \<Longrightarrow> hd l \<in> set xs"
  by (metis empty_iff hd_in_set set_mset_mset set_concat UN_I)

lemma fold_place_heads_sorted:
  "sorted (map start xs) \<Longrightarrow> \<forall>a\<in>set xs. valid_item a \<Longrightarrow>
     sorted (map (\<lambda>l. start (hd l)) (fold place xs []))"
proof (induction xs rule: rev_induct)
  case Nil
  then show ?case by simp
next
  case (snoc x xs)
  let ?ls = "fold place xs []"
  have before: "\<forall>y\<in>set xs. start y \<le> start x"
    using snoc.prems(1) by (auto simp: sorted_append)
  have wf: "lanes_wf ?ls" and ms: "mset (concat ?ls) = mset xs"
    using snoc.prems(2) fold_place_wf_empty [of xs] by auto
  then have ne: "[] \<notin> set ?ls" by (simp add: lanes_wf_def)
  have IH: "sorted (map (\<lambda>l. start (hd l)) ?ls)"
    using snoc by (simp add: sorted_append)
  have "\<forall>l\<in>set ?ls. start (hd l) \<le> start x"
    using before hd_lanes_in_items [OF ne ms] by blast
  moreover have IH': "sorted (map start (map hd ?ls))"
    using IH by (simp only: map_map comp_def)
  ultimately have snoc': "sorted (map start (map hd ?ls @ [x]))"
    by (simp add: sorted_append)
  from place_heads [OF ne, of x]
  have "sorted (map start (map hd (place x ?ls)))"
  proof
    assume "map hd (place x ?ls) = map hd ?ls"
    with IH' show ?thesis by (simp only:)
  next
    assume "map hd (place x ?ls) = map hd ?ls @ [x]"
    with snoc' show ?thesis by (simp only:)
  qed
  then show ?case by (simp only: fold_append comp_def map_map fold_simps)
qed

subsection \<open>Results of assignLanes\<close>

lemma assignLanes_Inr:
  "assignLanes items = Inr ls \<Longrightarrow>
     ls = fold place (sort_by_start items) [] \<and> (\<forall>x\<in>set items. valid_item x)"
  by (auto simp: assignLanes_reference list_ex_iff valid_item_def not_less split: if_splits)

lemma assignLanes_Inr_wf:
  assumes "assignLanes items = Inr ls"
  shows "lanes_wf ls \<and> mset (concat ls) = mset items \<and> (\<forall>x\<in>set (concat ls). valid_item x)"
proof -
  have ls: "ls = fold place (sort_by_start items) []" and v: "\<forall>x\<in>set items. valid_item x"
    using assignLanes_Inr [OF assms] by auto
  then have "lanes_wf ls \<and> mset (concat ls) = mset (sort_by_start items)"
    using fold_place_wf_empty [of "sort_by_start items"] by (simp add: sort_by_start_def)
  moreover have "mset (sort_by_start items) = mset items" by (simp add: sort_by_start_def)
  ultimately show ?thesis using v by (metis set_mset_mset)
qed

lemma lane_starts_increase:
  "non_overlapping l \<Longrightarrow> \<forall>a\<in>set l. valid_item a \<Longrightarrow> sorted_wrt (<) (map start l)"
  unfolding non_overlapping_def
  by (induction l) (auto simp: valid_item_def intro: le_less_trans)

lemma assignLanes_le_max_depth:
  assumes "assignLanes items = Inr ls"
  shows "length ls \<le> max_depth items"
proof -
  have ls: "ls = fold place (sort_by_start items) []" and v: "\<forall>x\<in>set items. valid_item x"
    using assignLanes_Inr [OF assms] by auto
  then have "length ls \<le> max_depth (sort_by_start items)"
    using greedy_le_max_depth [of "sort_by_start items"] by (simp add: sort_by_start_def)
  also have "\<dots> = max_depth items"
    by (rule max_depth_mset) (simp add: sort_by_start_def)
  finally show ?thesis .
qed

lemma max_depth_le_partition:
  assumes "mset (concat ls) = mset items" and "\<forall>l\<in>set ls. non_overlapping l"
  shows "max_depth items \<le> length ls"
proof (cases "max_depth items = 0")
  case False
  with max_depth_cases [of items] obtain y :: item where "max_depth items = depth items (start y)"
    by auto
  also have "\<dots> \<le> length ls" using assms by (rule depth_le_length_lanes)
  finally show ?thesis .
qed simp

text \<open>Completeness: every input item appears in exactly one lane, exactly once; the
  multiset of the items of all lanes is the multiset of the input.\<close>

lemma assignLanes_complete:
  "assignLanes items = Inr ls \<Longrightarrow> mset (concat ls) = mset items"
  using assignLanes_Inr_wf by blast

text \<open>Non-overlap: in every lane, an item starts strictly after the end of every item
  placed before it in that lane (touching intervals never share a lane).\<close>

lemma assignLanes_non_overlapping:
  "assignLanes items = Inr ls \<Longrightarrow> l \<in> set ls \<Longrightarrow>
     sorted_wrt (\<lambda>a b. end' a < start b) l"
  using assignLanes_Inr_wf by (auto simp: lanes_wf_def non_overlapping_def)

text \<open>Optimality: the number of lanes is the largest number of items covering a single
  day (the clique number of the intervals).\<close>

lemma assignLanes_optimal:
  "assignLanes items = Inr ls \<Longrightarrow> length ls = max_depth items"
proof -
  assume a: "assignLanes items = Inr ls"
  then have "length ls \<le> max_depth items" by (rule assignLanes_le_max_depth)
  moreover have "max_depth items \<le> length ls"
    using assignLanes_Inr_wf [OF a] by (auto simp: lanes_wf_def intro: max_depth_le_partition)
  ultimately show ?thesis by simp
qed

text \<open>Minimality: no partition of the input into non-overlapping lanes has fewer lanes
  than the result of assignLanes.\<close>

lemma assignLanes_minimal:
  assumes "assignLanes items = Inr ls"
    and "mset (concat ls') = mset items"
    and "\<forall>l\<in>set ls'. sorted_wrt (\<lambda>a b. end' a < start b) l"
  shows "length ls \<le> length ls'"
proof -
  have "length ls \<le> max_depth items" using assms(1) by (rule assignLanes_le_max_depth)
  also have "\<dots> \<le> length ls'"
    using assms(2,3) by (simp add: max_depth_le_partition non_overlapping_def)
  finally show ?thesis .
qed

text \<open>Failure: assignLanes fails, with ValidationError, exactly when some item starts
  after it ends; otherwise it returns lanes.\<close>

lemma assignLanes_error_iff:
  "(assignLanes items = Inl ValidationError) \<longleftrightarrow> (\<exists>x\<in>set items. \<not> valid_item x)"
  by (auto simp: assignLanes_def list_ex_iff valid_item_def not_le)

text \<open>Refinement: the implementation with the array of lane ends computes the same lanes
  as first fit over the lanes themselves, from the empty state.\<close>

lemma assignLanes_refines_place:
  "assignLanes items =
     (if \<exists>x\<in>set items. \<not> valid_item x then Inl ValidationError
      else Inr (fold place (sort_by_start items) []))"
  by (simp add: assignLanes_reference list_ex_iff valid_item_def not_le)

text \<open>Within a lane, items are in strictly ascending order of start day.\<close>

lemma assignLanes_lane_sorted:
  "assignLanes items = Inr ls \<Longrightarrow> l \<in> set ls \<Longrightarrow> sorted_wrt (<) (map start l)"
  using assignLanes_Inr_wf lane_starts_increase
  by (fastforce simp: lanes_wf_def)

text \<open>Lanes are in the order they were opened: the first items of the lanes have
  ascending start days.\<close>

lemma assignLanes_lane_order:
  "assignLanes items = Inr ls \<Longrightarrow> sorted (map (\<lambda>l. start (hd l)) ls)"
  using assignLanes_Inr fold_place_heads_sorted
  by (fastforce simp: sort_by_start_def)

text \<open>First fit: the lane chosen for an item is the lowest-indexed lane whose last end is
  strictly before the item's start.\<close>

lemma first_fit_lowest:
  "first_fit es s = Some i \<longleftrightarrow> (i < length es \<and> es ! i < s \<and> (\<forall>j<i. \<not> es ! j < s))"
proof
  assume "first_fit es s = Some i"
  then show "i < length es \<and> es ! i < s \<and> (\<forall>j<i. \<not> es ! j < s)"
    by (rule first_fit_Some)
next
  assume r: "i < length es \<and> es ! i < s \<and> (\<forall>j<i. \<not> es ! j < s)"
  then have "first_fit es s \<noteq> None"
    by (metis first_fit_None nth_mem)
  then obtain k where k: "first_fit es s = Some k" by blast
  then have "k < length es \<and> es ! k < s \<and> (\<forall>j<k. \<not> es ! j < s)"
    by (rule first_fit_Some)
  with r have "k = i" by (metis linorder_neqE_nat)
  with k show "first_fit es s = Some i" by simp
qed

text \<open>The number of lanes depends only on the items, not on their input order.\<close>

lemma assignLanes_count_order_independent:
  assumes "mset items = mset items'"
    and "assignLanes items = Inr ls" and "assignLanes items' = Inr ls'"
  shows "length ls = length ls'"
proof -
  have wf: "lanes_wf ls \<and> mset (concat ls) = mset items"
    and wf': "lanes_wf ls' \<and> mset (concat ls') = mset items'"
    using assignLanes_Inr_wf assms(2,3) by blast+
  have "length ls \<le> max_depth items" using assms(2) by (rule assignLanes_le_max_depth)
  also have "\<dots> = max_depth items'" using assms(1) by (rule max_depth_mset)
  also have "\<dots> \<le> length ls'" using wf' by (auto simp: lanes_wf_def intro: max_depth_le_partition)
  finally have "length ls \<le> length ls'" .
  moreover have "length ls' \<le> max_depth items'" using assms(3) by (rule assignLanes_le_max_depth)
  moreover have "max_depth items' = max_depth items" using assms(1) by (rule max_depth_mset [symmetric])
  moreover have "max_depth items \<le> length ls" using wf by (auto simp: lanes_wf_def intro: max_depth_le_partition)
  ultimately show ?thesis by simp
qed

lemma scenario_overlap:
  "assignLanes [task_A, task_B, task_C] = Inr [[task_A, task_C], [task_B]]"
  by (simp add: model_defs scenario_items)

text \<open>Scenario 2: touching intervals (B starts on the day A ends) never share a lane.\<close>

lemma scenario_touching:
  "assignLanes [touch_A, touch_B] = Inr [[touch_A], [touch_B]]"
  by (simp add: model_defs scenario_items)

text \<open>Scenarios 3 and 4: three items covering the same day get one lane each, and a
  single item gets a single lane; the empty input gives no lanes.\<close>

lemma scenario_clique_single_empty:
  "assignLanes [task_A, touch_A, touch_B] = Inr [[task_A], [touch_A], [touch_B]] \<and>
   assignLanes [task_C] = Inr [[task_C]] \<and> assignLanes [] = Inr []"
  by (simp add: model_defs scenario_items)

end
