(* ===== verification/TimelineData.thy ===== *)
theory TimelineData
  imports Lanes
begin

text \<open>
  The data the Timeline page derives from the item list (\<open>timelineData\<close>, the
  \<open>useMemo\<close> of \<open>pages/timeline/timeline.jsx\<close>, lines 19--87): no data for an empty
  list; otherwise the earliest start and latest end (two \<open>reduce\<close>s), the number of
  days between them, the lanes of \<open>assignLanes\<close>, every item annotated with its lane
  index and with the colours of the first colour rule whose \<open>maxDays\<close> bounds its
  duration, and the index of the last lane. A \<open>ValidationError\<close> raised by
  \<open>assignLanes\<close> propagates out of the memo, as the call is not guarded.

  Fields of the annotated item: the source spreads the item and adds \<open>lane\<close>,
  \<open>startDate\<close>, \<open>endDate\<close>, \<open>borderColor\<close> and \<open>backgroundColor\<close>; the two
  dates are called \<open>startDateItem\<close> and \<open>endDateItem\<close> here, after the locals that
  hold them, since \<open>startDate\<close> and \<open>endDate\<close> name the fields of the page data.
\<close>

record item_with_lane = item +
  lane :: nat
  startDateItem :: day
  endDateItem :: day
  borderColor :: string
  backgroundColor :: string

datatype max_days = Days int | PosInfinity

record color_rule =
  maxDays :: max_days
  ruleBorderColor :: string
  ruleBackgroundColor :: string

definition colorRules :: "color_rule list" where
  "colorRules =
     [\<lparr>maxDays = Days 3, ruleBorderColor = ''border-timeline-success'',
        ruleBackgroundColor = ''bg-green-100''\<rparr>,
      \<lparr>maxDays = Days 7, ruleBorderColor = ''border-timeline-warning'',
        ruleBackgroundColor = ''bg-yellow-100''\<rparr>,
      \<lparr>maxDays = PosInfinity, ruleBorderColor = ''border-timeline-danger'',
        ruleBackgroundColor = ''bg-red-100''\<rparr>]"

fun within_max_days :: "int \<Rightarrow> max_days \<Rightarrow> bool" where
  "within_max_days d (Days m) \<longleftrightarrow> d \<le> m"
| "within_max_days d PosInfinity \<longleftrightarrow> True"

text \<open>Duration in days, inclusive of both ends (\<open>differenceInDays(end, start) + 1\<close>).\<close>

definition durationDays :: "item \<Rightarrow> int" where
  "durationDays it = end' it - start it + 1"

definition item_colors :: "int \<Rightarrow> string \<times> string" where
  "item_colors d =
     (case find (\<lambda>r. within_max_days d (maxDays r)) colorRules of
        Some rule \<Rightarrow> (ruleBorderColor rule, ruleBackgroundColor rule)
      | None \<Rightarrow> (''border-timeline-danger'', ''bg-red-300''))"

definition with_lane :: "nat \<Rightarrow> item \<Rightarrow> item_with_lane" where
  "with_lane laneIndex it =
     (let colors = item_colors (durationDays it)
      in \<lparr>item_id = item_id it, name = name it, start = start it, end' = end' it,
          description = description it, lane = laneIndex,
          startDateItem = start it, endDateItem = end' it,
          borderColor = fst colors, backgroundColor = snd colors\<rparr>)"

text \<open>\<open>lanes.forEach((lane, laneIndex) => lane.forEach(item => itemsWithLanes.push(...)))\<close>\<close>

fun lanes_items :: "nat \<Rightarrow> lane list \<Rightarrow> item_with_lane list" where
  "lanes_items laneIndex [] = []"
| "lanes_items laneIndex (l # ls) = map (with_lane laneIndex) l @ lanes_items (Suc laneIndex) ls"

definition items_with_lanes :: "lane list \<Rightarrow> item_with_lane list" where
  "items_with_lanes ls = lanes_items 0 ls"

definition earliest_start :: "item list \<Rightarrow> day" where
  "earliest_start its =
     foldl (\<lambda>m it. if start it < m then start it else m) (start (hd its)) its"

definition latest_end :: "item list \<Rightarrow> day" where
  "latest_end its =
     foldl (\<lambda>m it. if end' it > m then end' it else m) (end' (hd its)) its"

record timeline_data =
  startDate :: day
  endDate :: day
  totalDays :: int
  itemsWithLanes :: "item_with_lane list"
  lanes :: "lane list"
  maxLane :: int

definition timelineData :: "item list \<Rightarrow> lane_error + timeline_data option" where
  "timelineData its =
     (if its = [] then Inr None
      else
        let s0 = earliest_start its;
            e0 = latest_end its
        in case assignLanes its of
             Inl err \<Rightarrow> Inl err
           | Inr ls \<Rightarrow> Inr (Some \<lparr>startDate = s0, endDate = e0, totalDays = e0 - s0 + 1,
                                  itemsWithLanes = items_with_lanes ls, lanes = ls,
                                  maxLane = int (length ls) - 1\<rparr>))"

text \<open>The shape of the page data that \<open>timelineData\<close> returns, which its consumers (the
  visual, the lane panel, the controls) rely on: well-formed lanes, at least one of them
  and \<open>maxLane\<close> the index of the last, a range of \<open>totalDays\<close> days from \<open>startDate\<close>
  to \<open>endDate\<close>, and every annotated item in the lane its index names and inside the
  range.\<close>

definition timeline_data_wf :: "timeline_data \<Rightarrow> bool" where
  "timeline_data_wf td \<longleftrightarrow>
     lanes_wf (lanes td) \<and> lanes td \<noteq> [] \<and> maxLane td = int (length (lanes td)) - 1 \<and>
     totalDays td = endDate td - startDate td + 1 \<and> 1 \<le> totalDays td \<and>
     (\<forall>x\<in>set (itemsWithLanes td).
        lane x < length (lanes td) \<and> item.truncate x \<in> set (lanes td ! lane x) \<and>
        startDate td \<le> startDateItem x \<and> startDateItem x \<le> endDateItem x \<and>
        endDateItem x \<le> endDate td)"

declare colorRules_def [model_defs] durationDays_def [model_defs] item_colors_def [model_defs]
  with_lane_def [model_defs] items_with_lanes_def [model_defs] earliest_start_def [model_defs]
  latest_end_def [model_defs] timelineData_def [model_defs]

lemma earliest_start_bounds:
  "its \<noteq> [] \<Longrightarrow> (\<forall>x\<in>set its. earliest_start its \<le> start x) \<and> (\<exists>x\<in>set its. earliest_start its = start x)"
  using foldl_running_min [where g = start and m = "start (hd its)" and xs = its]
  by (cases its) (auto simp: earliest_start_def)

lemma latest_end_bounds:
  "its \<noteq> [] \<Longrightarrow> (\<forall>x\<in>set its. end' x \<le> latest_end its) \<and> (\<exists>x\<in>set its. latest_end its = end' x)"
  using foldl_running_max [where g = end' and m = "end' (hd its)" and xs = its]
  by (cases its) (auto simp: latest_end_def)

lemma with_lane_simps [simp]:
  "item.truncate (with_lane i it) = it"
  "startDateItem (with_lane i it) = start it"
  "endDateItem (with_lane i it) = end' it"
  "lane (with_lane i it) = i"
  "start (with_lane i it) = start it"
  "end' (with_lane i it) = end' it"
  "item_id (with_lane i it) = item_id it"
  by (simp_all add: with_lane_def Let_def item.defs)

lemma map_truncate_lanes_items:
  "map item.truncate (lanes_items k ls) = concat ls"
  by (induction k ls rule: lanes_items.induct) (simp_all add: comp_def)

lemma lanes_items_lane:
  "x \<in> set (lanes_items k ls) \<Longrightarrow>
     k \<le> lane x \<and> lane x < k + length ls \<and> item.truncate x \<in> set (ls ! (lane x - k))"
proof (induction k ls rule: lanes_items.induct)
  case (1 k)
  then show ?case by simp
next
  case (2 k l ls)
  show ?case
  proof (cases "x \<in> set (map (with_lane k) l)")
    case True
    then show ?thesis by auto
  next
    case False
    with "2.prems" have "x \<in> set (lanes_items (Suc k) ls)" by simp
    with "2.IH" have "Suc k \<le> lane x \<and> lane x < Suc k + length ls \<and>
        item.truncate x \<in> set (ls ! (lane x - Suc k))" by blast
    then show ?thesis by (auto simp: nth_Cons' Suc_diff_Suc)
  qed
qed

lemma lanes_items_elem:
  "x \<in> set (lanes_items k ls) \<Longrightarrow> \<exists>j it. it \<in> set (concat ls) \<and> x = with_lane j it"
  by (induction k ls rule: lanes_items.induct) auto

lemma timelineData_Some:
  assumes "timelineData its = Inr (Some td)"
  shows "its \<noteq> [] \<and> assignLanes its = Inr (lanes td) \<and>
         itemsWithLanes td = items_with_lanes (lanes td) \<and>
         maxLane td = int (length (lanes td)) - 1 \<and>
         startDate td = earliest_start its \<and> endDate td = latest_end its \<and>
         totalDays td = endDate td - startDate td + 1"
  using assms by (auto simp: timelineData_def Let_def split: if_splits sum.splits)

lemma timelineData_valid:
  "timelineData its = Inr (Some td) \<Longrightarrow> \<forall>x\<in>set its. valid_item x"
  using timelineData_Some assignLanes_Inr by blast

lemma timelineData_item_range:
  assumes td: "timelineData its = Inr (Some td)" and it: "it \<in> set its"
  shows "startDate td \<le> start it \<and> start it \<le> end' it \<and> end' it \<le> endDate td"
proof -
  have ne: "its \<noteq> []" using it by auto
  show ?thesis
    using it timelineData_Some [OF td] earliest_start_bounds [OF ne] latest_end_bounds [OF ne]
      timelineData_valid [OF td] by (auto simp: valid_item_def)
qed

lemma timelineData_totalDays:
  assumes td: "timelineData its = Inr (Some td)"
  shows "totalDays td = endDate td - startDate td + 1 \<and> 1 \<le> totalDays td"
proof -
  obtain it where it: "it \<in> set its" using timelineData_Some [OF td] by (cases its) auto
  show ?thesis using timelineData_item_range [OF td it] timelineData_Some [OF td] by simp
qed

lemma itemsWithLanes_length:
  assumes "timelineData its = Inr (Some td)"
  shows "length (itemsWithLanes td) = length its"
proof -
  have "mset (map item.truncate (itemsWithLanes td)) = mset its"
    using timelineData_Some [OF assms] assignLanes_complete
    by (simp add: items_with_lanes_def map_truncate_lanes_items)
  then show ?thesis by (metis length_map mset_eq_length)
qed

text \<open>C1. Completeness: every item of the input appears exactly once among the annotated items of the page data (the multiset of their item parts is the input).\<close>

theorem timelineData_complete:
  "timelineData its = Inr (Some td) \<Longrightarrow> mset (map item.truncate (itemsWithLanes td)) = mset its"
  using timelineData_Some assignLanes_complete
  by (simp add: items_with_lanes_def map_truncate_lanes_items)

theorem timelineData_complete_witness:
  "mset (map item.truncate [with_lane 0 task_A, with_lane 0 task_C, with_lane 1 task_B]) =
   mset [task_A, task_B, task_C]"
proof -
  have h: "timelineData [task_A, task_B, task_C] =
     Inr (Some \<lparr>startDate = 19723, endDate = 19728, totalDays = 6,
                itemsWithLanes = [with_lane 0 task_A, with_lane 0 task_C, with_lane 1 task_B],
                lanes = [[task_A, task_C], [task_B]], maxLane = 1\<rparr>)"
    (is "_ = Inr (Some ?td)")
    by (simp add: model_defs scenario_items)
  show ?thesis using timelineData_complete [OF h] by simp
qed

text \<open>C4. The page data has the shape its consumers rely on: its lanes are well formed (no
  empty lane, no two items of a lane overlapping), there is at least one and maxLane is
  the index of the last, totalDays counts the days from startDate to endDate (at least
  one), and every annotated item has the index of a lane that holds it and lies, start
  before end, inside the range.\<close>

theorem timelineData_wf:
  assumes td: "timelineData its = Inr (Some td)"
  shows "timeline_data_wf td"
proof -
  have s: "its \<noteq> [] \<and> assignLanes its = Inr (lanes td) \<and>
      itemsWithLanes td = lanes_items 0 (lanes td) \<and> maxLane td = int (length (lanes td)) - 1 \<and>
      startDate td = earliest_start its \<and> endDate td = latest_end its \<and>
      totalDays td = endDate td - startDate td + 1"
    using timelineData_Some [OF td] by (simp add: items_with_lanes_def)
  then have wf: "lanes_wf (lanes td)" and ms: "mset (concat (lanes td)) = mset its"
    using assignLanes_Inr_wf by blast+
  have set_eq: "set (concat (lanes td)) = set its" using ms by (metis set_mset_mset)
  have "lanes td \<noteq> []" using set_eq s by auto
  moreover have "1 \<le> totalDays td" using timelineData_totalDays [OF td] by blast
  moreover have "lane x < length (lanes td) \<and> item.truncate x \<in> set (lanes td ! lane x) \<and>
        startDate td \<le> startDateItem x \<and> startDateItem x \<le> endDateItem x \<and>
        endDateItem x \<le> endDate td" if x: "x \<in> set (itemsWithLanes td)" for x
  proof -
    have x': "x \<in> set (lanes_items 0 (lanes td))" using x s by simp
    obtain j it where "it \<in> set its" "x = with_lane j it"
      using lanes_items_elem [OF x'] set_eq by blast
    then show ?thesis using lanes_items_lane [OF x'] timelineData_item_range [OF td] by simp
  qed
  ultimately show ?thesis using wf s by (simp add: timeline_data_wf_def)
qed

theorem timelineData_wf_witness:
  "timeline_data_wf \<lparr>startDate = 19723, endDate = 19728, totalDays = 6,
     itemsWithLanes = [with_lane 0 task_A, with_lane 0 task_C, with_lane 1 task_B],
     lanes = [[task_A, task_C], [task_B]], maxLane = 1\<rparr>"
proof -
  have h: "timelineData [task_A, task_B, task_C] =
     Inr (Some \<lparr>startDate = 19723, endDate = 19728, totalDays = 6,
                itemsWithLanes = [with_lane 0 task_A, with_lane 0 task_C, with_lane 1 task_B],
                lanes = [[task_A, task_C], [task_B]], maxLane = 1\<rparr>)"
    by (simp add: model_defs scenario_items)
  show ?thesis using timelineData_wf [OF h] .
qed

lemma timelineData_non_overlapping:
  "timelineData its = Inr (Some td) \<Longrightarrow> l \<in> set (lanes td) \<Longrightarrow>
     sorted_wrt (\<lambda>a b. end' a < start b) l"
  using timelineData_Some assignLanes_non_overlapping by blast

text \<open>C3. Optimality: the number of lanes (the last lane index plus one) is the largest number of items that cover one day.\<close>

theorem timelineData_optimal:
  "timelineData its = Inr (Some td) \<Longrightarrow> maxLane td + 1 = int (max_depth its)"
  using timelineData_Some assignLanes_optimal by fastforce

theorem timelineData_optimal_witness:
  "(1::int) + 1 = int (max_depth [task_A, task_B, task_C])"
proof -
  have h: "timelineData [task_A, task_B, task_C] =
     Inr (Some \<lparr>startDate = 19723, endDate = 19728, totalDays = 6,
                itemsWithLanes = [with_lane 0 task_A, with_lane 0 task_C, with_lane 1 task_B],
                lanes = [[task_A, task_C], [task_B]], maxLane = 1\<rparr>)"
    (is "_ = Inr (Some ?td)")
    by (simp add: model_defs scenario_items)
  show ?thesis using timelineData_optimal [OF h] by simp
qed

text \<open>C10. Date range: the start date is the earliest item start, the end date the latest item end, every item lies between them and the range spans at least one day.\<close>

theorem timelineData_date_bounds:
  assumes "timelineData its = Inr (Some td)"
  shows "(\<forall>x\<in>set its. startDate td \<le> start x \<and> end' x \<le> endDate td) \<and>
         (\<exists>x\<in>set its. startDate td = start x) \<and> (\<exists>x\<in>set its. endDate td = end' x) \<and>
         1 \<le> totalDays td"
proof -
  have ne: "its \<noteq> []" and d: "startDate td = earliest_start its" "endDate td = latest_end its"
    using timelineData_Some [OF assms] by auto
  show ?thesis
    using timelineData_item_range [OF assms] timelineData_totalDays [OF assms]
      earliest_start_bounds [OF ne] latest_end_bounds [OF ne] d by auto
qed

theorem timelineData_date_bounds_witness:
  "(19723::day) \<le> start task_B \<and> end' task_B \<le> 19728 \<and> (1::int) \<le> 6"
proof -
  have h: "timelineData [task_A, task_B, task_C] =
     Inr (Some \<lparr>startDate = 19723, endDate = 19728, totalDays = 6,
                itemsWithLanes = [with_lane 0 task_A, with_lane 0 task_C, with_lane 1 task_B],
                lanes = [[task_A, task_C], [task_B]], maxLane = 1\<rparr>)"
    (is "_ = Inr (Some ?td)")
    by (simp add: model_defs scenario_items)
  show ?thesis using timelineData_date_bounds [OF h] by simp
qed

text \<open>C5. Failure: the page data raises ValidationError exactly when some item starts after it ends.\<close>

theorem timelineData_error_iff:
  "timelineData its = Inl ValidationError \<longleftrightarrow> (\<exists>x\<in>set its. \<not> valid_item x)"
  using assignLanes_error_iff [of its]
  by (auto simp: timelineData_def Let_def split: sum.splits)

theorem timelineData_error_iff_witness:
  "timelineData [task_A, mk_item 9 ''Z'' 19730 19729] = Inl ValidationError"
  using timelineData_error_iff [of "[task_A, mk_item 9 ''Z'' 19730 19729]"]
  by (simp add: model_defs scenario_items)

lemma filter_lane_lanes_items:
  "filter (\<lambda>x. lane x = n) (lanes_items k ls) =
     (if k \<le> n \<and> n < k + length ls then map (with_lane n) (ls ! (n - k)) else [])"
proof (induction k ls rule: lanes_items.induct)
  case (1 k)
  then show ?case by auto
next
  case (2 k l ls)
  have "filter (\<lambda>x. lane x = n) (map (with_lane k) l) = (if n = k then map (with_lane k) l else [])"
    by (induction l) auto
  with "2.IH" show ?case by (auto simp: nth_Cons' Suc_diff_Suc)
qed

lemma lanes_items_lanes_set:
  assumes "[] \<notin> set ls"
  shows "lane ` set (lanes_items 0 ls) = {0..<length ls}"
proof
  show "lane ` set (lanes_items 0 ls) \<subseteq> {0..<length ls}"
    using lanes_items_lane [where k = 0] by fastforce
next
  show "{0..<length ls} \<subseteq> lane ` set (lanes_items 0 ls)"
  proof
    fix n assume "n \<in> {0..<length ls}"
    then have n: "n < length ls" by simp
    then have "ls ! n \<noteq> []" using assms nth_mem by fastforce
    then have "filter (\<lambda>x. lane x = n) (lanes_items 0 ls) \<noteq> []"
      using n by (simp add: filter_lane_lanes_items)
    then obtain x where "x \<in> set (lanes_items 0 ls)" "lane x = n"
      by (auto simp: filter_empty_conv)
    then show "n \<in> lane ` set (lanes_items 0 ls)" by force
  qed
qed

text \<open>C2. Non-overlap of a row: the annotated items drawn in one lane, in their order, each start strictly after the previous one ends.\<close>

theorem timelineData_row_non_overlapping:
  assumes "timelineData its = Inr (Some td)"
  shows "sorted_wrt (\<lambda>a b. end' a < start b) (filter (\<lambda>x. lane x = k) (itemsWithLanes td))"
proof (cases "k < length (lanes td)")
  case True
  have "filter (\<lambda>x. lane x = k) (itemsWithLanes td) = map (with_lane k) (lanes td ! k)"
    using timelineData_Some [OF assms] True by (simp add: items_with_lanes_def filter_lane_lanes_items)
  moreover have "sorted_wrt (\<lambda>a b. end' a < start b) (lanes td ! k)"
    using timelineData_Some [OF assms] True assignLanes_non_overlapping by (meson nth_mem)
  ultimately show ?thesis by (simp add: sorted_wrt_map)
next
  case False
  then show ?thesis
    using timelineData_Some [OF assms] by (simp add: items_with_lanes_def filter_lane_lanes_items)
qed

theorem timelineData_row_non_overlapping_witness:
  "sorted_wrt (\<lambda>a b. end' a < start b)
     (filter (\<lambda>x. lane x = 0) [with_lane 0 task_A, with_lane 0 task_C, with_lane 1 task_B])"
proof -
  have h: "timelineData [task_A, task_B, task_C] =
     Inr (Some \<lparr>startDate = 19723, endDate = 19728, totalDays = 6,
                itemsWithLanes = [with_lane 0 task_A, with_lane 0 task_C, with_lane 1 task_B],
                lanes = [[task_A, task_C], [task_B]], maxLane = 1\<rparr>)"
    (is "_ = Inr (Some ?td)")
    by (simp add: model_defs scenario_items)
  show ?thesis using timelineData_row_non_overlapping [OF h, of 0] by simp
qed

text \<open>C6. Refinement: the lanes computed with the array of lane ends are those of first fit over the lanes themselves, on the items sorted by start.\<close>

theorem timelineData_refines_first_fit:
  "timelineData its = Inr (Some td) \<Longrightarrow> lanes td = fold place (sort_by_start its) []"
  using timelineData_Some assignLanes_Inr by blast

theorem timelineData_refines_first_fit_witness:
  "[[task_A, task_C], [task_B]] = fold place (sort_by_start [task_A, task_B, task_C]) []"
proof -
  have h: "timelineData [task_A, task_B, task_C] =
     Inr (Some \<lparr>startDate = 19723, endDate = 19728, totalDays = 6,
                itemsWithLanes = [with_lane 0 task_A, with_lane 0 task_C, with_lane 1 task_B],
                lanes = [[task_A, task_C], [task_B]], maxLane = 1\<rparr>)"
    (is "_ = Inr (Some ?td)")
    by (simp add: model_defs scenario_items)
  show ?thesis using timelineData_refines_first_fit [OF h] by simp
qed

text \<open>C9. Minimality: no partition of the items into non-overlapping lanes has fewer lanes than the page data.\<close>

theorem timelineData_minimal:
  assumes "timelineData its = Inr (Some td)"
    and "mset (concat ls') = mset its"
    and "\<forall>l\<in>set ls'. sorted_wrt (\<lambda>a b. end' a < start b) l"
  shows "maxLane td + 1 \<le> int (length ls')"
  using timelineData_Some [OF assms(1)] assignLanes_minimal [OF _ assms(2,3)] by fastforce

theorem timelineData_minimal_witness:
  "(1::int) + 1 \<le> int (length [[task_A], [task_B], [task_C]])"
proof -
  have h: "timelineData [task_A, task_B, task_C] =
     Inr (Some \<lparr>startDate = 19723, endDate = 19728, totalDays = 6,
                itemsWithLanes = [with_lane 0 task_A, with_lane 0 task_C, with_lane 1 task_B],
                lanes = [[task_A, task_C], [task_B]], maxLane = 1\<rparr>)"
    (is "_ = Inr (Some ?td)")
    by (simp add: model_defs scenario_items)
  have p: "mset (concat [[task_A], [task_B], [task_C]]) = mset [task_A, task_B, task_C]" by simp
  have n: "\<forall>l\<in>set [[task_A], [task_B], [task_C]]. sorted_wrt (\<lambda>a b. end' a < start b) l" by simp
  show ?thesis using timelineData_minimal [OF h p n] by simp
qed

text \<open>C15. Order of the lanes: within a lane, items are in strictly ascending order of start
  day, and the lanes are in the order they were opened, the first items of the lanes having
  ascending start days.\<close>

theorem timelineData_lane_sorted:
  assumes "timelineData its = Inr (Some td)"
  shows "(\<forall>l\<in>set (lanes td). sorted_wrt (<) (map start l)) \<and> sorted (map (\<lambda>l. start (hd l)) (lanes td))"
  using timelineData_Some [OF assms] assignLanes_lane_sorted assignLanes_lane_order by blast

theorem timelineData_lane_sorted_witness:
  "sorted_wrt (<) (map start [task_A, task_C]) \<and> sorted (map (\<lambda>l. start (hd l)) [[task_A, task_C], [task_B]])"
proof -
  have h: "timelineData [task_A, task_B, task_C] =
     Inr (Some \<lparr>startDate = 19723, endDate = 19728, totalDays = 6,
                itemsWithLanes = [with_lane 0 task_A, with_lane 0 task_C, with_lane 1 task_B],
                lanes = [[task_A, task_C], [task_B]], maxLane = 1\<rparr>)"
    by (simp add: model_defs scenario_items)
  show ?thesis using timelineData_lane_sorted [OF h] by simp
qed

text \<open>C17. The lane count and the date range do not depend on the order of the input items.\<close>

theorem timelineData_order_independent:
  assumes "mset its = mset its'"
    and "timelineData its = Inr (Some td)" and "timelineData its' = Inr (Some td')"
  shows "maxLane td = maxLane td' \<and> startDate td = startDate td' \<and> endDate td = endDate td'"
proof -
  have a: "assignLanes its = Inr (lanes td)" "assignLanes its' = Inr (lanes td')"
    using timelineData_Some assms(2,3) by blast+
  have "length (lanes td) = length (lanes td')"
    using assignLanes_count_order_independent [OF assms(1) a] .
  moreover have "set its = set its'" using assms(1) by (metis set_mset_mset)
  moreover have "its \<noteq> []" "its' \<noteq> []" using timelineData_Some assms(2,3) by blast+
  ultimately show ?thesis
    using timelineData_Some [OF assms(2)] timelineData_Some [OF assms(3)]
      earliest_start_bounds [of its] earliest_start_bounds [of its']
      latest_end_bounds [of its] latest_end_bounds [of its']
    by (metis order_antisym)
qed

theorem timelineData_order_independent_witness:
  "maxLane (the (projr (timelineData [task_C, task_B, task_A]))) = 1"
proof -
  have h: "timelineData [task_A, task_B, task_C] =
     Inr (Some \<lparr>startDate = 19723, endDate = 19728, totalDays = 6,
                itemsWithLanes = [with_lane 0 task_A, with_lane 0 task_C, with_lane 1 task_B],
                lanes = [[task_A, task_C], [task_B]], maxLane = 1\<rparr>)"
    (is "_ = Inr (Some ?td)")
    by (simp add: model_defs scenario_items)
  have p: "mset [task_A, task_B, task_C] = mset [task_C, task_B, task_A]" by simp
  obtain td' where h': "timelineData [task_C, task_B, task_A] = Inr (Some td')"
    by (simp add: model_defs scenario_items)
  show ?thesis using timelineData_order_independent [OF p h h'] h' by simp
qed

subsection \<open>Facts about the annotated items used by the layout\<close>

lemma lanes_items_dates:
  "x \<in> set (lanes_items k ls) \<Longrightarrow> startDateItem x = start x \<and> endDateItem x = end' x"
  by (induction k ls rule: lanes_items.induct) (auto simp: with_lane_def Let_def)

lemma row_items:
  assumes "timelineData its = Inr (Some td)"
  shows "filter (\<lambda>x. lane x = k) (itemsWithLanes td) =
           (if k < length (lanes td) then map (with_lane k) (lanes td ! k) else [])"
  using timelineData_Some [OF assms] by (simp add: items_with_lanes_def filter_lane_lanes_items)

lemma annotated_item_valid:
  assumes "timelineData its = Inr (Some td)" and "x \<in> set (itemsWithLanes td)"
  shows "startDateItem x = start x \<and> endDateItem x = end' x \<and> start x \<le> end' x"
proof -
  have ls: "itemsWithLanes td = lanes_items 0 (lanes td)" and a: "assignLanes its = Inr (lanes td)"
    using timelineData_Some [OF assms(1)] by (auto simp: items_with_lanes_def)
  have "item.truncate x \<in> set (concat (lanes td))"
    using assms(2) ls map_truncate_lanes_items [of 0 "lanes td"] by (metis image_eqI set_map)
  then have "item.truncate x \<in> set its"
    using assignLanes_complete [OF a] by (metis set_mset_mset)
  then have "valid_item (item.truncate x)" using timelineData_valid [OF assms(1)] by blast
  then show ?thesis
    using lanes_items_dates assms(2) ls by (simp add: valid_item_def item.defs)
qed

end
