(* ===== verification/TimelineState.thy ===== *)
theory TimelineState
  imports TimelineData Complex_Main
begin

text \<open>
  The state of the Timeline page (\<open>pages/timeline/timeline.jsx\<close>): the three
  \<open>useState\<close> hooks (zoom level, selected item id or \<open>null\<close>, the panel shown) and the
  handlers that change them, driven by the controls of the child components
  (\<open>TimelineControls\<close> fires the zoom handlers and disables a button at its bound,
  \<open>TimelineItem\<close> and \<open>LaneInfoPanel\<close> fire the item click, the dialog fires the close,
  the two buttons of the page switch the panel). The zoom level is a JavaScript number,
  modelled as a real (the rounding of floating point is not modelled; the clamps with
  \<open>Math.min\<close> and \<open>Math.max\<close> make the bounds exact either way). \<open>selectedItem\<close> is
  an item id or \<open>null\<close> (\<open>None\<close>); the dialog is open when it is truthy, which for a
  numeric id means non-zero.

  The page reacts only when it renders data: events come from rendered controls, so a
  step is taken only when the control that fires it is on the screen and enabled. The
  reachable states are an inductive set over these guarded steps.
\<close>

record ui_state =
  zoomLevel :: real
  selectedItem :: "item_id option"
  optionShow :: string

definition init_ui :: ui_state where
  "init_ui = \<lparr>zoomLevel = 1, selectedItem = None, optionShow = ''timeline''\<rparr>"

datatype ui_event =
    ZoomIn
  | ZoomOut
  | ItemClick item_id
  | ShowTimeline
  | ShowLaneInfoPanel
  | ModalClose

definition handleZoomIn :: "real \<Rightarrow> real" where
  "handleZoomIn prev = min (prev * 1.2) 3"

definition handleZoomOut :: "real \<Rightarrow> real" where
  "handleZoomOut prev = max (prev / 1.2) 0.3"

definition handleItemClick :: "item_id \<Rightarrow> item_id option \<Rightarrow> item_id option" where
  "handleItemClick itemId prev = (if prev = Some itemId then None else Some itemId)"

fun ui_step :: "ui_state \<Rightarrow> ui_event \<Rightarrow> ui_state" where
  "ui_step s ZoomIn = s\<lparr>zoomLevel := handleZoomIn (zoomLevel s)\<rparr>"
| "ui_step s ZoomOut = s\<lparr>zoomLevel := handleZoomOut (zoomLevel s)\<rparr>"
| "ui_step s (ItemClick i) = s\<lparr>selectedItem := handleItemClick i (selectedItem s)\<rparr>"
| "ui_step s ShowTimeline = s\<lparr>optionShow := ''timeline''\<rparr>"
| "ui_step s ShowLaneInfoPanel = s\<lparr>optionShow := ''laneInfoPanel''\<rparr>"
| "ui_step s ModalClose = s\<lparr>selectedItem := None\<rparr>"

text \<open>\<open>modalOpen = Boolean(selectedItem)\<close>: \<open>null\<close> and the id \<open>0\<close> are falsy.\<close>

definition modalOpen :: "ui_state \<Rightarrow> bool" where
  "modalOpen s = (case selectedItem s of None \<Rightarrow> False | Some i \<Rightarrow> i \<noteq> 0)"

text \<open>The \<open>disabled\<close> props of the zoom buttons of \<open>TimelineControls\<close>.\<close>

definition zoomOutDisabled :: "real \<Rightarrow> bool" where
  "zoomOutDisabled z \<longleftrightarrow> z \<le> 0.3"

definition zoomInDisabled :: "real \<Rightarrow> bool" where
  "zoomInDisabled z \<longleftrightarrow> z \<ge> 3"

text \<open>
  The page renders its panels only when \<open>timelineData\<close> is not \<open>null\<close>; the controls
  are on the screen with the timeline panel, the lane panel lists the items too, and the
  dialog can be closed only while open.
\<close>

definition renders_data :: "item list \<Rightarrow> bool" where
  "renders_data its \<longleftrightarrow> (case timelineData its of Inr (Some _) \<Rightarrow> True | _ \<Rightarrow> False)"

fun event_enabled :: "item list \<Rightarrow> ui_state \<Rightarrow> ui_event \<Rightarrow> bool" where
  "event_enabled its s ZoomIn \<longleftrightarrow>
     renders_data its \<and> optionShow s = ''timeline'' \<and> \<not> zoomInDisabled (zoomLevel s)"
| "event_enabled its s ZoomOut \<longleftrightarrow>
     renders_data its \<and> optionShow s = ''timeline'' \<and> \<not> zoomOutDisabled (zoomLevel s)"
| "event_enabled its s (ItemClick i) \<longleftrightarrow> renders_data its \<and> list_ex (\<lambda>x. item_id x = i) its"
| "event_enabled its s ShowTimeline \<longleftrightarrow> renders_data its"
| "event_enabled its s ShowLaneInfoPanel \<longleftrightarrow> renders_data its"
| "event_enabled its s ModalClose \<longleftrightarrow> renders_data its \<and> modalOpen s"

inductive ui_reachable :: "item list \<Rightarrow> ui_state \<Rightarrow> bool" for its where
  init: "ui_reachable its init_ui"
| step: "ui_reachable its s \<Longrightarrow> event_enabled its s e \<Longrightarrow> ui_reachable its (ui_step s e)"

text \<open>What the page keeps true between events: the zoom level within its clamps, one of
  the two panels shown, and a selected id that is the id of an item.\<close>

definition ui_inv :: "item list \<Rightarrow> ui_state \<Rightarrow> bool" where
  "ui_inv its s \<longleftrightarrow>
     0.3 \<le> zoomLevel s \<and> zoomLevel s \<le> 3 \<and>
     (optionShow s = ''timeline'' \<or> optionShow s = ''laneInfoPanel'') \<and>
     (\<forall>i. selectedItem s = Some i \<longrightarrow> (\<exists>x\<in>set its. item_id x = i))"

declare init_ui_def [model_defs] handleZoomIn_def [model_defs] handleZoomOut_def [model_defs]
  handleItemClick_def [model_defs] modalOpen_def [model_defs] zoomOutDisabled_def [model_defs]
  zoomInDisabled_def [model_defs] renders_data_def [model_defs]

lemma handleZoomIn_bounds: "0.3 \<le> z \<Longrightarrow> z \<le> 3 \<Longrightarrow> 0.3 \<le> handleZoomIn z \<and> handleZoomIn z \<le> 3"
  by (simp add: handleZoomIn_def)

lemma handleZoomOut_bounds: "0.3 \<le> z \<Longrightarrow> z \<le> 3 \<Longrightarrow> 0.3 \<le> handleZoomOut z \<and> handleZoomOut z \<le> 3"
  by (simp add: handleZoomOut_def)

lemma ui_inv_init: "ui_inv its init_ui"
  by (simp add: ui_inv_def init_ui_def)

lemma ui_step_inv:
  assumes "ui_inv its s" and "event_enabled its s e"
  shows "ui_inv its (ui_step s e)"
  using assms
proof (cases e)
  case ZoomIn
  with assms show ?thesis using handleZoomIn_bounds by (simp add: ui_inv_def)
next
  case ZoomOut
  with assms show ?thesis using handleZoomOut_bounds by (simp add: ui_inv_def)
next
  case (ItemClick i)
  with assms show ?thesis by (auto simp: ui_inv_def handleItemClick_def list_ex_iff)
qed (auto simp: ui_inv_def)

lemma ui_reachable_inv: "ui_reachable its s \<Longrightarrow> ui_inv its s"
proof (induction rule: ui_reachable.induct)
  case init
  show ?case by (rule ui_inv_init)
next
  case (step s e)
  from step.IH step.hyps(2) show ?case by (rule ui_step_inv)
qed

text \<open>C8. The page invariant: in every reachable state the zoom level stays within the clamps
  of the handlers, between 0.3 and 3, one of the two panels is shown, and the selected id,
  when there is one, is the id of an item of the list.\<close>

theorem ui_reachable_zoom_bounds:
  "ui_reachable its s \<Longrightarrow> 0.3 \<le> zoomLevel s \<and> zoomLevel s \<le> 3 \<and>
     (optionShow s = ''timeline'' \<or> optionShow s = ''laneInfoPanel'') \<and>
     (\<forall>i. selectedItem s = Some i \<longrightarrow> (\<exists>x\<in>set its. item_id x = i))"
  using ui_reachable_inv by (simp add: ui_inv_def)

theorem ui_reachable_zoom_bounds_witness:
  "0.3 \<le> zoomLevel (ui_step init_ui (ItemClick 1)) \<and> zoomLevel (ui_step init_ui (ItemClick 1)) \<le> 3 \<and>
   (\<exists>x\<in>set [task_A]. item_id x = 1)"
proof -
  have r: "ui_reachable [task_A] (ui_step init_ui (ItemClick 1))"
    by (rule ui_reachable.step [OF ui_reachable.init]) (simp add: model_defs scenario_items)
  have "selectedItem (ui_step init_ui (ItemClick 1)) = Some 1" by (simp add: model_defs)
  then show ?thesis using ui_reachable_zoom_bounds [OF r] by blast
qed

text \<open>C14. Zoom buttons: in a reachable state a zoom button is disabled exactly at its bound,
  and an enabled button moves the zoom level strictly in its direction.\<close>

theorem zoom_buttons_at_bounds:
  assumes "ui_reachable its s"
  shows "(zoomInDisabled (zoomLevel s) \<longleftrightarrow> zoomLevel s = 3) \<and>
         (zoomOutDisabled (zoomLevel s) \<longleftrightarrow> zoomLevel s = 0.3) \<and>
         (\<not> zoomInDisabled (zoomLevel s) \<longrightarrow> zoomLevel s < zoomLevel (ui_step s ZoomIn)) \<and>
         (\<not> zoomOutDisabled (zoomLevel s) \<longrightarrow> zoomLevel (ui_step s ZoomOut) < zoomLevel s)"
  using ui_reachable_inv [OF assms]
  by (auto simp: ui_inv_def zoomInDisabled_def zoomOutDisabled_def handleZoomIn_def handleZoomOut_def)

theorem zoom_buttons_at_bounds_witness:
  "\<not> zoomInDisabled (zoomLevel (ui_step init_ui ZoomIn)) \<and>
   zoomLevel (ui_step init_ui ZoomIn) < zoomLevel (ui_step (ui_step init_ui ZoomIn) ZoomIn)"
proof -
  have r: "ui_reachable [task_A] (ui_step init_ui ZoomIn)"
    by (rule ui_reachable.step [OF ui_reachable.init]) (simp add: model_defs scenario_items)
  have d: "\<not> zoomInDisabled (zoomLevel (ui_step init_ui ZoomIn))" by (simp add: model_defs)
  show ?thesis using zoom_buttons_at_bounds [OF r] d by blast
qed


end
