(* ===== verification/Layout.thy ===== *)
theory Layout
  imports TimelineState
begin

text \<open>
  Geometry of the timeline (\<open>components/TimelineVisual/timeline-visual.jsx\<close> and
  \<open>components/TimelineItem/timeline-item.jsx\<close>). The visual computes a base width
  (at least 1200px, else 30px per day times the zoom), a height from the last lane
  index, a ruler of 30-day "months" and of days positioned in percent of the base width,
  and grid lines and item bars positioned in percent of the item container, which is
  inset by \<open>left-8\<close> (32px) and \<open>top-12\<close> (48px). A bar's left edge and width come from
  its day offset and duration (at least two days wide); its top from its lane index.
  Lengths are reals (pixels or percent, as the style strings use them).
\<close>

definition laneHeight :: real where
  "laneHeight = 60"

definition baseWidth :: "real \<Rightarrow> int \<Rightarrow> real" where
  "baseWidth zoom days = max 1200 (of_int days * 30 * zoom)"

definition timelineHeight :: "int \<Rightarrow> real" where
  "timelineHeight lastLane = (of_int lastLane + 1) * laneHeight + 100"

text \<open>The ruler: \<open>Math.ceil(totalDays / 30)\<close> month labels and one label per day.\<close>

definition monthCount :: "int \<Rightarrow> int" where
  "monthCount days = \<lceil>of_int days / (30::real)\<rceil>"

definition monthPosition :: "real \<Rightarrow> real \<Rightarrow> int \<Rightarrow> real" where
  "monthPosition zoom bw monthIndex = (of_int monthIndex * 30 * 30 * zoom / bw) * 100"

definition dayPosition :: "real \<Rightarrow> real \<Rightarrow> int \<Rightarrow> real" where
  "dayPosition zoom bw dayIndex = (of_int dayIndex * 30 * zoom / bw) * 100"

definition gridPosition :: "real \<Rightarrow> real \<Rightarrow> int \<Rightarrow> real" where
  "gridPosition zoom bw dayIndex = (of_int dayIndex * 30 * zoom / (bw - 32)) * 100"

text \<open>The style of an item bar: \<open>left\<close> and \<open>width\<close> in percent of the item container,
  \<open>top\<close> and \<open>height\<close> in pixels.\<close>

record bar =
  barLeft :: real
  barWidth :: real
  barTop :: real
  barHeight :: real

definition item_bar :: "day \<Rightarrow> real \<Rightarrow> real \<Rightarrow> item_with_lane \<Rightarrow> bar" where
  "item_bar timelineStart bw zoom it =
     (let startOffset = startDateItem it - timelineStart;
          duration = endDateItem it - startDateItem it + 1;
          calculatedWidth = ((of_int duration * 30 * zoom) / (bw - 32)) * 100;
          itemLeft = ((of_int startOffset * 30 * zoom) / (bw - 32)) * 100;
          itemTop = of_nat (lane it) * laneHeight + 10;
          minWidthPercentage = ((2 * 30 * zoom) / (bw - 32)) * 100;
          itemWidth = max calculatedWidth minWidthPercentage
      in \<lparr>barLeft = itemLeft, barWidth = max itemWidth minWidthPercentage, barTop = itemTop,
          barHeight = laneHeight - 20\<rparr>)"

datatype tooltip_vertical = TooltipBelow | TooltipAbove
datatype tooltip_horizontal = AlignLeft | AlignRight | AlignCenter

definition tooltip_placement :: "bar \<Rightarrow> tooltip_vertical \<times> tooltip_horizontal" where
  "tooltip_placement b =
     ((if barTop b < 100 then TooltipBelow else TooltipAbove),
      (if barLeft b < 25 then AlignLeft else if barLeft b > 75 then AlignRight else AlignCenter))"

text \<open>The bars of the page: one per annotated item, in the order of \<open>itemsWithLanes\<close>,
  each with \<open>isSelected = selectedItem === item.id\<close>.\<close>

definition visual_bars :: "ui_state \<Rightarrow> timeline_data \<Rightarrow> (item_id \<times> bar \<times> bool) list" where
  "visual_bars s td =
     (let bw = baseWidth (zoomLevel s) (totalDays td)
      in map (\<lambda>it. (item_id it, item_bar (startDate td) bw (zoomLevel s) it,
                     selectedItem s = Some (item_id it)))
             (itemsWithLanes td))"

text \<open>Pixel offsets from the left edge of the timeline: a ruler label is placed in the
  full width, a bar or grid line in the container that starts 32px further right.\<close>

definition ruler_px :: "real \<Rightarrow> real \<Rightarrow> int \<Rightarrow> real" where
  "ruler_px zoom bw dayIndex = dayPosition zoom bw dayIndex / 100 * bw"

definition bar_px :: "real \<Rightarrow> bar \<Rightarrow> real" where
  "bar_px bw b = 32 + barLeft b / 100 * (bw - 32)"

declare laneHeight_def [model_defs] baseWidth_def [model_defs] timelineHeight_def [model_defs]
  monthCount_def [model_defs] monthPosition_def [model_defs] dayPosition_def [model_defs]
  gridPosition_def [model_defs] item_bar_def [model_defs] tooltip_placement_def [model_defs]
  visual_bars_def [model_defs] ruler_px_def [model_defs] bar_px_def [model_defs]

lemma baseWidth_ge: "1200 \<le> baseWidth zoom days"
  by (simp add: baseWidth_def)

lemma max_scaled: "0 \<le> (k::real) \<Longrightarrow> max (x * k) (y * k) = max x y * k"
proof (cases "x \<le> y")
  case True
  moreover assume "0 \<le> k"
  ultimately have "x * k \<le> y * k" by (rule mult_right_mono)
  with True show ?thesis by (simp add: max_absorb2)
next
  case False
  moreover assume "0 \<le> k"
  ultimately have "y * k \<le> x * k" by (simp add: mult_right_mono)
  with False show ?thesis by (simp add: max_absorb1)
qed
lemma item_bar_scaled:
  assumes "bw = baseWidth zoom days" and "0 \<le> zoom"
  shows "barLeft (item_bar t bw zoom it) = of_int (startDateItem it - t) * (3000 * zoom / (bw - 32)) \<and>
         barWidth (item_bar t bw zoom it) =
           max (of_int (endDateItem it - startDateItem it + 1)) 2 * (3000 * zoom / (bw - 32)) \<and>
         barTop (item_bar t bw zoom it) = of_nat (lane it) * 60 + 10 \<and>
         barHeight (item_bar t bw zoom it) = 40"
proof -
  let ?k = "3000 * zoom / (bw - 32)"
  have pos: "0 < bw - 32" using baseWidth_ge [of zoom days] assms(1) by simp
  then have k: "0 \<le> ?k" using assms(2) by simp
  have sc: "(x * 30 * zoom / (bw - 32)) * 100 = x * ?k" for x :: real
    using pos by (simp add: field_simps)
  let ?d = "of_int (endDateItem it - startDateItem it + 1) :: real"
  have "barWidth (item_bar t bw zoom it) =
      max (max ((?d * 30 * zoom / (bw - 32)) * 100) ((2 * 30 * zoom / (bw - 32)) * 100))
        ((2 * 30 * zoom / (bw - 32)) * 100)"
    by (simp only: item_bar_def Let_def bar.select_convs)
  also have "\<dots> = max (max (?d * ?k) (2 * ?k)) (2 * ?k)" by (simp only: sc)
  also have "\<dots> = max ?d 2 * ?k" by (simp only: max.assoc max.idem max_scaled [OF k])
  finally have w: "barWidth (item_bar t bw zoom it) = max ?d 2 * ?k" .
  have "barLeft (item_bar t bw zoom it) =
      (of_int (startDateItem it - t) * 30 * zoom / (bw - 32)) * 100"
    by (simp only: item_bar_def Let_def bar.select_convs)
  also have "\<dots> = of_int (startDateItem it - t) * ?k" by (rule sc)
  finally have l: "barLeft (item_bar t bw zoom it) = of_int (startDateItem it - t) * ?k" .
  have "barTop (item_bar t bw zoom it) = of_nat (lane it) * 60 + 10 \<and> barHeight (item_bar t bw zoom it) = 40"
    by (simp add: item_bar_def Let_def laneHeight_def)
  with l w show ?thesis by simp
qed

lemma scaled_le:
  fixes k :: real
  assumes "0 \<le> k" and "a + w \<le> b"
  shows "a * k + w * k \<le> b * k"
  using mult_right_mono [OF assms(2,1)] by (simp add: distrib_right)

text \<open>C7. Rendered bars of one row: an item bar ends (left plus width, in percent of the item
  container) no further right than the left edge of a later bar of its lane exactly when the
  earlier item lasts at least two days or a free day separates the two; a one-day item
  followed the next day by another item of its lane overlaps it, because of the two-day
  minimum width.\<close>

theorem row_bars_disjoint:
  assumes td: "timelineData its = Inr (Some td)" and z: "0 < zoom"
    and row: "filter (\<lambda>x. lane x = k) (itemsWithLanes td) = xs @ a # ys @ b # zs"
  shows "barLeft (item_bar (startDate td) (baseWidth zoom (totalDays td)) zoom a) +
           barWidth (item_bar (startDate td) (baseWidth zoom (totalDays td)) zoom a)
         \<le> barLeft (item_bar (startDate td) (baseWidth zoom (totalDays td)) zoom b) \<longleftrightarrow>
         start a < end' a \<or> end' a + 1 < start b"
proof -
  let ?bw = "baseWidth zoom (totalDays td)" and ?t = "startDate td"
  let ?k = "3000 * zoom / (?bw - 32)"
  have kpos: "0 < ?k" using z baseWidth_ge [of zoom "totalDays td"] by simp
  have "a \<in> set (filter (\<lambda>x. lane x = k) (itemsWithLanes td))"
    "b \<in> set (filter (\<lambda>x. lane x = k) (itemsWithLanes td))"
    unfolding row by simp_all
  then have inrow: "a \<in> set (itemsWithLanes td)" "b \<in> set (itemsWithLanes td)" by simp_all
  have va: "startDateItem a = start a \<and> endDateItem a = end' a \<and> start a \<le> end' a"
    and vb: "startDateItem b = start b"
    using annotated_item_valid [OF td] inrow by blast+
  have "sorted_wrt (\<lambda>a b. end' a < start b) (filter (\<lambda>x. lane x = k) (itemsWithLanes td))"
  proof (cases "k < length (lanes td)")
    case True
    then have "sorted_wrt (\<lambda>a b. end' a < start b) (lanes td ! k)"
      using timelineData_Some [OF td] assignLanes_non_overlapping by (meson nth_mem)
    with True show ?thesis using row_items [OF td] by (simp add: sorted_wrt_map)
  qed (simp add: row_items [OF td])
  then have gap: "end' a < start b" using row by (simp add: sorted_wrt_append)
  have "start a - ?t + max (end' a - start a + 1) 2 \<le> start b - ?t \<longleftrightarrow>
      start a < end' a \<or> end' a + 1 < start b"
    using gap va by (auto simp: max_def)
  also have "start a - ?t + max (end' a - start a + 1) 2 \<le> start b - ?t \<longleftrightarrow>
      real_of_int (start a - ?t + max (end' a - start a + 1) 2) \<le> of_int (start b - ?t)"
    by (rule of_int_le_iff [symmetric])
  also have "\<dots> \<longleftrightarrow>
      of_int (start a - ?t) + max (of_int (end' a - start a + 1)) 2 \<le> (of_int (start b - ?t) :: real)"
    by (simp only: of_int_add of_int_max of_int_numeral)
  also have "\<dots> \<longleftrightarrow> of_int (start a - ?t) * ?k + max (of_int (end' a - start a + 1)) 2 * ?k
      \<le> of_int (start b - ?t) * ?k"
    using kpos by (simp only: distrib_right [symmetric] mult_le_cancel_right_pos)
  moreover have "barLeft (item_bar ?t ?bw zoom a) = of_int (start a - ?t) * ?k"
    "barWidth (item_bar ?t ?bw zoom a) = max (of_int (end' a - start a + 1)) 2 * ?k"
    "barLeft (item_bar ?t ?bw zoom b) = of_int (start b - ?t) * ?k"
    using item_bar_scaled [OF refl less_imp_le [OF z], where days = "totalDays td" and t = ?t and it = a]
      item_bar_scaled [OF refl less_imp_le [OF z], where days = "totalDays td" and t = ?t and it = b] va vb
    by simp_all
  ultimately show ?thesis by simp
qed

theorem row_bars_disjoint_witness:
  "barLeft (item_bar 19723 (baseWidth 1 6) 1 (with_lane 0 task_A)) +
     barWidth (item_bar 19723 (baseWidth 1 6) 1 (with_lane 0 task_A))
   \<le> barLeft (item_bar 19723 (baseWidth 1 6) 1 (with_lane 0 task_C))"
proof -
  have h: "timelineData [task_A, task_B, task_C] =
     Inr (Some \<lparr>startDate = 19723, endDate = 19728, totalDays = 6,
                itemsWithLanes = [with_lane 0 task_A, with_lane 0 task_C, with_lane 1 task_B],
                lanes = [[task_A, task_C], [task_B]], maxLane = 1\<rparr>)"
    (is "_ = Inr (Some ?td)")
    by (simp add: model_defs scenario_items)
  have r: "filter (\<lambda>x. lane x = 0) (itemsWithLanes ?td) = [] @ with_lane 0 task_A # [] @ with_lane 0 task_C # []"
    by (simp add: model_defs scenario_items)
  have l: "start (with_lane 0 task_A) < end' (with_lane 0 task_A) \<or>
      end' (with_lane 0 task_A) + 1 < start (with_lane 0 task_C)"
    by (simp add: model_defs scenario_items)
  show ?thesis using row_bars_disjoint [OF h _ r, of 1] l by simp
qed

text \<open>C11. Vertical layout: every bar lies inside the item container (between 10px and the
  container height, the timeline height minus the 48px ruler), the bar of a lower lane index
  ends above the bar of any higher lane, and the height fits the lanes: some bar is in the
  last lane, and it ends exactly 62px above the bottom of the container (one 60px row per
  lane, the 10px offset and 40px bars, and the 100px padding minus the ruler).\<close>

theorem bars_in_rows:
  assumes td: "timelineData its = Inr (Some td)" and x: "x \<in> set (itemsWithLanes td)"
    and bw: "bw = baseWidth zoom (totalDays td)" and z: "0 \<le> zoom"
  shows "10 \<le> barTop (item_bar (startDate td) bw zoom x) \<and>
         barTop (item_bar (startDate td) bw zoom x) + barHeight (item_bar (startDate td) bw zoom x)
           \<le> timelineHeight (maxLane td) - 48 \<and>
         (\<forall>y\<in>set (itemsWithLanes td). lane x < lane y \<longrightarrow>
            barTop (item_bar (startDate td) bw zoom x) + barHeight (item_bar (startDate td) bw zoom x)
              < barTop (item_bar (startDate td) bw zoom y)) \<and>
         (\<exists>y\<in>set (itemsWithLanes td).
            barTop (item_bar (startDate td) bw zoom y) + barHeight (item_bar (startDate td) bw zoom y)
              = timelineHeight (maxLane td) - 48 - 62)"
proof -
  have s: "assignLanes its = Inr (lanes td)" "itemsWithLanes td = lanes_items 0 (lanes td)"
      "maxLane td = int (length (lanes td)) - 1" "its \<noteq> []"
    using timelineData_Some [OF td] by (auto simp: items_with_lanes_def)
  have wf: "lanes_wf (lanes td)" and ms: "mset (concat (lanes td)) = mset its"
    using assignLanes_Inr_wf [OF s(1)] by blast+
  have "lanes td \<noteq> []" using ms s(4) by auto
  then have "length (lanes td) - 1 \<in> lane ` set (itemsWithLanes td)"
    using lanes_items_lanes_set [of "lanes td"] wf s(2) by (simp add: lanes_wf_def)
  then obtain y where y: "y \<in> set (itemsWithLanes td)" "lane y = length (lanes td) - 1" by (metis imageE)
  have "0 < length (lanes td)" using \<open>lanes td \<noteq> []\<close> by simp
  then obtain n where n: "length (lanes td) = Suc n" by (cases "length (lanes td)") auto
  then have last: "real (lane y) = of_int (maxLane td)" using y(2) s(3) by simp
  have "lane x < length (lanes td)"
    using lanes_items_lane [of x 0 "lanes td"] x s(2) by simp
  then have "real (lane x) \<le> of_int (maxLane td)" using s(3) by linarith
  then show ?thesis
    using item_bar_scaled [OF bw z] y(1) last by (auto simp: timelineHeight_def laneHeight_def)
qed

theorem bars_in_rows_witness:
  "10 \<le> barTop (item_bar 19723 (baseWidth 1 6) 1 (with_lane 1 task_B)) \<and>
   barTop (item_bar 19723 (baseWidth 1 6) 1 (with_lane 1 task_B)) +
     barHeight (item_bar 19723 (baseWidth 1 6) 1 (with_lane 1 task_B)) \<le> timelineHeight 1 - 48"
proof -
  have h: "timelineData [task_A, task_B, task_C] =
     Inr (Some \<lparr>startDate = 19723, endDate = 19728, totalDays = 6,
                itemsWithLanes = [with_lane 0 task_A, with_lane 0 task_C, with_lane 1 task_B],
                lanes = [[task_A, task_C], [task_B]], maxLane = 1\<rparr>)"
    (is "_ = Inr (Some ?td)")
    by (simp add: model_defs scenario_items)
  have m: "with_lane 1 task_B \<in> set (itemsWithLanes ?td)" by simp
  show ?thesis using bars_in_rows [OF h m refl, of 1] by simp
qed

text \<open>C13. The bars are scaled to the item container, which is 32px narrower than the base
  width, while the base width is computed for the days alone: the bar of an item that lasts
  at least two days and ends on the last day of the range stays within the container exactly
  when the days take at most 1168px (30px per day times the zoom), so from there on it spills
  past the right edge.\<close>

theorem bar_overflows_right:
  assumes td: "timelineData its = Inr (Some td)" and x: "x \<in> set (itemsWithLanes td)"
    and last: "endDateItem x = endDate td" and long: "startDateItem x < endDateItem x" and z: "0 < zoom"
  shows "barLeft (item_bar (startDate td) (baseWidth zoom (totalDays td)) zoom x) +
           barWidth (item_bar (startDate td) (baseWidth zoom (totalDays td)) zoom x) \<le> 100 \<longleftrightarrow>
         of_int (totalDays td) * 30 * zoom \<le> 1168"
proof -
  let ?bw = "baseWidth zoom (totalDays td)" and ?t = "startDate td"
  let ?T = "of_int (totalDays td) * 30 * zoom :: real"
  have pos: "0 < ?bw - 32" using baseWidth_ge [of zoom "totalDays td"] by simp
  have n: "totalDays td = endDate td - startDate td + 1" using timelineData_totalDays [OF td] by blast
  have sc: "barLeft (item_bar ?t ?bw zoom x) = of_int (startDateItem x - ?t) * (3000 * zoom / (?bw - 32))"
      "barWidth (item_bar ?t ?bw zoom x) =
         max (of_int (endDateItem x - startDateItem x + 1)) 2 * (3000 * zoom / (?bw - 32))"
    using item_bar_scaled [OF refl less_imp_le [OF z], where days = "totalDays td" and t = ?t and it = x]
    by simp_all
  have "max (of_int (endDateItem x - startDateItem x + 1)) 2 = (of_int (endDateItem x - startDateItem x + 1) :: real)"
    using long by simp
  then have "barLeft (item_bar ?t ?bw zoom x) + barWidth (item_bar ?t ?bw zoom x) =
      (of_int (startDateItem x - ?t) + of_int (endDateItem x - startDateItem x + 1)) * (3000 * zoom / (?bw - 32))"
    using sc by (simp only: distrib_right)
  also have "\<dots> = of_int (endDateItem x - ?t + 1) * (3000 * zoom / (?bw - 32))"
    by (simp only: of_int_add [symmetric]) simp
  also have "\<dots> = 100 * ?T / (?bw - 32)" using last n by simp
  finally have r: "barLeft (item_bar ?t ?bw zoom x) + barWidth (item_bar ?t ?bw zoom x) = 100 * ?T / (?bw - 32)" .
  have "100 * ?T / (?bw - 32) \<le> 100 \<longleftrightarrow> 100 * ?T \<le> 100 * (?bw - 32)" using pos by (simp add: divide_le_eq)
  also have "\<dots> \<longleftrightarrow> ?T \<le> ?bw - 32" by (rule mult_le_cancel_left_pos) simp
  also have "\<dots> \<longleftrightarrow> ?T \<le> 1168" by (auto simp: baseWidth_def max_def)
  finally show ?thesis using r by simp
qed

theorem bar_overflows_right_witness:
  "\<not> barLeft (item_bar 19723 (baseWidth 1 40) 1 (with_lane 0 (mk_item 1 ''Long'' 19723 19762))) +
      barWidth (item_bar 19723 (baseWidth 1 40) 1 (with_lane 0 (mk_item 1 ''Long'' 19723 19762))) \<le> 100"
proof -
  let ?it = "mk_item 1 ''Long'' 19723 19762"
  have h: "timelineData [?it] = Inr (Some \<lparr>startDate = 19723, endDate = 19762, totalDays = 40,
      itemsWithLanes = [with_lane 0 ?it], lanes = [[?it]], maxLane = 0\<rparr>)"
    by (simp add: model_defs)
  show ?thesis using bar_overflows_right [OF h, of "with_lane 0 ?it" 1] by (simp add: model_defs)
qed



text \<open>C21. The tooltip of a bar opens below it exactly for the first two lanes, and above it for the others.\<close>

theorem tooltip_below_first_rows:
  assumes "bw = baseWidth zoom days" and "0 \<le> zoom"
  shows "fst (tooltip_placement (item_bar t bw zoom it)) = TooltipBelow \<longleftrightarrow> lane it \<le> 1"
  using item_bar_scaled [OF assms, of t it] by (simp add: tooltip_placement_def)

theorem tooltip_below_first_rows_witness:
  "fst (tooltip_placement (item_bar 19723 (baseWidth 1 6) 1 (with_lane 1 task_B))) = TooltipBelow"
  using tooltip_below_first_rows [OF refl, where zoom = 1 and days = 6 and t = 19723 and it = "with_lane 1 task_B"]
  by simp

end
