(* ===== verification/Views.thy ===== *)
theory Views
  imports Layout
begin

text \<open>
  The views the page composes (\<open>timeline.jsx\<close> lines 103--177) and the children that
  only present data: \<open>LaneInfoPanel\<close> (a summary line and one card per lane listing
  its items, each with the border colour looked up in \<open>itemsWithLanes\<close> by id),
  \<open>TimelineControls\<close> (the date range, the item count and the zoom percentage) and
  \<open>TimelineItemDialog\<close> (the selected item looked up by id, and its duration). Numbers in
  template literals are written in decimal by \<open>decimal\<close>.
\<close>

fun decimal :: "nat \<Rightarrow> string" where
  "decimal n = (if n < 10 then [''0123456789'' ! n] else decimal (n div 10) @ [''0123456789'' ! (n mod 10)])"

declare decimal.simps [simp del]

datatype panel = EmptyState | Controls | Visual | LaneInfo | ItemDialog

definition render_panels :: "ui_state \<Rightarrow> timeline_data option \<Rightarrow> panel list" where
  "render_panels s data =
     (case data of
        None \<Rightarrow> [EmptyState]
      | Some td \<Rightarrow>
          (if optionShow s = ''timeline'' then [Controls, Visual] else []) @
          (if optionShow s = ''laneInfoPanel'' then [LaneInfo] else []) @ [ItemDialog])"

subsection \<open>LaneInfoPanel\<close>

definition lane_summary :: "timeline_data \<Rightarrow> string" where
  "lane_summary td =
     decimal (length (lanes td)) @ '' lanes for '' @ decimal (length (itemsWithLanes td)) @ '' items''"

definition count_label :: "nat \<Rightarrow> string" where
  "count_label n = decimal n @ '' item'' @ (if n \<noteq> 1 then ''s'' else '''')"

record lane_card =
  card_title :: string
  card_count :: string
  card_entries :: "(item_id \<times> string \<times> string option) list"

definition lane_entry :: "item_with_lane list \<Rightarrow> item \<Rightarrow> item_id \<times> string \<times> string option" where
  "lane_entry itemsWL it =
     (item_id it, name it,
      map_option borderColor (find (\<lambda>i. item_id i = item_id it) itemsWL))"

definition lane_cards :: "timeline_data \<Rightarrow> lane_card list" where
  "lane_cards td =
     map (\<lambda>(laneIndex, lane).
            \<lparr>card_title = ''Lane '' @ decimal (laneIndex + 1),
             card_count = count_label (length lane),
             card_entries = map (lane_entry (itemsWithLanes td)) lane\<rparr>)
         (enumerate 0 (lanes td))"

text \<open>The tooltip line of a bar: \<open>{duration} day{duration !== 1 ? "s" : ""} \<bullet> Lane {item.lane + 1}\<close>.\<close>

definition bar_lane_label :: "item_with_lane \<Rightarrow> string" where
  "bar_lane_label it = ''Lane '' @ decimal (lane it + 1)"

subsection \<open>TimelineControls and TimelineItemDialog\<close>

definition zoomPercent :: "real \<Rightarrow> int" where
  "zoomPercent zoom = round (zoom * 100)"

definition controls_count_text :: "item list \<Rightarrow> string" where
  "controls_count_text its = decimal (length its) @ '' items''"

definition dialog_item :: "item list \<Rightarrow> item_id option \<Rightarrow> item option" where
  "dialog_item its selected = find (\<lambda>i. Some (item_id i) = selected) its"

definition dialog_duration :: "item list \<Rightarrow> item_id option \<Rightarrow> int" where
  "dialog_duration its selected =
     (case dialog_item its selected of Some it \<Rightarrow> end' it - start it + 1 | None \<Rightarrow> 0)"

declare render_panels_def [model_defs] lane_summary_def [model_defs] count_label_def [model_defs]
  lane_entry_def [model_defs] lane_cards_def [model_defs] bar_lane_label_def [model_defs]
  zoomPercent_def [model_defs] dialog_item_def [model_defs] dialog_duration_def [model_defs]
  controls_count_text_def [model_defs]

lemma with_lane_borderColor: "borderColor (with_lane k it) = fst (item_colors (durationDays it))"
  by (simp add: with_lane_def Let_def)

lemma card_entries_lane_cards:
  "map card_entries (lane_cards td) = map (map (lane_entry (itemsWithLanes td))) (lanes td)"
proof -
  have "map card_entries (lane_cards td) =
      map (\<lambda>x. map (lane_entry (itemsWithLanes td)) (snd x)) (enumerate 0 (lanes td))"
    by (simp add: lane_cards_def comp_def case_prod_beta')
  also have "\<dots> = map (map (lane_entry (itemsWithLanes td))) (map snd (enumerate 0 (lanes td)))"
    by (simp only: map_map comp_def)
  finally show ?thesis by (simp only: map_snd_enumerate)
qed

lemma lane_cards_nth:
  "k < length (lanes td) \<Longrightarrow> card_title (lane_cards td ! k) = ''Lane '' @ decimal (k + 1)"
  by (simp add: lane_cards_def nth_enumerate_eq)

text \<open>C25. The lane panel lists every item exactly once: the ids of its entries, over all
  lane cards, are the ids of the input.\<close>

theorem lane_panel_lists_every_item:
  assumes "timelineData its = Inr (Some td)"
  shows "mset (map fst (concat (map card_entries (lane_cards td)))) = mset (map item_id its)"
proof -
  have a: "assignLanes its = Inr (lanes td)" using timelineData_Some [OF assms] by simp
  have "map fst (concat (map card_entries (lane_cards td))) = map item_id (concat (lanes td))"
    by (simp add: card_entries_lane_cards map_concat comp_def lane_entry_def)
  then show ?thesis using assignLanes_complete [OF a] by (metis mset_map)
qed

theorem lane_panel_lists_every_item_witness:
  "mset (map fst (concat (map card_entries (lane_cards
     \<lparr>startDate = 19723, endDate = 19728, totalDays = 6,
      itemsWithLanes = [with_lane 0 task_A, with_lane 0 task_C, with_lane 1 task_B],
      lanes = [[task_A, task_C], [task_B]], maxLane = 1\<rparr>)))) = mset [1, 2, 3]"
proof -
  have h: "timelineData [task_A, task_B, task_C] =
     Inr (Some \<lparr>startDate = 19723, endDate = 19728, totalDays = 6,
                itemsWithLanes = [with_lane 0 task_A, with_lane 0 task_C, with_lane 1 task_B],
                lanes = [[task_A, task_C], [task_B]], maxLane = 1\<rparr>)"
    (is "_ = Inr (Some ?td)")
    by (simp add: model_defs scenario_items)
  show ?thesis using lane_panel_lists_every_item [OF h] by (simp add: scenario_items model_defs)
qed

text \<open>C23. The counts the page writes agree: the lane panel's summary gives maxLane + 1 lanes
  and ends with the item count text of the controls ("n items", n the number of input
  items), and the item counts of the lane cards add up to that number.\<close>

theorem lane_summary_counts:
  assumes td: "timelineData its = Inr (Some td)"
  shows "lane_summary td = decimal (nat (maxLane td + 1)) @ '' lanes for '' @ controls_count_text its \<and>
         sum_list (map length (lanes td)) = length its"
proof -
  have m: "maxLane td = int (length (lanes td)) - 1" and a: "assignLanes its = Inr (lanes td)"
    using timelineData_Some [OF td] by simp_all
  have "length (concat (lanes td)) = length its"
    using assignLanes_complete [OF a] by (metis mset_eq_length)
  then have s: "sum_list (map length (lanes td)) = length its" by (simp add: length_concat)
  have "nat (maxLane td + 1) = length (lanes td)" using m by simp
  then show ?thesis
    using s itemsWithLanes_length [OF td] by (simp add: lane_summary_def controls_count_text_def)
qed

theorem lane_summary_counts_witness:
  "lane_summary \<lparr>startDate = 19723, endDate = 19728, totalDays = 6,
      itemsWithLanes = [with_lane 0 task_A, with_lane 0 task_C, with_lane 1 task_B],
      lanes = [[task_A, task_C], [task_B]], maxLane = 1\<rparr> = ''2 lanes for 3 items''"
proof -
  have h: "timelineData [task_A, task_B, task_C] =
     Inr (Some \<lparr>startDate = 19723, endDate = 19728, totalDays = 6,
                itemsWithLanes = [with_lane 0 task_A, with_lane 0 task_C, with_lane 1 task_B],
                lanes = [[task_A, task_C], [task_B]], maxLane = 1\<rparr>)"
    by (simp add: model_defs scenario_items)
  show ?thesis using lane_summary_counts [OF h]
    by (simp add: controls_count_text_def decimal.simps)
qed

text \<open>C26. With distinct ids, the border colour the lane panel looks up for an item (the first
  annotated item with its id) is the colour of that item.\<close>

theorem lane_panel_border_colour:
  assumes td: "timelineData its = Inr (Some td)" and ids: "distinct (map item_id its)"
    and it: "it \<in> set (concat (lanes td))"
  shows "lane_entry (itemsWithLanes td) it = (item_id it, name it, Some (fst (item_colors (durationDays it))))"
proof -
  let ?W = "itemsWithLanes td"
  have w: "?W = lanes_items 0 (lanes td)" using timelineData_Some [OF td] by (simp add: items_with_lanes_def)
  have a: "assignLanes its = Inr (lanes td)" using timelineData_Some [OF td] by simp
  have "mset (map item_id (concat (lanes td))) = mset (map item_id its)"
    using assignLanes_complete [OF a] by (metis mset_map)
  then have d: "distinct (map item_id (concat (lanes td)))"
    using ids by (rule mset_eq_imp_distinct_iff [THEN iffD2])
  have "item.truncate ` set ?W = set (concat (lanes td))"
    using w map_truncate_lanes_items [of 0 "lanes td"] by (metis set_map)
  then have "it \<in> item.truncate ` set ?W" using it by (simp only:)
  then obtain y where y: "y \<in> set ?W" "item.truncate y = it" by blast
  then have "item_id y = item_id it" by (auto simp: item.defs)
  then have "find (\<lambda>i. item_id i = item_id it) ?W \<noteq> None"
    using y(1) by (auto simp: find_None_iff)
  then obtain x where fx: "find (\<lambda>i. item_id i = item_id it) ?W = Some x" by blast
  then have x: "x \<in> set ?W" "item_id x = item_id it" by (auto dest: find_SomeD)
  have "x \<in> set (lanes_items 0 (lanes td))" using x(1) w by simp
  from lanes_items_elem [OF this] obtain j it' where
    it': "it' \<in> set (concat (lanes td))" "x = with_lane j it'" by blast
  then have "item_id it' = item_id it" using x(2) by simp
  moreover have "inj_on item_id (set (concat (lanes td)))" using d by (simp add: distinct_map)
  ultimately have "it' = it" using it it'(1) by (simp add: inj_on_eq_iff)
  then show ?thesis using fx it' by (simp add: lane_entry_def with_lane_borderColor)
qed

theorem lane_panel_border_colour_witness:
  "lane_entry [with_lane 0 task_A, with_lane 0 task_C, with_lane 1 task_B] task_B =
     (2, ''B'', Some ''border-timeline-success'')"
proof -
  have h: "timelineData [task_A, task_B, task_C] =
     Inr (Some \<lparr>startDate = 19723, endDate = 19728, totalDays = 6,
                itemsWithLanes = [with_lane 0 task_A, with_lane 0 task_C, with_lane 1 task_B],
                lanes = [[task_A, task_C], [task_B]], maxLane = 1\<rparr>)"
    (is "_ = Inr (Some ?td)")
    by (simp add: model_defs scenario_items)
  have d: "distinct (map item_id [task_A, task_B, task_C])" by (simp add: model_defs scenario_items)
  have m: "task_B \<in> set (concat (lanes ?td))" by simp
  show ?thesis using lane_panel_border_colour [OF h d m] by (simp add: model_defs scenario_items)
qed

lemma lane_cards_entries_nth:
  "k < length (lanes td) \<Longrightarrow> card_entries (lane_cards td ! k) = map (lane_entry (itemsWithLanes td)) (lanes td ! k)"
  by (simp add: lane_cards_def nth_enumerate_eq)

text \<open>C27. The lane named in a bar tooltip ("Lane n", one-based) is the title of a lane card,
  and that card lists the item: its entries include the bar's id.\<close>

theorem bar_label_matches_lane_card:
  assumes td: "timelineData its = Inr (Some td)" and x: "x \<in> set (itemsWithLanes td)"
  shows "lane x < length (lane_cards td) \<and> bar_lane_label x = card_title (lane_cards td ! lane x) \<and>
         item_id x \<in> fst ` set (card_entries (lane_cards td ! lane x))"
proof -
  have l: "lane x < length (lanes td) \<and> item.truncate x \<in> set (lanes td ! lane x)"
    using lanes_items_lane [of x 0 "lanes td"] x timelineData_Some [OF td]
    by (simp add: items_with_lanes_def)
  then have "item_id x \<in> fst ` set (map (lane_entry (itemsWithLanes td)) (lanes td ! lane x))"
    by (force simp: lane_entry_def item.defs)
  with l show ?thesis
    by (simp add: lane_cards_nth lane_cards_entries_nth bar_lane_label_def) (simp add: lane_cards_def)
qed

theorem bar_label_matches_lane_card_witness:
  "bar_lane_label (with_lane 1 task_B) = ''Lane 2''"
proof -
  have h: "timelineData [task_A, task_B, task_C] =
     Inr (Some \<lparr>startDate = 19723, endDate = 19728, totalDays = 6,
                itemsWithLanes = [with_lane 0 task_A, with_lane 0 task_C, with_lane 1 task_B],
                lanes = [[task_A, task_C], [task_B]], maxLane = 1\<rparr>)"
    (is "_ = Inr (Some ?td)")
    by (simp add: model_defs scenario_items)
  have m: "with_lane 1 task_B \<in> set (itemsWithLanes ?td)" by simp
  have "bar_lane_label (with_lane 1 task_B) = card_title (lane_cards ?td ! 1)"
    using bar_label_matches_lane_card [OF h m] by simp
  then show ?thesis by (simp add: lane_cards_def decimal.simps)
qed

lemma selection_needs_data:
  "ui_reachable its s \<Longrightarrow> selectedItem s \<noteq> None \<Longrightarrow> renders_data its"
proof (induction rule: ui_reachable.induct)
  case init
  then show ?case by (simp add: init_ui_def)
next
  case (step s e)
  then show ?case by (cases e) (auto simp: handleItemClick_def split: if_splits)
qed

text \<open>C28. When the dialog is open in a reachable state, it finds the selected item in the
  list and shows a duration of at least one day.\<close>

theorem dialog_shows_selected_item:
  assumes r: "ui_reachable its s" and m: "modalOpen s"
  shows "\<exists>it\<in>set its. dialog_item its (selectedItem s) = Some it \<and>
           Some (item_id it) = selectedItem s \<and> 1 \<le> dialog_duration its (selectedItem s)"
proof -
  obtain i where i: "selectedItem s = Some i"
    using m by (cases "selectedItem s") (auto simp: modalOpen_def)
  then have "\<exists>x\<in>set its. item_id x = i" using ui_reachable_inv [OF r] by (simp add: ui_inv_def)
  then have "dialog_item its (selectedItem s) \<noteq> None"
    using i by (auto simp: dialog_item_def find_None_iff)
  then obtain it where fx: "dialog_item its (selectedItem s) = Some it" by blast
  then have it: "it \<in> set its" "Some (item_id it) = selectedItem s"
    unfolding dialog_item_def by (auto dest: find_SomeD)
  have "renders_data its" using selection_needs_data [OF r] i by simp
  then obtain td where "timelineData its = Inr (Some td)"
    unfolding renders_data_def by (auto split: sum.splits option.splits)
  then have "valid_item it" using timelineData_valid it(1) by blast
  then have "1 \<le> dialog_duration its (selectedItem s)"
    using fx by (simp add: dialog_duration_def valid_item_def)
  with fx it show ?thesis by blast
qed

theorem dialog_shows_selected_item_witness:
  "dialog_item [task_A, task_B, task_C] (Some 2) = Some task_B \<and>
   1 \<le> dialog_duration [task_A, task_B, task_C] (Some 2)"
proof -
  have r: "ui_reachable [task_A, task_B, task_C] (ui_step init_ui (ItemClick 2))"
    by (rule ui_reachable.step [OF ui_reachable.init]) (simp add: model_defs scenario_items)
  have m: "modalOpen (ui_step init_ui (ItemClick 2))" by (simp add: model_defs)
  have s: "selectedItem (ui_step init_ui (ItemClick 2)) = Some 2" by (simp add: model_defs)
  obtain it where "it \<in> set [task_A, task_B, task_C]" "dialog_item [task_A, task_B, task_C] (Some 2) = Some it"
    "1 \<le> dialog_duration [task_A, task_B, task_C] (Some 2)" "Some (item_id it) = Some 2"
    using dialog_shows_selected_item [OF r m] s by auto
  then show ?thesis by (auto simp: scenario_items model_defs)
qed

text \<open>C30. With data, exactly one of the timeline and the lane panel is shown, the
  controls are shown with the timeline, the dialog is always mounted, and the zoom
  events are enabled only while the controls are shown.\<close>

theorem panels_shown:
  assumes r: "ui_reachable its s"
  shows "(Visual \<in> set (render_panels s (Some td)) \<longleftrightarrow> LaneInfo \<notin> set (render_panels s (Some td))) \<and>
         (Controls \<in> set (render_panels s (Some td)) \<longleftrightarrow> Visual \<in> set (render_panels s (Some td))) \<and>
         ItemDialog \<in> set (render_panels s (Some td)) \<and>
         ((event_enabled its s ZoomIn \<or> event_enabled its s ZoomOut) \<longrightarrow>
            Controls \<in> set (render_panels s (Some td)))"
  using ui_reachable_inv [OF r] by (auto simp: ui_inv_def render_panels_def)

theorem panels_shown_witness:
  "render_panels (ui_step init_ui ShowLaneInfoPanel)
     (Some \<lparr>startDate = 19723, endDate = 19728, totalDays = 6,
        itemsWithLanes = [with_lane 0 task_A, with_lane 0 task_C, with_lane 1 task_B],
        lanes = [[task_A, task_C], [task_B]], maxLane = 1\<rparr>) = [LaneInfo, ItemDialog] \<and>
   \<not> event_enabled [task_A, task_B, task_C] (ui_step init_ui ShowLaneInfoPanel) ZoomIn"
proof -
  have r: "ui_reachable [task_A, task_B, task_C] (ui_step init_ui ShowLaneInfoPanel)"
    by (rule ui_reachable.step [OF ui_reachable.init]) (simp add: model_defs scenario_items)
  have p: "render_panels (ui_step init_ui ShowLaneInfoPanel)
     (Some \<lparr>startDate = 19723, endDate = 19728, totalDays = 6,
        itemsWithLanes = [with_lane 0 task_A, with_lane 0 task_C, with_lane 1 task_B],
        lanes = [[task_A, task_C], [task_B]], maxLane = 1\<rparr>) = [LaneInfo, ItemDialog]"
    by (simp add: render_panels_def init_ui_def)
  show ?thesis using panels_shown [OF r, where td = "\<lparr>startDate = 19723, endDate = 19728, totalDays = 6,
          itemsWithLanes = [with_lane 0 task_A, with_lane 0 task_C, with_lane 1 task_B],
          lanes = [[task_A, task_C], [task_B]], maxLane = 1\<rparr>"] p by simp
qed




end
