(* ===== verification/Dates.thy ===== *)
theory Dates
  imports Prelude
begin

text \<open>
  The calendar of the JavaScript \<open>Date\<close> objects the components build with date-fns
  (\<open>parseISO\<close>, \<open>addDays\<close>, \<open>getDay\<close>, \<open>getDate\<close>), in UTC: a date is a day number from
  1970-01-01 (a Thursday), converted to and from a proleptic Gregorian
  (year, month, day) by the era arithmetic of \<open>civil_from_days\<close> and
  \<open>days_from_civil\<close> (eras of 400 years, years starting in March so that the leap day
  ends the year).
\<close>

definition year_of_era :: "int \<Rightarrow> int" where
  "year_of_era doe = (doe - doe div 1460 + doe div 36524 - doe div 146096) div 365"

definition year_start :: "int \<Rightarrow> int" where
  "year_start yoe = 365 * yoe + yoe div 4 - yoe div 100"

definition month_of_mp :: "int \<Rightarrow> int" where
  "month_of_mp mp = (if mp < 10 then mp + 3 else mp - 9)"

definition mp_of_month :: "int \<Rightarrow> int" where
  "mp_of_month m = (if m > 2 then m - 3 else m + 9)"

definition civil_from_days :: "day \<Rightarrow> int \<times> int \<times> int" where
  "civil_from_days d =
     (let z = d + 719468;
          era = z div 146097;
          doe = z - era * 146097;
          yoe = year_of_era doe;
          doy = doe - year_start yoe;
          mp = (5 * doy + 2) div 153;
          m = month_of_mp mp
      in (yoe + era * 400 + (if m \<le> 2 then 1 else 0), m, doy - (153 * mp + 2) div 5 + 1))"

definition days_from_civil :: "int \<Rightarrow> int \<Rightarrow> int \<Rightarrow> day" where
  "days_from_civil y m dd =
     (let y' = y - (if m \<le> 2 then 1 else 0);
          era = y' div 400;
          yoe = y' - era * 400;
          doy = (153 * mp_of_month m + 2) div 5 + dd - 1
      in era * 146097 + year_start yoe + doy - 719468)"

text \<open>Leap years and month lengths of the proleptic Gregorian calendar, and the dates
  that exist in it.\<close>

definition is_leap :: "int \<Rightarrow> bool" where
  "is_leap y \<longleftrightarrow> y mod 4 = 0 \<and> (y mod 100 \<noteq> 0 \<or> y mod 400 = 0)"

definition days_in_month :: "int \<Rightarrow> int \<Rightarrow> int" where
  "days_in_month y m =
     (if m = 2 then (if is_leap y then 29 else 28)
      else if m = 4 \<or> m = 6 \<or> m = 9 \<or> m = 11 then 30 else 31)"

definition valid_date :: "int \<Rightarrow> int \<Rightarrow> int \<Rightarrow> bool" where
  "valid_date y m dd \<longleftrightarrow> 1 \<le> m \<and> m \<le> 12 \<and> 1 \<le> dd \<and> dd \<le> days_in_month y m"

lemma div_succ_le: "(0::int) < k \<Longrightarrow> (x + 1) div k \<le> x div k + 1"
proof -
  assume k: "0 < k"
  have "(x + 1) div k \<le> (x + k) div k" using k by (intro zdiv_mono1) simp_all
  also have "\<dots> = x div k + 1" using k by (simp add: div_add_self2)
  finally show ?thesis .
qed

lemma year_of_era_step:
  assumes "0 \<le> x" "x + 1 \<le> 146096"
  shows "year_of_era x \<le> year_of_era (x + 1)"
proof (cases "x + 1 = 146096")
  case True
  then have "x = 146095" by simp
  then show ?thesis by (simp add: year_of_era_def)
next
  case False
  then have c: "x div 146096 = 0" "(x + 1) div 146096 = 0" using assms by simp_all
  have a: "(x + 1) div 1460 \<le> x div 1460 + 1" by (rule div_succ_le) simp
  have b: "x div 36524 \<le> (x + 1) div 36524" by (rule zdiv_mono1) simp_all
  have "x - x div 1460 + x div 36524 - x div 146096 \<le>
        (x + 1) - (x + 1) div 1460 + (x + 1) div 36524 - (x + 1) div 146096"
    using a b c by linarith
  then show ?thesis unfolding year_of_era_def by (rule zdiv_mono1) simp
qed

lemma year_of_era_mono:
  assumes "0 \<le> x" "x \<le> y" "y \<le> 146096"
  shows "year_of_era x \<le> year_of_era y"
  using assms(2,3)
proof (induction y rule: int_ge_induct)
  case base
  then show ?case by simp
next
  case (step i)
  then have "year_of_era x \<le> year_of_era i" by simp
  also have "\<dots> \<le> year_of_era (i + 1)"
    using step.hyps step.prems assms(1) by (intro year_of_era_step) simp_all
  finally show ?case .
qed

lemma year_boundaries:
  "list_all (\<lambda>Y. year_of_era (year_start Y) = Y \<and> year_of_era (year_start (Y + 1) - 1) = Y) [0..399]"
  by code_simp

lemma year_start_nonneg: "0 \<le> Y \<Longrightarrow> 0 \<le> year_start Y"
proof -
  assume Y: "0 \<le> Y"
  have "Y div 100 \<le> Y div 1" using Y by (intro zdiv_mono2) simp_all
  moreover have "0 \<le> Y div 4" using Y by simp
  ultimately show ?thesis unfolding year_start_def using Y by simp
qed

lemma year_start_step: "0 \<le> Y \<Longrightarrow> year_start (Y + 1) \<le> year_start Y + 366"
proof -
  have "(Y + 1) div 4 \<le> Y div 4 + 1" by (rule div_succ_le) simp
  moreover have "Y div 100 \<le> (Y + 1) div 100" by (rule zdiv_mono1) simp_all
  ultimately show ?thesis unfolding year_start_def distrib_left by linarith
qed

lemma year_start_le: "0 \<le> Y \<Longrightarrow> Y \<le> 399 \<Longrightarrow> year_start Y \<le> 145734"
proof -
  assume Y: "0 \<le> Y" "Y \<le> 399"
  have "Y div 4 \<le> 399 div 4" using Y by (intro zdiv_mono1) simp_all
  moreover have "0 \<le> Y div 100" using Y by simp
  ultimately show ?thesis unfolding year_start_def using Y by simp
qed

lemma year_boundary:
  assumes "0 \<le> Y" "Y \<le> 399"
  shows "year_of_era (year_start Y) = Y" "year_of_era (year_start (Y + 1) - 1) = Y"
proof -
  have "Y \<in> set [0..399]" using assms by simp
  then show "year_of_era (year_start Y) = Y" "year_of_era (year_start (Y + 1) - 1) = Y"
    using year_boundaries by (simp_all add: list_all_iff)
qed

lemma year_of_era_bounds:
  assumes doe: "0 \<le> doe" "doe \<le> 146096"
  shows "0 \<le> year_of_era doe \<and> year_of_era doe \<le> 399 \<and>
         year_start (year_of_era doe) \<le> doe \<and> doe - year_start (year_of_era doe) \<le> 365"
proof -
  define Y where "Y = year_of_era doe"
  have "year_of_era 0 \<le> Y" unfolding Y_def using doe by (intro year_of_era_mono) simp_all
  then have lo: "0 \<le> Y" by (simp add: year_of_era_def)
  have "Y \<le> year_of_era 146096" unfolding Y_def using doe by (intro year_of_era_mono) simp_all
  then have hi: "Y \<le> 399" by (simp add: year_of_era_def)
  have start: "year_start Y \<le> doe"
  proof (rule ccontr)
    assume "\<not> year_start Y \<le> doe"
    then have lt: "doe \<le> year_start Y - 1" by simp
    then have "Y \<noteq> 0" using doe by (auto simp: year_start_def)
    then have b: "year_of_era (year_start (Y - 1 + 1) - 1) = Y - 1"
      using lo hi by (intro year_boundary) simp_all
    have "year_start Y - 1 \<le> 146096" using year_start_le [OF lo hi] by simp
    then have "year_of_era doe \<le> year_of_era (year_start Y - 1)"
      using doe lt by (intro year_of_era_mono) simp_all
    then have "Y \<le> year_of_era (year_start Y - 1)" by (simp only: Y_def [symmetric])
    then show False using b by simp
  qed
  have len: "doe - year_start Y \<le> 365"
  proof (cases "Y = 399")
    case True
    then show ?thesis using doe by (simp add: year_start_def)
  next
    case False
    show ?thesis
    proof (rule ccontr)
      assume "\<not> doe - year_start Y \<le> 365"
      then have ge: "year_start (Y + 1) \<le> doe" using year_start_step [OF lo] by simp
      have b: "year_of_era (year_start (Y + 1)) = Y + 1"
        using lo hi False year_boundary(1) [of "Y + 1"] by simp
      have "year_of_era (year_start (Y + 1)) \<le> year_of_era doe"
        using ge doe year_start_nonneg [of "Y + 1"] lo by (intro year_of_era_mono) simp_all
      then have "year_of_era (year_start (Y + 1)) \<le> Y" by (simp only: Y_def [symmetric])
      then show False using b by simp
    qed
  qed
  show ?thesis using lo hi start len unfolding Y_def by blast
qed

lemma month_of_mp_inverse:
  "0 \<le> mp \<Longrightarrow> mp \<le> 11 \<Longrightarrow> mp_of_month (month_of_mp mp) = mp \<and>
     (month_of_mp mp \<le> 2 \<longleftrightarrow> 10 \<le> mp)"
  by (simp add: mp_of_month_def month_of_mp_def)

text \<open>Reading back the calendar date of any day number gives the day number.\<close>

lemma days_from_civil_civil_from_days:
  "(\<lambda>(y, m, dd). days_from_civil y m dd) (civil_from_days d) = d"
proof -
  define z where "z = d + 719468"
  define era where "era = z div 146097"
  define doe where "doe = z - era * 146097"
  define Y where "Y = year_of_era doe"
  define doy where "doy = doe - year_start Y"
  define mp where "mp = (5 * doy + 2) div 153"
  have c: "civil_from_days d =
      (Y + era * 400 + (if month_of_mp mp \<le> 2 then 1 else 0), month_of_mp mp,
       doy - (153 * mp + 2) div 5 + 1)"
    by (simp only: civil_from_days_def Let_def z_def [symmetric] era_def [symmetric]
        doe_def [symmetric] Y_def [symmetric] doy_def [symmetric] mp_def [symmetric])
  have "doe = z mod 146097" by (simp add: doe_def era_def minus_div_mult_eq_mod [symmetric])
  then have doe_b: "0 \<le> doe" "doe \<le> 146096" by simp_all
  note yb = year_of_era_bounds [OF doe_b, folded Y_def]
  have doy_b: "0 \<le> doy" "doy \<le> 365" using yb by (simp_all add: doy_def)
  have "0 \<le> mp" using doy_b by (simp add: mp_def)
  moreover have "mp \<le> (5 * 365 + 2) div 153" unfolding mp_def using doy_b by (intro zdiv_mono1) simp_all
  ultimately have mi: "mp_of_month (month_of_mp mp) = mp \<and> (month_of_mp mp \<le> 2 \<longleftrightarrow> 10 \<le> mp)"
    by (intro month_of_mp_inverse) simp_all
  have y': "(Y + era * 400 + (if month_of_mp mp \<le> 2 then 1 else 0)) -
              (if month_of_mp mp \<le> 2 then 1 else 0) = Y + era * 400" by simp
  have e: "(Y + era * 400) div 400 = era" using yb by simp
  have "days_from_civil (Y + era * 400 + (if month_of_mp mp \<le> 2 then 1 else 0)) (month_of_mp mp)
          (doy - (153 * mp + 2) div 5 + 1) = era * 146097 + year_start Y + doy - 719468"
    unfolding days_from_civil_def Let_def y' e using mi by simp
  also have "\<dots> = d" by (simp add: doy_def doe_def z_def)
  finally show ?thesis using c by simp
qed

lemma year_lengths:
  "list_all (\<lambda>Y. year_start (Y + 1) + (Y + 1) div 400 - year_start Y =
                  (if is_leap (Y + 1) then 366 else 365)) [0..399]"
  by code_simp

lemma month_boundaries:
  "list_all (\<lambda>mp. (5 * ((153 * mp + 2) div 5) + 2) div 153 = mp \<and>
                   (5 * ((153 * mp + 2) div 5 + days_in_month 2000 (month_of_mp mp) - 1) + 2) div 153 = mp)
     [0..11]"
  by code_simp

lemma is_leap_era: "is_leap (k + era * 400) = is_leap k"
proof -
  have "era * 400 = (era * 100) * 4" "era * 400 = (era * 4) * 100" "era * 400 = era * 400" by simp_all
  then show ?thesis unfolding is_leap_def by (metis mod_mult_self1)
qed

lemma year_of_era_within:
  assumes Y: "0 \<le> Y" "Y \<le> 399"
    and x: "year_start Y \<le> x" "x \<le> year_start (Y + 1) + (Y + 1) div 400 - 1"
  shows "year_of_era x = Y"
proof -
  have b: "year_of_era (year_start Y) = Y" "year_of_era (year_start (Y + 1) - 1) = Y"
    using Y by (rule year_boundary)+
  have xb: "x \<le> 146096"
  proof (cases "Y = 399")
    case True
    then show ?thesis using x by (simp add: year_start_def)
  next
    case False
    then show ?thesis using x Y year_start_le [of "Y + 1"] by simp
  qed
  have "year_of_era (year_start Y) \<le> year_of_era x"
    using x xb year_start_nonneg [OF Y(1)] by (intro year_of_era_mono) simp_all
  moreover have "year_of_era x \<le> Y"
  proof (cases "Y = 399")
    case True
    have "year_of_era x \<le> year_of_era 146096"
      using x xb year_start_nonneg [OF Y(1)] by (intro year_of_era_mono) simp_all
    then show ?thesis using True by (simp add: year_of_era_def)
  next
    case False
    then have "(Y + 1) div 400 = 0" using Y by simp
    then have "x \<le> year_start (Y + 1) - 1" using x by simp
    moreover have "year_start (Y + 1) - 1 \<le> 146096" using year_start_le [of "Y + 1"] Y False by simp
    ultimately have "year_of_era x \<le> year_of_era (year_start (Y + 1) - 1)"
      using x year_start_nonneg [OF Y(1)] by (intro year_of_era_mono) simp_all
    then show ?thesis using b by simp
  qed
  ultimately show ?thesis using b by simp
qed

lemma month_of_day_of_year:
  assumes mp: "0 \<le> mp" "mp \<le> 11" and dd: "1 \<le> dd" "dd \<le> days_in_month 2000 (month_of_mp mp)"
  shows "(5 * ((153 * mp + 2) div 5 + dd - 1) + 2) div 153 = mp"
proof -
  have "mp \<in> set [0..11]" using mp by simp
  then have b: "(5 * ((153 * mp + 2) div 5) + 2) div 153 = mp"
    "(5 * ((153 * mp + 2) div 5 + days_in_month 2000 (month_of_mp mp) - 1) + 2) div 153 = mp"
    using month_boundaries by (simp_all add: list_all_iff)
  have "(5 * ((153 * mp + 2) div 5) + 2) div 153 \<le> (5 * ((153 * mp + 2) div 5 + dd - 1) + 2) div 153"
    using dd by (intro zdiv_mono1) simp_all
  moreover have "(5 * ((153 * mp + 2) div 5 + dd - 1) + 2) div 153 \<le>
      (5 * ((153 * mp + 2) div 5 + days_in_month 2000 (month_of_mp mp) - 1) + 2) div 153"
    using dd by (intro zdiv_mono1) simp_all
  ultimately show ?thesis using b by simp
qed

lemma year_end_le: "0 \<le> Y \<Longrightarrow> Y \<le> 399 \<Longrightarrow> year_start (Y + 1) + (Y + 1) div 400 - 1 \<le> 146096"
proof (cases "Y = 399")
  case True
  then show ?thesis by (simp add: year_start_def)
next
  case False
  assume "0 \<le> Y" "Y \<le> 399"
  then show ?thesis using False year_start_le [of "Y + 1"] by simp
qed

lemma days_in_month_le: "days_in_month y m \<le> days_in_month 2000 m" "days_in_month y m \<le> 31"
  by (simp_all add: days_in_month_def is_leap_def)

lemma month_of_mp_of_month: "1 \<le> m \<Longrightarrow> m \<le> 12 \<Longrightarrow>
    month_of_mp (mp_of_month m) = m \<and> 0 \<le> mp_of_month m \<and> mp_of_month m \<le> 11"
  by (simp add: mp_of_month_def month_of_mp_def)

text \<open>Every valid date is the calendar date of its day number.\<close>

lemma civil_from_days_days_from_civil:
  assumes v: "valid_date y m dd"
  shows "civil_from_days (days_from_civil y m dd) = (y, m, dd)"
proof -
  have m: "1 \<le> m" "m \<le> 12" and dd: "1 \<le> dd" "dd \<le> days_in_month y m"
    using v by (simp_all add: valid_date_def)
  define c where "c = (if m \<le> 2 then 1 else 0 :: int)"
  define era where "era = (y - c) div 400"
  define yoe where "yoe = y - c - era * 400"
  define mp where "mp = mp_of_month m"
  define doy where "doy = (153 * mp + 2) div 5 + dd - 1"
  have dfc: "days_from_civil y m dd + 719468 = era * 146097 + (year_start yoe + doy)"
    unfolding days_from_civil_def Let_def c_def era_def yoe_def mp_def doy_def by simp
  have "yoe = (y - c) mod 400" by (simp add: yoe_def era_def minus_div_mult_eq_mod [symmetric])
  then have yoe_b: "0 \<le> yoe" "yoe \<le> 399" by simp_all
  have mm: "month_of_mp mp = m" "0 \<le> mp" "mp \<le> 11"
    using month_of_mp_of_month [OF m] by (simp_all add: mp_def)
  have mpr: "(5 * doy + 2) div 153 = mp"
    unfolding doy_def using mm dd days_in_month_le(1) [of y m]
    by (intro month_of_day_of_year) simp_all
  have doy0: "0 \<le> doy" using mm dd by (simp add: doy_def)
  have "yoe \<in> set [0..399]" using yoe_b by simp
  then have ylen: "year_start (yoe + 1) + (yoe + 1) div 400 - year_start yoe =
      (if is_leap (yoe + 1) then 366 else 365)"
    using year_lengths by (simp add: list_all_iff)
  have doy_le: "doy \<le> (if is_leap (yoe + 1) then 365 else 364)"
  proof (cases "mp \<le> 10")
    case True
    have "(153 * mp + 2) div 5 \<le> (153 * 10 + 2) div 5" using True by (intro zdiv_mono1) simp_all
    then show ?thesis using days_in_month_le(2) [of y m] dd by (simp add: doy_def)
  next
    case False
    then have "mp = 11" using mm by simp
    then have m2: "m = 2" "c = 1" using mm by (simp_all add: month_of_mp_def c_def)
    have "yoe + 1 + era * 400 = y" by (simp add: yoe_def m2)
    then have "is_leap (yoe + 1) = is_leap y" using is_leap_era [of "yoe + 1" era] by simp
    then show ?thesis using dd \<open>mp = 11\<close> m2 by (simp add: doy_def days_in_month_def split: if_splits)
  qed
  have doe_le: "year_start yoe + doy \<le> year_start (yoe + 1) + (yoe + 1) div 400 - 1"
    using ylen doy_le by (simp split: if_splits)
  have doe_b: "0 \<le> year_start yoe + doy" "year_start yoe + doy \<le> 146096"
    using year_start_nonneg [OF yoe_b(1)] doy0 doe_le year_end_le [OF yoe_b] by simp_all
  have yr: "year_of_era (year_start yoe + doy) = yoe"
    using yoe_b doe_le doy0 by (intro year_of_era_within) simp_all
  have zdiv: "(days_from_civil y m dd + 719468) div 146097 = era"
    unfolding dfc using doe_b by simp
  have zsub: "days_from_civil y m dd + 719468 - era * 146097 = year_start yoe + doy"
    using dfc by simp
  have "civil_from_days (days_from_civil y m dd) =
      (yoe + era * 400 + (if month_of_mp mp \<le> 2 then 1 else 0), month_of_mp mp,
       doy - (153 * mp + 2) div 5 + 1)"
    by (simp only: civil_from_days_def Let_def zdiv zsub yr add_diff_cancel_left' mpr)
  also have "\<dots> = (y, m, dd)"
    using mm by (simp add: doy_def yoe_def c_def)
  finally show ?thesis .
qed


end
