(* ===== verification/Display.thy ===== *)
theory Display
  imports Views Dates
begin

text \<open>
  The text the components render about an item: the date formats of date-fns
  (\<open>MMM dd\<close>, \<open>MMM dd, yyyy\<close>, \<open>MMM yyyy\<close>) over the calendar of \<open>Dates\<close>, the duration
  text, the bar and tooltip content of \<open>TimelineItem\<close>, the content of
  \<open>TimelineItemDialog\<close> and of \<open>TimelineControls\<close>. Glyphs between the parts of a line
  (the arrow, the bullet, the emoji) are not modelled: a line is the tuple of its parts.
\<close>

definition month_abbrev :: "int \<Rightarrow> string" where
  "month_abbrev m =
     [''Jan'', ''Feb'', ''Mar'', ''Apr'', ''May'', ''Jun'',
      ''Jul'', ''Aug'', ''Sep'', ''Oct'', ''Nov'', ''Dec''] ! nat (m - 1)"

text \<open>\<open>dd\<close> pads the day to two digits, \<open>yyyy\<close> the year to four.\<close>

definition pad2 :: "int \<Rightarrow> string" where
  "pad2 n = (if n < 10 then ''0'' @ decimal (nat n) else decimal (nat n))"

definition year4 :: "int \<Rightarrow> string" where
  "year4 y = replicate (4 - length (decimal (nat y))) (CHR ''0'') @ decimal (nat y)"

definition format_MMM_dd :: "day \<Rightarrow> string" where
  "format_MMM_dd d =
     (case civil_from_days d of (y, m, dd) \<Rightarrow> month_abbrev m @ '' '' @ pad2 dd)"

definition format_MMM_dd_yyyy :: "day \<Rightarrow> string" where
  "format_MMM_dd_yyyy d =
     (case civil_from_days d of (y, m, dd) \<Rightarrow> month_abbrev m @ '' '' @ pad2 dd @ '', '' @ year4 y)"

definition format_MMM_yyyy :: "day \<Rightarrow> string" where
  "format_MMM_yyyy d = (case civil_from_days d of (y, m, dd) \<Rightarrow> month_abbrev m @ '' '' @ year4 y)"

text \<open>A JavaScript number in a template literal: the sign, then the digits.\<close>

definition int_decimal :: "int \<Rightarrow> string" where
  "int_decimal n = (if n < 0 then ''-'' @ decimal (nat (- n)) else decimal (nat n))"

definition duration_text :: "int \<Rightarrow> string" where
  "duration_text duration = int_decimal duration @ '' day'' @ (if duration \<noteq> 1 then ''s'' else '''')"

text \<open>\<open>{item.description && (...)}\<close>: the description is rendered only when it is a
  non-empty string (\<open>undefined\<close> and \<open>""\<close> are falsy).\<close>

definition shown_description :: "string option \<Rightarrow> string option" where
  "shown_description d = (case d of Some t \<Rightarrow> if t = [] then None else Some t | None \<Rightarrow> None)"

text \<open>The bar of \<open>TimelineItem\<close>: its name and short dates, its selection styling (the ring
  and the opacity), and its tooltip.\<close>

record tooltip_view =
  tip_name :: string
  tip_dates :: "string \<times> string"
  tip_duration :: "string \<times> string"
  tip_description :: "string option"

definition item_tooltip :: "item_with_lane \<Rightarrow> tooltip_view" where
  "item_tooltip it =
     (let duration = endDateItem it - startDateItem it + 1
      in \<lparr>tip_name = name it,
          tip_dates = (format_MMM_dd_yyyy (startDateItem it), format_MMM_dd_yyyy (endDateItem it)),
          tip_duration = (duration_text duration, bar_lane_label it),
          tip_description = shown_description (description it)\<rparr>)"

record bar_view =
  bar_name :: string
  bar_dates :: "string \<times> string"
  bar_ring :: bool
  bar_opacity :: real

definition item_bar_view :: "bool \<Rightarrow> item_with_lane \<Rightarrow> bar_view" where
  "item_bar_view isSelected it =
     \<lparr>bar_name = name it, bar_dates = (format_MMM_dd (startDateItem it), format_MMM_dd (endDateItem it)),
      bar_ring = isSelected, bar_opacity = (if isSelected then 1 else 0.9)\<rparr>"

text \<open>The dialog renders its content when \<open>items.find\<close> finds the selected item.\<close>

record dialog_content =
  dlg_title :: string
  dlg_start :: string
  dlg_end :: string
  dlg_duration :: string
  dlg_description :: "string option"

definition dialog_view :: "item list \<Rightarrow> item_id option \<Rightarrow> dialog_content option" where
  "dialog_view its selected =
     map_option (\<lambda>it. \<lparr>dlg_title = name it, dlg_start = format_MMM_dd_yyyy (start it),
                       dlg_end = format_MMM_dd_yyyy (end' it),
                       dlg_duration = duration_text (dialog_duration its selected),
                       dlg_description = shown_description (description it)\<rparr>)
       (dialog_item its selected)"

text \<open>The controls: the date range, the item count, the zoom percentage and the two
  \<open>disabled\<close> props.\<close>

record controls_view =
  ctl_range :: "string \<times> string"
  ctl_count :: string
  ctl_percent :: int
  ctl_zoom_out_disabled :: bool
  ctl_zoom_in_disabled :: bool

definition controls :: "timeline_data \<Rightarrow> item list \<Rightarrow> real \<Rightarrow> controls_view" where
  "controls td its zoom =
     \<lparr>ctl_range = (format_MMM_dd_yyyy (startDate td), format_MMM_dd_yyyy (endDate td)),
      ctl_count = controls_count_text its, ctl_percent = zoomPercent zoom,
      ctl_zoom_out_disabled = zoomOutDisabled zoom, ctl_zoom_in_disabled = zoomInDisabled zoom\<rparr>"

declare shown_description_def [model_defs] month_abbrev_def [model_defs] pad2_def [model_defs] year4_def [model_defs]
  int_decimal_def [model_defs] duration_text_def [model_defs] item_tooltip_def [model_defs]
  item_bar_view_def [model_defs] dialog_view_def [model_defs] controls_def [model_defs]

lemma annotated_item_of:
  assumes td: "timelineData its = Inr (Some td)" and x: "x \<in> set (itemsWithLanes td)"
  shows "\<exists>j it. it \<in> set its \<and> x = with_lane j it"
proof -
  have "x \<in> set (lanes_items 0 (lanes td))"
    using x timelineData_Some [OF td] by (simp add: items_with_lanes_def)
  from lanes_items_elem [OF this] obtain j it where
    it: "it \<in> set (concat (lanes td))" "x = with_lane j it" by blast
  have "assignLanes its = Inr (lanes td)" using timelineData_Some [OF td] by simp
  then have "set (concat (lanes td)) = set its" using assignLanes_complete by (metis set_mset_mset)
  then show ?thesis using it by blast
qed

text \<open>C39. The dialog and the tooltip of an item agree: with distinct ids, the dialog opened for
  the id of a bar shows the bar's tooltip name, start and end dates, duration text and
  description, although the dialog looks the item up in the input list and parses its
  dates again while the tooltip reads the annotated item.\<close>

theorem dialog_matches_tooltip:
  assumes td: "timelineData its = Inr (Some td)" and ids: "distinct (map item_id its)"
    and x: "x \<in> set (itemsWithLanes td)"
  shows "dialog_view its (Some (item_id x)) =
     Some \<lparr>dlg_title = tip_name (item_tooltip x), dlg_start = fst (tip_dates (item_tooltip x)),
           dlg_end = snd (tip_dates (item_tooltip x)), dlg_duration = fst (tip_duration (item_tooltip x)),
           dlg_description = tip_description (item_tooltip x)\<rparr>"
proof -
  obtain j it where it: "it \<in> set its" "x = with_lane j it"
    using annotated_item_of [OF td x] by blast
  have e: "item_id x = item_id it" using it(2) by simp
  have f: "dialog_item its (Some (item_id x)) = Some it"
    using find_distinct_key [OF ids it(1)] e by (simp add: dialog_item_def)
  then show ?thesis using it(2)
    by (simp add: dialog_view_def dialog_duration_def item_tooltip_def with_lane_def Let_def)
qed

theorem dialog_matches_tooltip_witness:
  "dialog_view [task_A, task_B, task_C] (Some (item_id (with_lane 1 task_B))) =
     Some \<lparr>dlg_title = ''B'', dlg_start = ''Jan 02, 2024'', dlg_end = ''Jan 04, 2024'',
           dlg_duration = ''3 days'', dlg_description = None\<rparr>"
proof -
  have h: "timelineData [task_A, task_B, task_C] =
     Inr (Some \<lparr>startDate = 19723, endDate = 19728, totalDays = 6,
                itemsWithLanes = [with_lane 0 task_A, with_lane 0 task_C, with_lane 1 task_B],
                lanes = [[task_A, task_C], [task_B]], maxLane = 1\<rparr>)"
    by (simp add: model_defs scenario_items)
  have d: "distinct (map item_id [task_A, task_B, task_C])" by (simp add: model_defs scenario_items)
  have t: "item_tooltip (with_lane 1 task_B) =
     \<lparr>tip_name = ''B'', tip_dates = (''Jan 02, 2024'', ''Jan 04, 2024''),
      tip_duration = (''3 days'', ''Lane 2''), tip_description = None\<rparr>" by code_simp
  have "dialog_view [task_A, task_B, task_C] (Some (item_id (with_lane 1 task_B))) =
     Some \<lparr>dlg_title = tip_name (item_tooltip (with_lane 1 task_B)),
           dlg_start = fst (tip_dates (item_tooltip (with_lane 1 task_B))),
           dlg_end = snd (tip_dates (item_tooltip (with_lane 1 task_B))),
           dlg_duration = fst (tip_duration (item_tooltip (with_lane 1 task_B))),
           dlg_description = tip_description (item_tooltip (with_lane 1 task_B))\<rparr>"
    using dialog_matches_tooltip [OF h d, of "with_lane 1 task_B"] by simp
  then show ?thesis unfolding t by simp
qed

end
