(* ===== verification/Zoom.thy ===== *)
theory Zoom
  imports Display
begin

text \<open>
  The zoom levels of the page. The handlers multiply or divide the level by 1.2 and clamp
  it to [0.3, 3], starting from 1. With the level an exact real, every reachable level is
  one of the 39 values of \<open>zoom_levels\<close>, in four families (powers of 1.2 from 1
  upwards and downwards, and from each clamp): the exact effect of a click on each family
  and the closure of the list under the handlers. What the controls show follows from
  where the values lie: every level other than the clamps is in [0.33, 2.99]. In IEEE
  doubles the products pick up rounding errors and the page reaches more distinct values
  (45, e.g. both 2.5 and 2.5000000000000004); they lie in the same interval, so what the
  controls show is the same, but the list is a property of the exact model only.
\<close>

text \<open>The zoom levels the handlers can produce from the initial 1: powers of 1.2 from 1, and
  from the clamps 0.3 and 3.\<close>

definition zoom_levels :: "real list" where
  "zoom_levels =
     map (\<lambda>k. 1.2 ^ k) [0..<7] @ map (\<lambda>k. 1 / 1.2 ^ k) [1..<7] @
     map (\<lambda>k. 0.3 * 1.2 ^ k) [0..<13] @ map (\<lambda>k. 3 / 1.2 ^ k) [0..<13]"

lemma zoom_levels_set:
  "x \<in> set zoom_levels \<longleftrightarrow>
     (\<exists>k<7. x = 1.2 ^ k) \<or> (\<exists>k. 1 \<le> k \<and> k < 7 \<and> x = 1 / 1.2 ^ k) \<or>
     (\<exists>k<13. x = 0.3 * 1.2 ^ k) \<or> (\<exists>k<13. x = 3 / 1.2 ^ k)"
  by (auto simp: zoom_levels_def)

lemma zoom_level_intros:
  "k < 7 \<Longrightarrow> 1.2 ^ k \<in> set zoom_levels"
  "1 \<le> k \<Longrightarrow> k < 7 \<Longrightarrow> 1 / 1.2 ^ k \<in> set zoom_levels"
  "k < 13 \<Longrightarrow> 0.3 * 1.2 ^ k \<in> set zoom_levels"
  "k < 13 \<Longrightarrow> 3 / 1.2 ^ k \<in> set zoom_levels"
  unfolding zoom_levels_set by blast+

lemma pow12_le: "k \<le> K \<Longrightarrow> (1.2::real) ^ k \<le> 1.2 ^ K"
  by (rule power_increasing) simp_all

lemma zoom_clamps:
  "x * 1.2 \<le> 3 \<Longrightarrow> handleZoomIn x = x * 1.2"
  "3 \<le> x * 1.2 \<Longrightarrow> handleZoomIn x = 3"
  "0.3 \<le> x / 1.2 \<Longrightarrow> handleZoomOut x = x / 1.2"
  "x / 1.2 \<le> 0.3 \<Longrightarrow> handleZoomOut x = 0.3"
  by (simp_all add: handleZoomIn_def handleZoomOut_def)

lemma pow12_facts:
  "(1.2::real) ^ 6 \<le> 3" "3 \<le> (1.2::real) ^ 7" "0.3 * (1.2::real) ^ 12 \<le> 3" "3 \<le> 0.3 * (1.2::real) ^ 13"
  "0.3 \<le> 3 / (1.2::real) ^ 12" "3 / (1.2::real) ^ 13 \<le> 0.3" "0.3 \<le> 1 / (1.2::real) ^ 6"
  "1 / (1.2::real) ^ 7 \<le> 0.3"
  by (simp_all add: power_divide)

lemma pow12_steps:
  "(1.2::real) ^ k * 1.2 = 1.2 ^ Suc k" "c * (1.2::real) ^ k * 1.2 = c * 1.2 ^ Suc k"
  "c / (1.2::real) ^ Suc k * 1.2 = c / 1.2 ^ k" "(1.2::real) ^ Suc k / 1.2 = 1.2 ^ k"
  "c / (1.2::real) ^ k / 1.2 = c / 1.2 ^ Suc k" "c * (1.2::real) ^ Suc k / 1.2 = c * 1.2 ^ k"
  by (simp_all add: field_simps)

lemma div_pow12_anti: "k \<le> K \<Longrightarrow> 0 \<le> c \<Longrightarrow> c / (1.2::real) ^ K \<le> c / 1.2 ^ k"
  by (intro divide_left_mono pow12_le) simp_all

lemma one_le_pow12: "1 \<le> (1.2::real) ^ k"
  by (rule one_le_power) simp

lemma zoom_level_cases:
  assumes "x \<in> set zoom_levels"
  obtains (A) k where "k < 7" "x = 1.2 ^ k" | (B) k where "1 \<le> k" "k < 7" "x = 1 / 1.2 ^ k"
    | (C) k where "k < 13" "x = 0.3 * 1.2 ^ k" | (D) k where "k < 13" "x = 3 / 1.2 ^ k"
  using assms unfolding zoom_levels_set by blast

lemma zoom_level_three: "(3::real) \<in> set zoom_levels" "(0.3::real) \<in> set zoom_levels"
  using zoom_level_intros(4) [of 0] zoom_level_intros(3) [of 0] by simp_all

lemma pow12_strict:
  "(1.2::real) ^ 6 < 3" "0.3 < 1 / (1.2::real) ^ 6" "0.3 * (1.2::real) ^ 12 < 3" "0.3 < 3 / (1.2::real) ^ 12"
  by (simp_all add: power_divide)

lemma pow12_mono_facts:
  "k \<le> 6 \<Longrightarrow> (1.2::real) ^ k < 3"
  "k \<le> 6 \<Longrightarrow> 0.3 < 1 / (1.2::real) ^ k"
  "k \<le> 12 \<Longrightarrow> 0.3 * (1.2::real) ^ k < 3"
  "k \<le> 12 \<Longrightarrow> 0.3 < 3 / (1.2::real) ^ k"
proof -
  assume k: "k \<le> 6"
  show "(1.2::real) ^ k < 3" using pow12_le [OF k] pow12_strict(1) by (rule le_less_trans)
  have "1 / (1.2::real) ^ 6 \<le> 1 / 1.2 ^ k" using k by (intro div_pow12_anti) simp_all
  with pow12_strict(2) show "0.3 < 1 / (1.2::real) ^ k" by (rule less_le_trans)
next
  assume k: "k \<le> 12"
  have "0.3 * (1.2::real) ^ k \<le> 0.3 * 1.2 ^ 12" using pow12_le [OF k] by simp
  then show "0.3 * (1.2::real) ^ k < 3" using pow12_strict(3) by (rule le_less_trans)
  have "3 / (1.2::real) ^ 12 \<le> 3 / 1.2 ^ k" using k by (intro div_pow12_anti) simp_all
  with pow12_strict(4) show "0.3 < 3 / (1.2::real) ^ k" by (rule less_le_trans)
qed

text \<open>The effect of one click on each family of levels.\<close>

lemma zoom_in_A: "k < 7 \<Longrightarrow> handleZoomIn (1.2 ^ k) = (if k < 6 then 1.2 ^ Suc k else 3)"
proof (cases "k < 6")
  case True
  then have "(1.2::real) ^ Suc k < 3" by (intro pow12_mono_facts(1)) simp
  then have "(1.2::real) ^ k * 1.2 \<le> 3" unfolding pow12_steps(1) by (rule less_imp_le)
  then have "handleZoomIn (1.2 ^ k) = 1.2 ^ Suc k" by (rule trans [OF zoom_clamps(1) pow12_steps(1)])
  with True show ?thesis by simp
next
  case False
  assume "k < 7"
  with False have k: "k = 6" by simp
  have "3 \<le> (1.2::real) ^ 6 * 1.2" by (simp add: power_divide)
  then have "handleZoomIn (1.2 ^ 6) = 3" by (rule zoom_clamps(2))
  with k show ?thesis by simp
qed

lemma zoom_in_B: "handleZoomIn (1 / 1.2 ^ Suc k) = 1 / 1.2 ^ k"
proof -
  have "1 / (1.2::real) ^ k \<le> 1" using div_pow12_anti [of 0 k 1] by simp
  then have "1 / (1.2::real) ^ k \<le> 3" by linarith
  then have "1 / (1.2::real) ^ Suc k * 1.2 \<le> 3" unfolding pow12_steps(3) .
  then show ?thesis by (rule trans [OF zoom_clamps(1) pow12_steps(3)])
qed

lemma zoom_in_C: "k < 13 \<Longrightarrow> handleZoomIn (0.3 * 1.2 ^ k) = (if k < 12 then 0.3 * 1.2 ^ Suc k else 3)"
proof (cases "k < 12")
  case True
  then have "0.3 * (1.2::real) ^ Suc k < 3" by (intro pow12_mono_facts(3)) simp
  then have "0.3 * (1.2::real) ^ k * 1.2 \<le> 3" unfolding pow12_steps(2) by (rule less_imp_le)
  then have "handleZoomIn (0.3 * 1.2 ^ k) = 0.3 * 1.2 ^ Suc k"
    by (rule trans [OF zoom_clamps(1) pow12_steps(2)])
  with True show ?thesis by simp
next
  case False
  assume "k < 13"
  with False have k: "k = 12" by simp
  have "3 \<le> 0.3 * (1.2::real) ^ 12 * 1.2" by (simp add: power_divide)
  then have "handleZoomIn (0.3 * 1.2 ^ 12) = 3" by (rule zoom_clamps(2))
  with k show ?thesis by simp
qed

lemma zoom_in_D: "handleZoomIn (3 / 1.2 ^ k) = (if k = 0 then 3 else 3 / 1.2 ^ (k - 1))"
proof (cases k)
  case 0
  have "3 \<le> 3 / (1.2::real) ^ 0 * 1.2" by simp
  then have "handleZoomIn (3 / 1.2 ^ 0) = 3" by (rule zoom_clamps(2))
  with 0 show ?thesis by simp
next
  case (Suc j)
  have "3 / (1.2::real) ^ j \<le> 3" using div_pow12_anti [of 0 j 3] by simp
  then have "3 / (1.2::real) ^ Suc j * 1.2 \<le> 3" unfolding pow12_steps(3) .
  then have "handleZoomIn (3 / 1.2 ^ Suc j) = 3 / 1.2 ^ j" by (rule trans [OF zoom_clamps(1) pow12_steps(3)])
  with Suc show ?thesis by simp
qed

lemma zoom_out_A: "handleZoomOut (1.2 ^ k) = (if k = 0 then 1 / 1.2 ^ 1 else 1.2 ^ (k - 1))"
proof (cases k)
  case 0
  have "0.3 \<le> (1.2::real) ^ 0 / 1.2" by simp
  then have "handleZoomOut (1.2 ^ 0) = 1.2 ^ 0 / 1.2" by (rule zoom_clamps(3))
  with 0 show ?thesis by simp
next
  case (Suc j)
  have "1 \<le> (1.2::real) ^ j" by (rule one_le_pow12)
  then have "0.3 \<le> (1.2::real) ^ j" by linarith
  then have "0.3 \<le> (1.2::real) ^ Suc j / 1.2" unfolding pow12_steps(4) .
  then have "handleZoomOut (1.2 ^ Suc j) = 1.2 ^ j" by (rule trans [OF zoom_clamps(3) pow12_steps(4)])
  with Suc show ?thesis by simp
qed

lemma zoom_out_B: "k < 7 \<Longrightarrow> handleZoomOut (1 / 1.2 ^ k) = (if k < 6 then 1 / 1.2 ^ Suc k else 0.3)"
proof (cases "k < 6")
  case True
  then have "0.3 < 1 / (1.2::real) ^ Suc k" by (intro pow12_mono_facts(2)) simp
  then have "0.3 \<le> 1 / (1.2::real) ^ k / 1.2" unfolding pow12_steps(5) by (rule less_imp_le)
  then have "handleZoomOut (1 / 1.2 ^ k) = 1 / 1.2 ^ Suc k" by (rule trans [OF zoom_clamps(3) pow12_steps(5)])
  with True show ?thesis by simp
next
  case False
  assume "k < 7"
  with False have k: "k = 6" by simp
  have "1 / (1.2::real) ^ 6 / 1.2 \<le> 0.3" by (simp add: power_divide)
  then have "handleZoomOut (1 / 1.2 ^ 6) = 0.3" by (rule zoom_clamps(4))
  with k show ?thesis by simp
qed

lemma zoom_out_C: "handleZoomOut (0.3 * 1.2 ^ k) = (if k = 0 then 0.3 else 0.3 * 1.2 ^ (k - 1))"
proof (cases k)
  case 0
  have "0.3 * (1.2::real) ^ 0 / 1.2 \<le> 0.3" by simp
  then have "handleZoomOut (0.3 * 1.2 ^ 0) = 0.3" by (rule zoom_clamps(4))
  with 0 show ?thesis by simp
next
  case (Suc j)
  have "0.3 \<le> 0.3 * (1.2::real) ^ j" using one_le_pow12 [of j] by simp
  then have "0.3 \<le> 0.3 * (1.2::real) ^ Suc j / 1.2" unfolding pow12_steps(6) .
  then have "handleZoomOut (0.3 * 1.2 ^ Suc j) = 0.3 * 1.2 ^ j"
    by (rule trans [OF zoom_clamps(3) pow12_steps(6)])
  with Suc show ?thesis by simp
qed

lemma zoom_out_D: "k < 13 \<Longrightarrow> handleZoomOut (3 / 1.2 ^ k) = (if k < 12 then 3 / 1.2 ^ Suc k else 0.3)"
proof (cases "k < 12")
  case True
  then have "0.3 < 3 / (1.2::real) ^ Suc k" by (intro pow12_mono_facts(4)) simp
  then have "0.3 \<le> 3 / (1.2::real) ^ k / 1.2" unfolding pow12_steps(5) by (rule less_imp_le)
  then have "handleZoomOut (3 / 1.2 ^ k) = 3 / 1.2 ^ Suc k" by (rule trans [OF zoom_clamps(3) pow12_steps(5)])
  with True show ?thesis by simp
next
  case False
  assume "k < 13"
  with False have k: "k = 12" by simp
  have "3 / (1.2::real) ^ 12 / 1.2 \<le> 0.3" by (simp add: power_divide)
  then have "handleZoomOut (3 / 1.2 ^ 12) = 0.3" by (rule zoom_clamps(4))
  with k show ?thesis by simp
qed

lemma if_member: "(P \<Longrightarrow> a \<in> S) \<Longrightarrow> (\<not> P \<Longrightarrow> b \<in> S) \<Longrightarrow> (if P then a else b) \<in> S"
  by simp

lemma zoom_level_inv_pow: "k < 7 \<Longrightarrow> 1 / 1.2 ^ k \<in> set zoom_levels"
  using zoom_level_intros(1) [of 0] zoom_level_intros(2) [of k] by (cases k) simp_all

lemma zoom_in_closed:
  assumes x: "x \<in> set zoom_levels"
  shows "handleZoomIn x \<in> set zoom_levels"
  using x
proof (cases rule: zoom_level_cases)
  case (A k)
  have "(if k < 6 then (1.2::real) ^ Suc k else 3) \<in> set zoom_levels"
    by (rule if_member, rule zoom_level_intros(1), simp, rule zoom_level_three(1))
  then show ?thesis unfolding A(2) zoom_in_A [OF A(1)] .
next
  case (B k)
  then obtain j where j: "k = Suc j" by (cases k) auto
  have "1 / (1.2::real) ^ j \<in> set zoom_levels" using B(2) j by (intro zoom_level_inv_pow) simp
  then show ?thesis unfolding B(3) j zoom_in_B .
next
  case (C k)
  have "(if k < 12 then 0.3 * (1.2::real) ^ Suc k else 3) \<in> set zoom_levels"
    by (rule if_member, rule zoom_level_intros(3), simp, rule zoom_level_three(1))
  then show ?thesis unfolding C(2) zoom_in_C [OF C(1)] .
next
  case (D k)
  have "(if k = 0 then 3 else 3 / (1.2::real) ^ (k - 1)) \<in> set zoom_levels"
    using D(1) by (intro if_member zoom_level_three(1) zoom_level_intros(4)) simp
  then show ?thesis unfolding D(2) zoom_in_D .
qed

lemma zoom_out_closed:
  assumes x: "x \<in> set zoom_levels"
  shows "handleZoomOut x \<in> set zoom_levels"
  using x
proof (cases rule: zoom_level_cases)
  case (A k)
  have "(if k = 0 then 1 / (1.2::real) ^ 1 else 1.2 ^ (k - 1)) \<in> set zoom_levels"
    using A(1) by (intro if_member zoom_level_inv_pow zoom_level_intros(1)) simp_all
  then show ?thesis unfolding A(2) zoom_out_A .
next
  case (B k)
  have "(if k < 6 then 1 / (1.2::real) ^ Suc k else 0.3) \<in> set zoom_levels"
    by (rule if_member, rule zoom_level_inv_pow, simp, rule zoom_level_three(2))
  then show ?thesis unfolding B(3) zoom_out_B [OF B(2)] .
next
  case (C k)
  have "(if k = 0 then 0.3 else 0.3 * (1.2::real) ^ (k - 1)) \<in> set zoom_levels"
    using C(1) by (intro if_member zoom_level_three(2) zoom_level_intros(3)) simp
  then show ?thesis unfolding C(2) zoom_out_C .
next
  case (D k)
  have "(if k < 12 then 3 / (1.2::real) ^ Suc k else 0.3) \<in> set zoom_levels"
    by (rule if_member, rule zoom_level_intros(4), simp, rule zoom_level_three(2))
  then show ?thesis unfolding D(2) zoom_out_D [OF D(1)] .
qed

lemma ui_reachable_zoom_level: "ui_reachable its s \<Longrightarrow> zoomLevel s \<in> set zoom_levels"
proof (induction rule: ui_reachable.induct)
  case init
  show ?case using zoom_level_intros(1) [of 0] by (simp add: init_ui_def)
next
  case (step s e)
  then show ?case by (cases e) (simp_all add: zoom_in_closed zoom_out_closed)
qed

lemma pow12_gap_facts:
  "(1.2::real) ^ 6 \<le> 2.99" "0.33 \<le> 1 / (1.2::real) ^ 6" "0.3 * (1.2::real) ^ 12 \<le> 2.99"
  "0.33 \<le> 3 / (1.2::real) ^ 12"
  by (simp_all add: power_divide)

lemma zoom_level_gaps:
  assumes z: "z \<in> set zoom_levels"
  shows "z = 0.3 \<or> z = 3 \<or> (0.33 \<le> z \<and> z \<le> 2.99)"
  using z
proof (cases rule: zoom_level_cases)
  case (A k)
  have "1 \<le> z" "z \<le> 1.2 ^ 6" using A one_le_pow12 [of k] pow12_le [of k 6] by simp_all
  then show ?thesis using pow12_gap_facts(1) by simp
next
  case (B k)
  have "1 / 1.2 ^ 6 \<le> z" using B div_pow12_anti [of k 6 1] by simp
  moreover have "z \<le> 1" using B one_le_pow12 [of k] by simp
  ultimately show ?thesis using pow12_gap_facts(2) by simp
next
  case (C k)
  show ?thesis
  proof (cases k)
    case 0
    then show ?thesis using C by simp
  next
    case (Suc j)
    have "0.3 * 1.2 ^ 1 \<le> z" "z \<le> 0.3 * 1.2 ^ 12"
      using C Suc pow12_le [of 1 k] pow12_le [of k 12] by simp_all
    then show ?thesis using pow12_gap_facts(3) by simp
  qed
next
  case (D k)
  show ?thesis
  proof (cases k)
    case 0
    then show ?thesis using D by simp
  next
    case (Suc j)
    have "3 / 1.2 ^ 12 \<le> z" "z \<le> 3 / 1.2 ^ 1"
      using D Suc div_pow12_anti [of k 12 3] div_pow12_anti [of 1 k 3] by simp_all
    then show ?thesis using pow12_gap_facts(4) by simp
  qed
qed

text \<open>C29. In every reachable state the controls show a zoom percentage between 30 and 300,
  and a zoom button is disabled exactly when the percentage shows its bound: no state
  shows 30\% with zoom-out enabled or 300\% with zoom-in enabled, because the reachable
  zoom levels other than the clamps lie in [0.33, 2.99].\<close>

theorem controls_zoom_consistent:
  assumes r: "ui_reachable its s"
  shows "30 \<le> ctl_percent (controls td its (zoomLevel s)) \<and> ctl_percent (controls td its (zoomLevel s)) \<le> 300 \<and>
    (ctl_zoom_out_disabled (controls td its (zoomLevel s)) \<longleftrightarrow> ctl_percent (controls td its (zoomLevel s)) = 30) \<and>
    (ctl_zoom_in_disabled (controls td its (zoomLevel s)) \<longleftrightarrow> ctl_percent (controls td its (zoomLevel s)) = 300)"
proof -
  have g: "zoomLevel s = 0.3 \<or> zoomLevel s = 3 \<or> (0.33 \<le> zoomLevel s \<and> zoomLevel s \<le> 2.99)"
    using zoom_level_gaps [OF ui_reachable_zoom_level [OF r]] .
  then consider "zoomLevel s = 0.3" | "zoomLevel s = 3" | "0.33 \<le> zoomLevel s" "zoomLevel s \<le> 2.99"
    by blast
  then show ?thesis
  proof cases
    case 1
    then have h: "zoomLevel s * 100 = 30" by simp
    have "zoomPercent (zoomLevel s) = round (30::real)" unfolding zoomPercent_def by (simp only: h)
    then have "zoomPercent (zoomLevel s) = 30" by simp
    moreover have "zoomOutDisabled (zoomLevel s)" "\<not> zoomInDisabled (zoomLevel s)"
      using 1 by (simp_all add: zoomOutDisabled_def zoomInDisabled_def)
    ultimately show ?thesis by (simp add: controls_def)
  next
    case 2
    then show ?thesis by (simp add: controls_def zoomPercent_def zoomOutDisabled_def zoomInDisabled_def)
  next
    case 3
    then have lo: "33 \<le> zoomLevel s * 100" and hi: "zoomLevel s * 100 \<le> 299" by simp_all
    have "round (33::real) \<le> round (zoomLevel s * 100)" using lo by (rule round_mono)
    moreover have "round (zoomLevel s * 100) \<le> round (299::real)" using hi by (rule round_mono)
    ultimately have "33 \<le> zoomPercent (zoomLevel s)" "zoomPercent (zoomLevel s) \<le> 299"
      by (simp_all add: zoomPercent_def)
    then show ?thesis using 3 by (simp add: controls_def zoomOutDisabled_def zoomInDisabled_def)
  qed
qed

theorem controls_zoom_consistent_witness:
  "\<not> ctl_zoom_out_disabled (controls
     \<lparr>startDate = 19723, endDate = 19723, totalDays = 1, itemsWithLanes = [with_lane 0 task_A],
      lanes = [[task_A]], maxLane = 0\<rparr> [task_A] (zoomLevel (ui_step init_ui ZoomIn)))"
proof -
  have r: "ui_reachable [task_A] (ui_step init_ui ZoomIn)"
    by (rule ui_reachable.step [OF ui_reachable.init]) (simp add: model_defs scenario_items)
  have p: "zoomPercent (zoomLevel (ui_step init_ui ZoomIn)) = 120"
    by (simp add: init_ui_def handleZoomIn_def zoomPercent_def)
  show ?thesis using controls_zoom_consistent [OF r, where td = "\<lparr>startDate = 19723, endDate = 19723,
      totalDays = 1, itemsWithLanes = [with_lane 0 task_A], lanes = [[task_A]], maxLane = 0\<rparr>"] p
    by (simp add: controls_def)
qed

lemma round_lt_of_gap:
  assumes "(x::real) + 1 \<le> y"
  shows "round x < round y"
proof -
  have "round (x + 1) \<le> round y" using assms by (rule round_mono)
  moreover have "round (x + 1) = round x + 1"
    unfolding round_def using floor_add_int [of "x + 1 / 2" 1] by (simp add: add_ac)
  ultimately show ?thesis by simp
qed

text \<open>C18. No zoom click is a visible no-op: in every reachable state an enabled zoom-in
  button raises the percentage the controls show, and an enabled zoom-out button lowers it,
  since every level other than the clamps is at least 0.33 and at most 2.99.\<close>

theorem zoom_click_changes_percent:
  assumes r: "ui_reachable its s"
  shows "(\<not> zoomInDisabled (zoomLevel s) \<longrightarrow> zoomPercent (zoomLevel s) < zoomPercent (zoomLevel (ui_step s ZoomIn))) \<and>
         (\<not> zoomOutDisabled (zoomLevel s) \<longrightarrow> zoomPercent (zoomLevel (ui_step s ZoomOut)) < zoomPercent (zoomLevel s))"
proof -
  let ?z = "zoomLevel s"
  have g: "?z = 0.3 \<or> ?z = 3 \<or> (0.33 \<le> ?z \<and> ?z \<le> 2.99)"
    using zoom_level_gaps [OF ui_reachable_zoom_level [OF r]] .
  have "?z * 100 + 1 \<le> min (?z * 1.2) 3 * 100" if "\<not> zoomInDisabled ?z"
    using g that by (auto simp: zoomInDisabled_def min_def)
  then have i: "\<not> zoomInDisabled ?z \<longrightarrow> zoomPercent ?z < zoomPercent (zoomLevel (ui_step s ZoomIn))"
    by (simp add: zoomPercent_def handleZoomIn_def round_lt_of_gap)
  have "max (?z / 1.2) 0.3 * 100 + 1 \<le> ?z * 100" if "\<not> zoomOutDisabled ?z"
    using g that by (auto simp: zoomOutDisabled_def max_def)
  then have o: "\<not> zoomOutDisabled ?z \<longrightarrow> zoomPercent (zoomLevel (ui_step s ZoomOut)) < zoomPercent ?z"
    by (simp add: zoomPercent_def handleZoomOut_def round_lt_of_gap)
  show ?thesis using i o by blast
qed

theorem zoom_click_changes_percent_witness:
  "zoomPercent (zoomLevel (ui_step init_ui ZoomIn)) < zoomPercent (zoomLevel (ui_step (ui_step init_ui ZoomIn) ZoomIn))"
proof -
  have r: "ui_reachable [task_A] (ui_step init_ui ZoomIn)"
    by (rule ui_reachable.step [OF ui_reachable.init]) (simp add: model_defs scenario_items)
  have d: "\<not> zoomInDisabled (zoomLevel (ui_step init_ui ZoomIn))" by (simp add: model_defs)
  show ?thesis using zoom_click_changes_percent [OF r] d by blast
qed

end
