(* ===== verification/Interaction.thy ===== *)
theory Interaction
  imports Zoom
begin

text \<open>
  How the page and its state machine meet. \<open>page_events\<close> is the specification of the
  events a state offers, by panel: the two panel buttons, the zoom buttons unless disabled
  and a click per bar with the timeline panel, a click per lane entry with the lane panel,
  and the close of the dialog while it is open; nothing when there is no data or
  \<open>assignLanes\<close> throws. The guard \<open>event_enabled\<close> agrees with it in every reachable
  state, and theory \<open>Page\<close> shows that the composed components wire exactly these events.
  \<open>ui_steps\<close> is the reflexive-transitive closure of the guarded steps, for what stays
  reachable after any sequence of clicks.
\<close>

definition page_events :: "item list \<Rightarrow> ui_state \<Rightarrow> ui_event list" where
  "page_events its s =
     (case timelineData its of
        Inr (Some td) \<Rightarrow>
          [ShowTimeline, ShowLaneInfoPanel] @
          (if optionShow s = ''timeline'' then
             (if zoomOutDisabled (zoomLevel s) then [] else [ZoomOut]) @
             (if zoomInDisabled (zoomLevel s) then [] else [ZoomIn]) @
             map (\<lambda>it. ItemClick (item_id it)) (itemsWithLanes td)
           else []) @
          (if optionShow s = ''laneInfoPanel'' then map (\<lambda>it. ItemClick (item_id it)) (concat (lanes td))
           else []) @
          (if modalOpen s then [ModalClose] else [])
      | _ \<Rightarrow> [])"

inductive ui_steps :: "item list \<Rightarrow> ui_state \<Rightarrow> ui_state \<Rightarrow> bool" for its where
  refl: "ui_steps its s s"
| step: "event_enabled its s e \<Longrightarrow> ui_steps its (ui_step s e) s' \<Longrightarrow> ui_steps its s s'"

definition clamp_levels :: "real list" where
  "clamp_levels = map (\<lambda>k. 0.3 * 1.2 ^ k) [0..<13] @ map (\<lambda>k. 3 / 1.2 ^ k) [0..<13]"

declare page_events_def [model_defs]

lemma annotated_ids:
  assumes "timelineData its = Inr (Some td)"
  shows "mset (map item_id (itemsWithLanes td)) = mset (map item_id its)"
proof -
  have a: "assignLanes its = Inr (lanes td)" and w: "itemsWithLanes td = lanes_items 0 (lanes td)"
    using timelineData_Some [OF assms] by (auto simp: items_with_lanes_def)
  have "map item_id (itemsWithLanes td) = map item_id (map item.truncate (itemsWithLanes td))"
    by (simp add: item.defs)
  also have "\<dots> = map item_id (concat (lanes td))" using w by (simp add: map_truncate_lanes_items)
  finally show ?thesis
    using assignLanes_complete [OF a] by (metis mset_map)
qed

lemma rendered_ids:
  assumes "timelineData its = Inr (Some td)"
  shows "item_id ` set (itemsWithLanes td) = item_id ` set its"
    "item_id ` set (concat (lanes td)) = item_id ` set its"
proof -
  show "item_id ` set (itemsWithLanes td) = item_id ` set its"
    using annotated_ids [OF assms] by (metis set_map set_mset_mset)
  have "assignLanes its = Inr (lanes td)" using timelineData_Some [OF assms] by simp
  then have "set (concat (lanes td)) = set its" using assignLanes_complete by (metis set_mset_mset)
  then show "item_id ` set (concat (lanes td)) = item_id ` set its" by simp
qed

text \<open>The guard of the page model against the list of events by panel: in every reachable
  state an event is enabled exactly when it is in \<open>page_events\<close>. Item clicks come from
  the bars with the timeline panel and from the lane entries with the lane panel, which both
  list every item.\<close>

lemma page_events_refine:
  assumes r: "ui_reachable its s"
  shows "event_enabled its s e \<longleftrightarrow> e \<in> set (page_events its s)"
proof (cases "timelineData its")
  case (Inl err)
  then show ?thesis by (cases e) (simp_all add: page_events_def renders_data_def)
next
  case (Inr d)
  show ?thesis
  proof (cases d)
    case None
    then show ?thesis using Inr by (cases e) (simp_all add: page_events_def renders_data_def)
  next
    case (Some td)
    have data: "renders_data its" using Inr Some by (simp add: renders_data_def)
    have opt: "optionShow s = ''timeline'' \<or> optionShow s = ''laneInfoPanel''"
      using ui_reachable_inv [OF r] by (simp add: ui_inv_def)
    have ids: "(\<exists>x\<in>set its. item_id x = i) \<longleftrightarrow> i \<in> item_id ` set its" for i by auto
    show ?thesis
    proof (cases e)
      case (ItemClick i)
      have mem: "ItemClick i \<in> set (map (\<lambda>it. ItemClick (item_id it)) xs) \<longleftrightarrow> i \<in> item_id ` set xs"
        for xs :: "'a item_scheme list" by auto
      have td: "timelineData its = Inr (Some td)" using Inr Some by simp
      have "ItemClick i \<in> set (page_events its s) \<longleftrightarrow> i \<in> item_id ` set its"
        using opt
      proof
        assume "optionShow s = ''timeline''"
        then show ?thesis using td rendered_ids(1) [OF td]
          by (simp add: page_events_def mem del: set_map set_concat)
      next
        assume "optionShow s = ''laneInfoPanel''"
        then show ?thesis using td rendered_ids(2) [OF td]
          by (simp add: page_events_def mem del: set_map set_concat)
      qed
      then show ?thesis using ItemClick data ids by (simp add: list_ex_iff)
    qed (use Inr Some data opt in \<open>auto simp: page_events_def\<close>)
  qed
qed

subsection \<open>Sequences of clicks\<close>

lemma ui_steps_reachable: "ui_steps its s s' \<Longrightarrow> ui_reachable its s \<Longrightarrow> ui_reachable its s'"
  by (induction rule: ui_steps.induct) (auto intro: ui_reachable.step)

lemma ui_steps_trans: "ui_steps its s t \<Longrightarrow> ui_steps its t u \<Longrightarrow> ui_steps its s u"
  by (induction rule: ui_steps.induct) (auto intro: ui_steps.step)

lemma zoom_out_to_min:
  assumes d: "renders_data its"
  shows "optionShow s = ''timeline'' \<Longrightarrow> 0.3 \<le> zoomLevel s \<Longrightarrow> zoomLevel s \<le> 0.3 * 1.2 ^ n \<Longrightarrow>
    \<exists>s'. ui_steps its s s' \<and> zoomLevel s' = 0.3"
proof (induction n arbitrary: s)
  case 0
  then have "zoomLevel s = 0.3" by simp
  then show ?case by (blast intro: ui_steps.refl)
next
  case (Suc n)
  show ?case
  proof (cases "zoomLevel s = 0.3")
    case True
    then show ?thesis by (blast intro: ui_steps.refl)
  next
    case False
    then have gt: "0.3 < zoomLevel s" using Suc.prems(2) by simp
    have en: "event_enabled its s ZoomOut" using d Suc.prems(1) gt by (simp add: zoomOutDisabled_def)
    let ?s1 = "ui_step s ZoomOut"
    have "zoomLevel s / 1.2 \<le> 0.3 * 1.2 ^ Suc n / 1.2" using Suc.prems(3) by (simp add: divide_right_mono)
    then have "zoomLevel s / 1.2 \<le> 0.3 * 1.2 ^ n" unfolding pow12_steps(6) .
    moreover have "0.3 \<le> 0.3 * (1.2::real) ^ n" using one_le_pow12 [of n] by simp
    ultimately have "handleZoomOut (zoomLevel s) \<le> 0.3 * 1.2 ^ n"
      unfolding handleZoomOut_def by (rule max.boundedI)
    then have "zoomLevel ?s1 \<le> 0.3 * 1.2 ^ n" by simp
    moreover have "0.3 \<le> zoomLevel ?s1" by (simp add: handleZoomOut_def)
    moreover have "optionShow ?s1 = ''timeline''" using Suc.prems(1) by simp
    ultimately obtain s' where "ui_steps its ?s1 s'" "zoomLevel s' = 0.3" using Suc.IH by blast
    then show ?thesis using en by (blast intro: ui_steps.step)
  qed
qed

lemma zoom_in_to_max:
  assumes d: "renders_data its"
  shows "optionShow s = ''timeline'' \<Longrightarrow> zoomLevel s \<le> 3 \<Longrightarrow> 3 / 1.2 ^ n \<le> zoomLevel s \<Longrightarrow>
    \<exists>s'. ui_steps its s s' \<and> zoomLevel s' = 3"
proof (induction n arbitrary: s)
  case 0
  then have "zoomLevel s = 3" by simp
  then show ?case by (blast intro: ui_steps.refl)
next
  case (Suc n)
  show ?case
  proof (cases "zoomLevel s = 3")
    case True
    then show ?thesis by (blast intro: ui_steps.refl)
  next
    case False
    then have lt: "zoomLevel s < 3" using Suc.prems(2) by simp
    have en: "event_enabled its s ZoomIn" using d Suc.prems(1) lt by (simp add: zoomInDisabled_def)
    let ?s1 = "ui_step s ZoomIn"
    have "3 / 1.2 ^ Suc n * 1.2 \<le> zoomLevel s * 1.2" using Suc.prems(3) by (simp add: mult_right_mono)
    then have "3 / 1.2 ^ n \<le> zoomLevel s * 1.2" unfolding pow12_steps(3) .
    moreover have "3 / (1.2::real) ^ n \<le> 3" using div_pow12_anti [of 0 n 3] by simp
    ultimately have "3 / 1.2 ^ n \<le> zoomLevel ?s1" by (simp add: handleZoomIn_def)
    moreover have "zoomLevel ?s1 \<le> 3" by (simp add: handleZoomIn_def)
    moreover have "optionShow ?s1 = ''timeline''" using Suc.prems(1) by simp
    ultimately obtain s' where "ui_steps its ?s1 s'" "zoomLevel s' = 3" using Suc.IH by blast
    then show ?thesis using en by (blast intro: ui_steps.step)
  qed
qed

text \<open>C22. Whatever was clicked before, both ends of the zoom range stay reachable: from every
  reachable state of a page with data, some sequence of enabled clicks (the timeline
  button, then at most 13 zoom clicks) reaches zoom 0.3, and another reaches zoom 3.\<close>

theorem zoom_bounds_stay_reachable:
  assumes r: "ui_reachable its s" and d: "renders_data its"
  shows "(\<exists>s'. ui_steps its s s' \<and> zoomLevel s' = 0.3) \<and> (\<exists>s'. ui_steps its s s' \<and> zoomLevel s' = 3)"
proof -
  let ?s0 = "ui_step s ShowTimeline"
  have en: "event_enabled its s ShowTimeline" using d by simp
  have z: "0.3 \<le> zoomLevel ?s0" "zoomLevel ?s0 \<le> 3" "optionShow ?s0 = ''timeline''"
    using ui_reachable_inv [OF r] by (simp_all add: ui_inv_def)
  have "zoomLevel ?s0 \<le> 0.3 * 1.2 ^ 13" using z(2) pow12_facts(4) by linarith
  then obtain s1 where "ui_steps its ?s0 s1" "zoomLevel s1 = 0.3"
    using zoom_out_to_min [OF d z(3) z(1)] by blast
  moreover have "3 / 1.2 ^ 13 \<le> zoomLevel ?s0" using z(1) pow12_facts(6) by linarith
  then obtain s2 where "ui_steps its ?s0 s2" "zoomLevel s2 = 3"
    using zoom_in_to_max [OF d z(3) z(2)] by blast
  ultimately show ?thesis using en by (blast intro: ui_steps.step)
qed

theorem zoom_bounds_stay_reachable_witness:
  "(\<exists>s'. ui_steps [task_A] init_ui s' \<and> zoomLevel s' = 0.3) \<and>
   (\<exists>s'. ui_steps [task_A] init_ui s' \<and> zoomLevel s' = 3)"
proof -
  have "renders_data [task_A]" by (simp add: model_defs scenario_items)
  then show ?thesis by (rule zoom_bounds_stay_reachable [OF ui_reachable.init])
qed

subsection \<open>The levels after a clamp\<close>

lemma clamp_levels_set:
  "x \<in> set clamp_levels \<longleftrightarrow> (\<exists>k<13. x = 0.3 * 1.2 ^ k) \<or> (\<exists>k<13. x = 3 / 1.2 ^ k)"
  by (auto simp: clamp_levels_def)

lemma clamp_level_intros:
  "k < 13 \<Longrightarrow> 0.3 * 1.2 ^ k \<in> set clamp_levels" "k < 13 \<Longrightarrow> 3 / 1.2 ^ k \<in> set clamp_levels"
  "(0.3::real) \<in> set clamp_levels" "(3::real) \<in> set clamp_levels"
  unfolding clamp_levels_set by (auto intro: exI [of _ 0])

lemma clamp_levels_closed:
  assumes x: "x \<in> set clamp_levels"
  shows "handleZoomIn x \<in> set clamp_levels \<and> handleZoomOut x \<in> set clamp_levels"
proof -
  consider (C) k where "k < 13" "x = 0.3 * 1.2 ^ k" | (D) k where "k < 13" "x = 3 / 1.2 ^ k"
    using x unfolding clamp_levels_set by blast
  then show ?thesis
  proof cases
    case (C k)
    have "(if k < 12 then 0.3 * (1.2::real) ^ Suc k else 3) \<in> set clamp_levels"
      by (rule if_member, rule clamp_level_intros(1), simp, rule clamp_level_intros(4))
    moreover have "(if k = 0 then 0.3 else 0.3 * (1.2::real) ^ (k - 1)) \<in> set clamp_levels"
      using C(1) by (intro if_member clamp_level_intros(3) clamp_level_intros(1)) simp
    ultimately show ?thesis unfolding C(2) zoom_in_C [OF C(1)] zoom_out_C by blast
  next
    case (D k)
    have "(if k = 0 then 3 else 3 / (1.2::real) ^ (k - 1)) \<in> set clamp_levels"
      using D(1) by (intro if_member clamp_level_intros(4) clamp_level_intros(2)) simp
    moreover have "(if k < 12 then 3 / (1.2::real) ^ Suc k else 0.3) \<in> set clamp_levels"
      by (rule if_member, rule clamp_level_intros(2), simp, rule clamp_level_intros(3))
    ultimately show ?thesis unfolding D(2) zoom_in_D zoom_out_D [OF D(1)] by blast
  qed
qed

lemma six_pow_mod5: "(6::nat) ^ k mod 5 = 1"
  by (induction k) (simp_all add: mod_mult_right_eq [symmetric])

lemma one_not_clamp_level: "(1::real) \<notin> set clamp_levels"
proof
  assume "(1::real) \<in> set clamp_levels"
  then consider k where "0.3 * (1.2::real) ^ k = 1" | k where "3 / (1.2::real) ^ k = 1"
    unfolding clamp_levels_set by metis
  then show False
  proof cases
    case 1
    then have "3 * 6 ^ k = (10 * 5 ^ k :: real)" by (simp add: power_divide field_simps)
    then have "real (3 * 6 ^ k) = real (10 * 5 ^ k)" by simp
    then have e: "3 * 6 ^ k = (10 * 5 ^ k :: nat)" by (simp only: of_nat_eq_iff)
    have "(3 * 6 ^ k) mod 5 = (3::nat)" by (simp add: mod_mult_right_eq [symmetric] six_pow_mod5)
    then show False using e by simp
  next
    case 2
    then have "3 * 5 ^ k = (6 ^ k :: real)" by (simp add: power_divide field_simps)
    then have "real (3 * 5 ^ k) = real (6 ^ k)" by simp
    then have e: "3 * 5 ^ k = (6 ^ k :: nat)" by (simp only: of_nat_eq_iff)
    show False
    proof (cases k)
      case 0
      then show False using e by simp
    next
      case (Suc j)
      then have "(3 * 5 ^ k) mod 5 = (0::nat)" by simp
      then show False using e six_pow_mod5 [of k] by simp
    qed
  qed
qed

lemma ui_steps_clamp_levels:
  "ui_steps its s s' \<Longrightarrow> zoomLevel s \<in> set clamp_levels \<Longrightarrow> zoomLevel s' \<in> set clamp_levels"
proof (induction rule: ui_steps.induct)
  case (refl s)
  then show ?case .
next
  case (step s e s')
  have "zoomLevel (ui_step s e) \<in> set clamp_levels"
    using step.prems clamp_levels_closed [OF step.prems] by (cases e) simp_all
  then show ?case by (rule step.IH)
qed

text \<open>C12. Zoom in and zoom out stop being inverse once a clamp is hit: after the zoom level
  reaches 0.3 or 3, no sequence of clicks brings back the initial level 1. The levels are
  then 0.3 * 1.2^k or 3 / 1.2^k, none of which is 1; the nearest, 3 / 1.2^6 (about
  1.0047), is shown as 100 percent by Math.round.\<close>

theorem clamp_loses_initial_zoom:
  assumes "ui_steps its s s'" and "zoomLevel s = 0.3 \<or> zoomLevel s = 3"
  shows "zoomLevel s' \<noteq> 1"
proof -
  have "zoomLevel s \<in> set clamp_levels"
    using assms(2) by (elim disjE) (simp_all only: clamp_level_intros(3,4))
  then have "zoomLevel s' \<in> set clamp_levels" by (rule ui_steps_clamp_levels [OF assms(1)])
  then show ?thesis using one_not_clamp_level by auto
qed

theorem clamp_loses_initial_zoom_witness:
  "zoomLevel (ui_step \<lparr>zoomLevel = 3, selectedItem = None, optionShow = ''timeline''\<rparr> ZoomOut) \<noteq> 1"
proof -
  have "event_enabled [task_A] \<lparr>zoomLevel = 3, selectedItem = None, optionShow = ''timeline''\<rparr> ZoomOut"
    by (simp add: model_defs scenario_items)
  then have "ui_steps [task_A] \<lparr>zoomLevel = 3, selectedItem = None, optionShow = ''timeline''\<rparr>
      (ui_step \<lparr>zoomLevel = 3, selectedItem = None, optionShow = ''timeline''\<rparr> ZoomOut)"
    by (rule ui_steps.step [OF _ ui_steps.refl])
  then show ?thesis by (rule clamp_loses_initial_zoom) simp
qed

end
