(* ===== verification/Ruler.thy ===== *)
theory Ruler
  imports Layout Dates
begin

text \<open>
  The ruler and the grid of \<open>TimelineVisual\<close> (\<open>timeline-visual.jsx\<close> lines 30--131):
  a month label every 30 days from the start date, one cell per day with a label whose
  visibility and format depend on the zoom level and on whether the day is a Monday
  (\<open>getDay() === 1\<close>) or the first of a month (\<open>getDate() === 1\<close>), and one grid line
  per day whose weight has the same classification. Days are numbers from 1970-01-01, a
  Thursday; the day of the month is that of \<open>civil_from_days\<close> (theory \<open>Dates\<close>).
\<close>

definition getDay :: "day \<Rightarrow> int" where
  "getDay d = (d + 4) mod 7"

definition getDate :: "day \<Rightarrow> int" where
  "getDate d = snd (snd (civil_from_days d))"

definition isWeekStart :: "day \<Rightarrow> bool" where
  "isWeekStart d \<longleftrightarrow> getDay d = 1"

definition isMonthStart :: "day \<Rightarrow> bool" where
  "isMonthStart d \<longleftrightarrow> getDate d = 1"

text \<open>The label of a day cell: \<open>MMM dd\<close> on a month start and \<open>dd\<close> otherwise from zoom
  0.6 up; below, \<open>MMM\<close> on a month start, \<open>dd\<close> on a Monday from zoom 0.4, nothing else.\<close>

datatype day_label = MonthDay | DayOfMonth | MonthName

definition ruler_label :: "real \<Rightarrow> day \<Rightarrow> day_label option" where
  "ruler_label zoomLevel' d =
     (if zoomLevel' \<ge> 0.6 then Some (if isMonthStart d then MonthDay else DayOfMonth)
      else if isMonthStart d \<or> (isWeekStart d \<and> zoomLevel' \<ge> 0.4)
      then Some (if isMonthStart d then MonthName else DayOfMonth)
      else None)"

text \<open>The emphasis of a day cell (its class names) and the weight of its grid line.\<close>

datatype day_emphasis = MonthEmphasis | WeekEmphasis | Muted

definition day_emphasis :: "day \<Rightarrow> day_emphasis" where
  "day_emphasis d =
     (if isMonthStart d then MonthEmphasis else if isWeekStart d then WeekEmphasis else Muted)"

datatype grid_weight = MonthLine | WeekLine | DayLine

definition grid_line :: "real \<Rightarrow> day \<Rightarrow> grid_weight option" where
  "grid_line zoomLevel' d =
     (if isMonthStart d then Some MonthLine
      else if isWeekStart d then Some WeekLine
      else if zoomLevel' \<ge> 0.75 then Some DayLine
      else None)"

text \<open>A day cell in pixels: \<open>left\<close> is \<open>dayPosition\<close> percent of the base width, the width is
  \<open>30 * zoomLevel / baseWidth\<close> percent of it, at least \<open>minWidth: 24px\<close>.\<close>

definition day_cell :: "real \<Rightarrow> real \<Rightarrow> int \<Rightarrow> real \<times> real" where
  "day_cell zoomLevel' bw dayIndex =
     (dayPosition zoomLevel' bw dayIndex / 100 * bw,
      max ((30 * zoomLevel' / bw) * 100 / 100 * bw) 24)"

text \<open>The cells of the ruler and the lines of the grid, one per day of the range, and the
  month labels, one per 30 days, each with the day it is labelled with.
  \<open>Array.from({ length: n }, (_, i) => f(i))\<close> is \<open>map f [0..n - 1]\<close> for the integer
  lengths passed here.\<close>

definition ruler_days :: "real \<Rightarrow> real \<Rightarrow> day \<Rightarrow> int \<Rightarrow> (real \<times> day_label option \<times> day_emphasis) list" where
  "ruler_days zoomLevel' bw t n =
     map (\<lambda>i. (dayPosition zoomLevel' bw i, ruler_label zoomLevel' (t + i), day_emphasis (t + i)))
       [0..n - 1]"

definition grid_lines :: "real \<Rightarrow> real \<Rightarrow> day \<Rightarrow> int \<Rightarrow> (real \<times> grid_weight option) list" where
  "grid_lines zoomLevel' bw t n =
     map (\<lambda>i. (gridPosition zoomLevel' bw i, grid_line zoomLevel' (t + i))) [0..n - 1]"

definition month_labels :: "real \<Rightarrow> real \<Rightarrow> day \<Rightarrow> int \<Rightarrow> (real \<times> day) list" where
  "month_labels zoomLevel' bw t n =
     map (\<lambda>i. (monthPosition zoomLevel' bw i, t + i * 30)) [0..monthCount n - 1]"

declare getDay_def [model_defs]
  isWeekStart_def [model_defs] isMonthStart_def [model_defs] ruler_label_def [model_defs]
  day_emphasis_def [model_defs] grid_line_def [model_defs] day_cell_def [model_defs]
  ruler_days_def [model_defs] grid_lines_def [model_defs] month_labels_def [model_defs]

lemma getDay_shift: "getDay (d + i) = (getDay d + i) mod 7"
  unfolding getDay_def mod_add_left_eq by (simp add: ac_simps)

lemma week_start_in_window: "\<exists>i. 0 \<le> i \<and> i < 7 \<and> isWeekStart (d + i)"
proof -
  define i where "i = (1 - getDay d) mod 7"
  have "getDay (d + i) = (getDay d + (1 - getDay d)) mod 7"
    unfolding getDay_shift i_def by (simp add: mod_add_right_eq)
  then have "isWeekStart (d + i)" by (simp add: isWeekStart_def)
  moreover have "0 \<le> i \<and> i < 7" by (simp add: i_def)
  ultimately show ?thesis by blast
qed

lemma one_week_start_per_week:
  "length (filter isWeekStart (map (\<lambda>i. d + i) [0..6])) = 1"
proof -
  have r: "0 \<le> getDay d" "getDay d < 7" by (simp_all add: getDay_def)
  have u: "[0..6::int] = [0, 1, 2, 3, 4, 5, 6]" by (simp add: upto.simps)
  have "getDay d \<in> {0, 1, 2, 3, 4, 5, 6}" using r by auto
  then show ?thesis unfolding u by (auto simp: isWeekStart_def getDay_shift)
qed

lemma week_start_mod: "isWeekStart d \<longleftrightarrow> (d - 19723) mod 7 = 0"
  by (simp add: isWeekStart_def getDay_def) presburger

text \<open>C35. Week starts in the ruler are the Mondays of the calendar: a day is a week start
  (\<open>getDay() === 1\<close>) exactly when it is a multiple of seven days from 2024-01-01, a
  Monday; exactly one of any seven consecutive days is one, so week borders and Monday grid
  lines recur every seven cells; and from zoom 0.4 up, any seven consecutive days include a
  labelled day.\<close>

theorem week_label_every_seven_days:
  "(isWeekStart d \<longleftrightarrow> (d - days_from_civil 2024 1 1) mod 7 = 0) \<and>
   length (filter isWeekStart (map (\<lambda>i. d + i) [0..6])) = 1 \<and>
   (0.4 \<le> zoomLevel' \<longrightarrow> (\<exists>i. 0 \<le> i \<and> i < 7 \<and> ruler_label zoomLevel' (d + i) \<noteq> None))"
proof -
  have "days_from_civil 2024 1 1 = 19723" by code_simp
  then show ?thesis
    using week_start_mod [of d] one_week_start_per_week [of d] week_start_in_window [of d]
    by (auto simp: ruler_label_def)
qed

theorem week_label_every_seven_days_witness:
  "\<exists>i. 0 \<le> i \<and> i < 7 \<and> ruler_label 0.4 (19723 + i) \<noteq> None"
  using week_label_every_seven_days [of 19723 "0.4"] by simp




lemma month_index_bound:
  assumes "0 \<le> i" "i \<le> monthCount n - 1"
  shows "i * 30 \<le> n - 1"
proof -
  have "of_int (monthCount n) - 1 < of_int n / (30::real)"
    unfolding monthCount_def using ceiling_correct [of "of_int n / (30::real)"] by linarith
  then have "of_int i < of_int n / (30::real)" using assms(2) by linarith
  then have "of_int (i * 30) < (of_int n :: real)" by simp
  then show ?thesis by linarith
qed

text \<open>C16. The month labels of the ruler stay inside the date range: the first is on the start
  date and every label's day lies between the start and the end date, since
  \<open>Math.ceil(totalDays / 30)\<close> labels 30 days apart never pass the last day.\<close>

theorem month_labels_in_range:
  assumes td: "timelineData its = Inr (Some td)"
  shows "snd (hd (month_labels z bw (startDate td) (totalDays td))) = startDate td \<and>
         (\<forall>p\<in>set (month_labels z bw (startDate td) (totalDays td)).
            startDate td \<le> snd p \<and> snd p \<le> endDate td)"
proof -
  have n: "totalDays td = endDate td - startDate td + 1" "1 \<le> totalDays td"
    using timelineData_totalDays [OF td] by blast+
  have "1 \<le> monthCount (totalDays td)" using n(2) by (simp add: monthCount_def)
  then have hd: "[0..monthCount (totalDays td) - 1] = 0 # [1..monthCount (totalDays td) - 1]"
    by (simp add: upto_rec1)
  have b: "startDate td \<le> startDate td + i * 30 \<and> startDate td + i * 30 \<le> endDate td"
    if "i \<in> set [0..monthCount (totalDays td) - 1]" for i
    using that month_index_bound [of i "totalDays td"] n by simp
  have "\<forall>p\<in>set (month_labels z bw (startDate td) (totalDays td)). startDate td \<le> snd p \<and> snd p \<le> endDate td"
    unfolding month_labels_def using b by (simp add: mult.commute)
  then show ?thesis using hd by (simp add: month_labels_def)
qed

theorem month_labels_in_range_witness:
  "snd (hd (month_labels 1 1200 19723 45)) = 19723 \<and>
   19723 \<le> snd (month_labels 1 1200 19723 45 ! 1) \<and> snd (month_labels 1 1200 19723 45 ! 1) \<le> 19767"
proof -
  let ?it = "mk_item 1 ''Long'' 19723 19767"
  have h: "timelineData [?it] = Inr (Some \<lparr>startDate = 19723, endDate = 19767, totalDays = 45,
      itemsWithLanes = [with_lane 0 ?it], lanes = [[?it]], maxLane = 0\<rparr>)"
    by (simp add: model_defs)
  have "monthCount 45 = 2" by (simp add: monthCount_def ceiling_eq_iff)
  then have "month_labels 1 1200 19723 45 ! 1 \<in> set (month_labels 1 1200 19723 45)"
    by (simp add: month_labels_def upto.simps)
  then show ?thesis using month_labels_in_range [OF h, of 1 1200] by simp
qed

end
