(* ===== verification/Page.thy ===== *)
theory Page
  imports Interaction Ruler
begin

text \<open>
  The components as functions from their props to what they render, composed the way
  \<open>Timeline\<close> composes them (\<open>pages/timeline/timeline.jsx\<close>): \<open>TimelineItem\<close> (the
  style, colours, content and tooltip of one bar and the event of its click),
  \<open>TimelineVisual\<close> (the size of the timeline, the month labels, the ruler cells, one
  \<open>TimelineItem\<close> per annotated item and the grid lines), \<open>LaneInfoPanel\<close> (the summary
  and the cards, each entry with its short dates and the event of its click),
  \<open>TimelineItemDialog\<close> (the content of the dialog while it is open), and the page: the
  card for an empty list, or the controls and the visual, or the lane panel, and the
  dialog. A \<open>ValidationError\<close> thrown in the memo is the \<open>Inl\<close> result of the page.
\<close>

subsection \<open>TimelineItem\<close>

text \<open>The tooltip and its arrow take their placement from the same two conditions
  (\<open>top < 100\<close>, \<open>left < 25\<close> or \<open>left > 75\<close>): one \<open>tooltip_placement\<close> stands for both.
  Callback props are the events they fire: \<open>onItemClick\<close> is the event of a click on an
  id, and the bar's \<open>onClick={() => onItemClick(item.id)}\<close> fires it for its own id.\<close>

record timeline_item =
  ti_key :: item_id
  ti_style :: bar
  ti_colors :: "string \<times> string"
  ti_view :: bar_view
  ti_tooltip :: tooltip_view
  ti_placement :: "tooltip_vertical \<times> tooltip_horizontal"
  ti_onClick :: ui_event

definition timeline_item ::
  "day \<Rightarrow> real \<Rightarrow> real \<Rightarrow> bool \<Rightarrow> (item_id \<Rightarrow> ui_event) \<Rightarrow> item_with_lane \<Rightarrow> timeline_item" where
  "timeline_item startDate' bw zoomLevel' isSelected onItemClick it =
     (let b = item_bar startDate' bw zoomLevel' it
      in \<lparr>ti_key = item_id it, ti_style = b, ti_colors = (borderColor it, backgroundColor it),
          ti_view = item_bar_view isSelected it, ti_tooltip = item_tooltip it,
          ti_placement = tooltip_placement b, ti_onClick = onItemClick (item_id it)\<rparr>)"

subsection \<open>TimelineVisual\<close>

record timeline_visual =
  tv_width :: real
  tv_height :: real
  tv_months :: "(real \<times> string) list"
  tv_days :: "(real \<times> day_label option \<times> day_emphasis) list"
  tv_bars :: "timeline_item list"
  tv_grid :: "(real \<times> grid_weight option) list"

definition timeline_visual ::
  "timeline_data \<Rightarrow> real \<Rightarrow> item_id option \<Rightarrow> (item_id \<Rightarrow> ui_event) \<Rightarrow> timeline_visual" where
  "timeline_visual td zoomLevel' selectedItem' onItemClick =
     (let bw = baseWidth zoomLevel' (totalDays td)
      in \<lparr>tv_width = bw, tv_height = timelineHeight (maxLane td),
          tv_months = map (\<lambda>(position, monthStart). (position, format_MMM_yyyy monthStart))
                        (month_labels zoomLevel' bw (startDate td) (totalDays td)),
          tv_days = ruler_days zoomLevel' bw (startDate td) (totalDays td),
          tv_bars = map (\<lambda>it. timeline_item (startDate td) bw zoomLevel'
                                (selectedItem' = Some (item_id it)) onItemClick it) (itemsWithLanes td),
          tv_grid = grid_lines zoomLevel' bw (startDate td) (totalDays td)\<rparr>)"

subsection \<open>LaneInfoPanel\<close>

text \<open>An entry of a card: its id, name and border colour (\<open>lane_entry\<close>), and here also
  its dates \<open>MMM dd - MMM dd\<close> and the event of its \<open>onClick={() => onItemClick(item.id)}\<close>.\<close>

record lane_panel_view =
  lp_summary :: string
  lp_cards :: "(lane_card \<times> (string \<times> string \<times> ui_event) list) list"

definition lane_info_panel :: "timeline_data \<Rightarrow> (item_id \<Rightarrow> ui_event) \<Rightarrow> lane_panel_view" where
  "lane_info_panel td onItemClick =
     \<lparr>lp_summary = lane_summary td,
      lp_cards = zip (lane_cards td)
                   (map (map (\<lambda>it. (format_MMM_dd (start it), format_MMM_dd (end' it),
                                    onItemClick (item_id it)))) (lanes td))\<rparr>"

subsection \<open>TimelineControls\<close>

text \<open>The two buttons of \<open>TimelineControls\<close>, each with its \<open>disabled\<close> prop and the
  callback prop it fires: \<open>onClick={onZoomOut}\<close> on the zoom-out button,
  \<open>onClick={onZoomIn}\<close> on the zoom-in button.\<close>

record zoom_buttons =
  zb_out :: "bool \<times> ui_event"
  zb_in :: "bool \<times> ui_event"

definition timeline_controls ::
  "timeline_data \<Rightarrow> item list \<Rightarrow> real \<Rightarrow> ui_event \<Rightarrow> ui_event \<Rightarrow> controls_view \<times> zoom_buttons" where
  "timeline_controls td its zoomLevel' onZoomIn onZoomOut =
     (controls td its zoomLevel',
      \<lparr>zb_out = (zoomOutDisabled zoomLevel', onZoomOut), zb_in = (zoomInDisabled zoomLevel', onZoomIn)\<rparr>)"

subsection \<open>TimelineItemDialog and the page\<close>

text \<open>\<open><Dialog open={modalOpen} onOpenChange={(open) => !open && onModalClose()}>\<close>:
  whether the dialog is open, the callback its closing fires, and the content, which is on
  the screen only while it is open.\<close>

record dialog_props =
  dlg_open :: bool
  dlg_onClose :: ui_event
  dlg_shown :: "dialog_content option"

definition timeline_item_dialog ::
  "bool \<Rightarrow> ui_event \<Rightarrow> item_id option \<Rightarrow> item list \<Rightarrow> dialog_props" where
  "timeline_item_dialog modalOpen' onModalClose selectedItem' its =
     \<lparr>dlg_open = modalOpen', dlg_onClose = onModalClose,
      dlg_shown = (if modalOpen' then dialog_view its selectedItem' else None)\<rparr>"

text \<open>What \<open>Timeline\<close> returns: the empty-state card, or the page with its two panel
  buttons (\<open>onClick={() => setOptionShow(...)}\<close>, the events \<open>ShowTimeline\<close> and
  \<open>ShowLaneInfoPanel\<close>), the controls and the visual or the lane panel, and the dialog.
  The page passes \<open>handleZoomIn\<close>, \<open>handleZoomOut\<close>, \<open>handleItemClick\<close> and
  \<open>onModalClose\<close> as the callback props, that is the events \<open>ZoomIn\<close>, \<open>ZoomOut\<close>,
  \<open>ItemClick\<close> and \<open>ModalClose\<close> of \<open>ui_step\<close>.\<close>

datatype page_view =
    NoItemsCard
  | TimelinePage "ui_event list" "(controls_view \<times> zoom_buttons) option" "timeline_visual option"
      "lane_panel_view option" dialog_props

definition timeline_page :: "item list \<Rightarrow> ui_state \<Rightarrow> lane_error + page_view" where
  "timeline_page its s =
     (case timelineData its of
        Inl err \<Rightarrow> Inl err
      | Inr None \<Rightarrow> Inr NoItemsCard
      | Inr (Some td) \<Rightarrow>
          Inr (TimelinePage [ShowTimeline, ShowLaneInfoPanel]
                (if optionShow s = ''timeline'' then Some (timeline_controls td its (zoomLevel s) ZoomIn ZoomOut)
                 else None)
                (if optionShow s = ''timeline'' then Some (timeline_visual td (zoomLevel s) (selectedItem s) ItemClick)
                 else None)
                (if optionShow s = ''laneInfoPanel'' then Some (lane_info_panel td ItemClick) else None)
                (timeline_item_dialog (modalOpen s) ModalClose (selectedItem s) its)))"

text \<open>The events a rendered page offers, read off its elements: its buttons, each enabled
  zoom button's callback, the \<open>onClick\<close> of every bar and of every lane entry, and the
  close of an open dialog.\<close>

definition enabled_event :: "bool \<times> ui_event \<Rightarrow> ui_event list" where
  "enabled_event b = (if fst b then [] else [snd b])"

definition view_events :: "page_view \<Rightarrow> ui_event list" where
  "view_events pv =
     (case pv of
        NoItemsCard \<Rightarrow> []
      | TimelinePage btns ctl v lp dlg \<Rightarrow>
          btns @
          (case ctl of None \<Rightarrow> [] | Some (c, zb) \<Rightarrow> enabled_event (zb_out zb) @ enabled_event (zb_in zb)) @
          (case v of None \<Rightarrow> [] | Some vis \<Rightarrow> map ti_onClick (tv_bars vis)) @
          (case lp of None \<Rightarrow> [] | Some p \<Rightarrow> concat (map (\<lambda>(card, es). map (\<lambda>(_, _, e). e) es) (lp_cards p))) @
          (if dlg_open dlg then [dlg_onClose dlg] else []))"

definition rendered_events :: "item list \<Rightarrow> ui_state \<Rightarrow> ui_event list" where
  "rendered_events its s = (case timeline_page its s of Inl err \<Rightarrow> [] | Inr pv \<Rightarrow> view_events pv)"

declare timeline_item_def [model_defs] timeline_visual_def [model_defs] timeline_controls_def [model_defs]
  lane_info_panel_def [model_defs] timeline_item_dialog_def [model_defs] timeline_page_def [model_defs]

lemma array_lengths:
  "length (ruler_days z bw t n) = nat n" "length (grid_lines z bw t n) = nat n"
  "length (month_labels z bw t n) = nat (monthCount n)"
  by (simp_all add: ruler_days_def grid_lines_def month_labels_def)

lemma monthCount_pos: "1 \<le> n \<Longrightarrow> 1 \<le> monthCount n"
  by (simp add: monthCount_def)

lemma timeline_visual_bars:
  "map (\<lambda>b. (ti_key b, ti_style b, bar_ring (ti_view b)))
     (tv_bars (timeline_visual td (zoomLevel s) (selectedItem s) onItemClick)) = visual_bars s td"
  by (simp add: timeline_visual_def visual_bars_def timeline_item_def item_bar_view_def Let_def)

lemma length_lane_cards: "length (lane_cards td) = length (lanes td)"
  by (simp add: lane_cards_def)

lemma lane_panel_events:
  "concat (map (\<lambda>(card, es). map (\<lambda>(_, _, e). e) es) (lp_cards (lane_info_panel td onItemClick))) =
   map (\<lambda>it. onItemClick (item_id it)) (concat (lanes td))"
proof -
  let ?f = "\<lambda>it. (format_MMM_dd (start it), format_MMM_dd (end' it), onItemClick (item_id it))"
  have "map (\<lambda>(card, es). map (\<lambda>(_, _, e). e) es) (zip (lane_cards td) (map (map ?f) (lanes td))) =
      map (map (\<lambda>(_, _, e). e)) (map snd (zip (lane_cards td) (map (map ?f) (lanes td))))"
    by (simp add: case_prod_beta')
  also have "\<dots> = map (map (\<lambda>(_, _, e). e)) (map (map ?f) (lanes td))"
    by (simp add: length_lane_cards)
  finally show ?thesis by (simp add: lane_info_panel_def comp_def map_concat)
qed

lemma visual_events:
  "map ti_onClick (tv_bars (timeline_visual td z sel onItemClick)) =
   map (\<lambda>it. onItemClick (item_id it)) (itemsWithLanes td)"
  by (simp add: timeline_visual_def timeline_item_def Let_def)

text \<open>The events wired by the composed components are the events of \<open>page_events\<close>.\<close>

lemma rendered_events_page_events: "rendered_events its s = page_events its s"
proof (cases "timelineData its")
  case (Inl err)
  then show ?thesis by (simp add: rendered_events_def page_events_def timeline_page_def)
next
  case (Inr r)
  then show ?thesis
  proof (cases r)
    case None
    with Inr show ?thesis
      by (simp add: rendered_events_def page_events_def timeline_page_def view_events_def)
  next
    case (Some td)
    with Inr show ?thesis
      by (simp add: rendered_events_def page_events_def timeline_page_def view_events_def
          timeline_controls_def enabled_event_def timeline_item_dialog_def visual_events lane_panel_events)
  qed
qed

text \<open>C33. The timeline panel as composed: with data and the timeline option, the page shows
  the controls of the data with their two zoom buttons and a visual whose bars are those of
  the page geometry (the same ids, styles and selection rings, one per input item), with one
  ruler cell and one grid line per day of the range and one month label per started 30 days
  (at least one), and no lane panel.\<close>

theorem timeline_page_timeline_panel:
  assumes td: "timelineData its = Inr (Some td)" and opt: "optionShow s = ''timeline''"
  shows "\<exists>btns v dlg. timeline_page its s =
       Inr (TimelinePage btns (Some (timeline_controls td its (zoomLevel s) ZoomIn ZoomOut)) (Some v) None dlg) \<and>
     map (\<lambda>b. (ti_key b, ti_style b, bar_ring (ti_view b))) (tv_bars v) = visual_bars s td \<and>
     length (tv_bars v) = length its \<and>
     length (tv_days v) = nat (totalDays td) \<and> length (tv_grid v) = nat (totalDays td) \<and>
     length (tv_months v) = nat (monthCount (totalDays td)) \<and> 1 \<le> length (tv_months v)"
proof -
  let ?v = "timeline_visual td (zoomLevel s) (selectedItem s) ItemClick"
  have page: "timeline_page its s =
      Inr (TimelinePage [ShowTimeline, ShowLaneInfoPanel]
        (Some (timeline_controls td its (zoomLevel s) ZoomIn ZoomOut)) (Some ?v) None
        (timeline_item_dialog (modalOpen s) ModalClose (selectedItem s) its))"
    using td opt by (simp add: timeline_page_def)
  have m: "1 \<le> monthCount (totalDays td)"
    using timelineData_totalDays [OF td] monthCount_pos by blast
  have "length (tv_bars ?v) = length its"
    using itemsWithLanes_length [OF td] by (simp add: timeline_visual_def Let_def)
  moreover have "length (tv_days ?v) = nat (totalDays td) \<and> length (tv_grid ?v) = nat (totalDays td) \<and>
      length (tv_months ?v) = nat (monthCount (totalDays td))"
    by (simp add: timeline_visual_def Let_def array_lengths)
  ultimately show ?thesis using page timeline_visual_bars [of td s ItemClick] m by auto
qed

theorem timeline_page_timeline_panel_witness:
  "\<exists>btns v dlg. timeline_page [task_A, task_B, task_C] init_ui =
       Inr (TimelinePage btns (Some (timeline_controls \<lparr>startDate = 19723, endDate = 19728, totalDays = 6,
                itemsWithLanes = [with_lane 0 task_A, with_lane 0 task_C, with_lane 1 task_B],
                lanes = [[task_A, task_C], [task_B]], maxLane = 1\<rparr> [task_A, task_B, task_C] 1 ZoomIn ZoomOut))
              (Some v) None dlg) \<and>
     length (tv_bars v) = 3 \<and> length (tv_days v) = 6 \<and> length (tv_grid v) = 6 \<and> length (tv_months v) = 1"
proof -
  have h: "timelineData [task_A, task_B, task_C] =
     Inr (Some \<lparr>startDate = 19723, endDate = 19728, totalDays = 6,
                itemsWithLanes = [with_lane 0 task_A, with_lane 0 task_C, with_lane 1 task_B],
                lanes = [[task_A, task_C], [task_B]], maxLane = 1\<rparr>)"
    by (simp add: model_defs scenario_items)
  have o: "optionShow init_ui = ''timeline''" by (simp add: init_ui_def)
  have mc: "monthCount 6 = 1" by (simp add: monthCount_def ceiling_eq_iff)
  show ?thesis using timeline_page_timeline_panel [OF h o] mc by (simp add: init_ui_def) fastforce
qed

text \<open>C34. The guard of the page model is what the screen offers: in every reachable state an
  event is enabled exactly when an element of the rendered page fires it, reading the
  callback props the components wire (the panel buttons, the \<open>onClick\<close> of the enabled
  zoom buttons of \<open>TimelineControls\<close>, of each \<open>TimelineItem\<close> and of each lane entry,
  and the close of an open dialog).\<close>

theorem page_events_refine_rendered:
  assumes r: "ui_reachable its s"
  shows "event_enabled its s e \<longleftrightarrow> e \<in> set (rendered_events its s)"
  using page_events_refine [OF r] by (simp add: rendered_events_page_events)

theorem page_events_refine_rendered_witness:
  "event_enabled [task_A] (ui_step init_ui ZoomIn) ZoomOut \<longleftrightarrow>
   ZoomOut \<in> set (rendered_events [task_A] (ui_step init_ui ZoomIn))"
proof -
  have "ui_reachable [task_A] (ui_step init_ui ZoomIn)"
    by (rule ui_reachable.step [OF ui_reachable.init]) (simp add: model_defs scenario_items)
  then show ?thesis by (rule page_events_refine_rendered)
qed

text \<open>C19. The dialog is opened with \<open>Boolean(selectedItem)\<close>, and 0 is falsy: whenever the
  selected id is 0, the page's dialog is closed and shows nothing, while the visual marks
  exactly the bars with id 0 as selected; an item with id 0 can be selected but never
  opens the dialog.\<close>

theorem item_zero_selected_dialog_closed:
  assumes page: "timeline_page its s = Inr (TimelinePage btns ctl v lp dlg)" and sel: "selectedItem s = Some 0"
  shows "\<not> dlg_open dlg \<and> dlg_shown dlg = None \<and>
         (\<forall>vis. v = Some vis \<longrightarrow> (\<forall>b\<in>set (tv_bars vis). bar_ring (ti_view b) \<longleftrightarrow> ti_key b = 0))"
proof -
  obtain td where td: "timelineData its = Inr (Some td)"
    using page by (auto simp: timeline_page_def split: sum.splits option.splits)
  have "\<not> modalOpen s" using sel by (simp add: modalOpen_def)
  then have "\<not> dlg_open dlg \<and> dlg_shown dlg = None"
    using page td by (auto simp: timeline_page_def timeline_item_dialog_def)
  moreover have "v = Some vis \<Longrightarrow> b \<in> set (tv_bars vis) \<Longrightarrow> bar_ring (ti_view b) \<longleftrightarrow> ti_key b = 0" for vis b
    using page td sel
    by (auto simp: timeline_page_def timeline_visual_def timeline_item_def item_bar_view_def Let_def
        split: if_splits)
  ultimately show ?thesis by blast
qed

theorem item_zero_selected_dialog_closed_witness:
  "event_enabled [mk_item 0 ''Kickoff'' 19723 19724] init_ui (ItemClick 0) \<and>
   \<not> dlg_open (timeline_item_dialog (modalOpen (ui_step init_ui (ItemClick 0))) ModalClose (Some 0)
       [mk_item 0 ''Kickoff'' 19723 19724])"
proof -
  let ?its = "[mk_item 0 ''Kickoff'' 19723 19724]" and ?s = "ui_step init_ui (ItemClick 0)"
  have e: "event_enabled ?its init_ui (ItemClick 0)" by (simp add: model_defs)
  have sel: "selectedItem ?s = Some 0" by (simp add: model_defs)
  obtain td where td: "timelineData ?its = Inr (Some td)" by (simp add: model_defs)
  have page: "timeline_page ?its ?s = Inr (TimelinePage [ShowTimeline, ShowLaneInfoPanel]
      (if optionShow ?s = ''timeline'' then Some (timeline_controls td ?its (zoomLevel ?s) ZoomIn ZoomOut) else None)
      (if optionShow ?s = ''timeline'' then Some (timeline_visual td (zoomLevel ?s) (selectedItem ?s) ItemClick) else None)
      (if optionShow ?s = ''laneInfoPanel'' then Some (lane_info_panel td ItemClick) else None)
      (timeline_item_dialog (modalOpen ?s) ModalClose (selectedItem ?s) ?its))"
    using td by (simp add: timeline_page_def)
  show ?thesis using item_zero_selected_dialog_closed [OF page sel] e sel by simp
qed

lemma days_from_civil_shift: "days_from_civil y m (dd + k) = days_from_civil y m dd + k"
  by (simp add: days_from_civil_def Let_def)

text \<open>C38. Month labels are placed every 30 days from the start, not on month starts: when
  the range starts on the first day of a 31-day month and lasts more than 30 days, the second
  label stands on the 31st of the same month and carries the same text (\<open>MMM yyyy\<close>) as the
  first.\<close>

theorem month_labels_repeat_month:
  assumes m: "1 \<le> m" "m \<le> 12" and d31: "days_in_month y m = 31" and n: "30 < n"
  shows "map snd (take 2 (month_labels z bw (days_from_civil y m 1) n)) =
           [days_from_civil y m 1, days_from_civil y m 31] \<and>
         civil_from_days (days_from_civil y m 31) = (y, m, 31) \<and>
         format_MMM_yyyy (days_from_civil y m 31) = format_MMM_yyyy (days_from_civil y m 1)"
proof -
  have "1 < of_int n / (30::real)" using n by simp
  then have mc: "2 \<le> monthCount n" unfolding monthCount_def by linarith
  then have "[0..monthCount n - 1] = 0 # 1 # [2..monthCount n - 1]"
    by (simp add: upto_rec1)
  then have l: "map snd (take 2 (month_labels z bw (days_from_civil y m 1) n)) =
      [days_from_civil y m 1, days_from_civil y m 1 + 30]"
    by (simp add: month_labels_def)
  have v1: "valid_date y m 1" and v31: "valid_date y m 31" using m d31 by (simp_all add: valid_date_def)
  have c1: "civil_from_days (days_from_civil y m 1) = (y, m, 1)"
    using civil_from_days_days_from_civil [OF v1] .
  have c31: "civil_from_days (days_from_civil y m 31) = (y, m, 31)"
    using civil_from_days_days_from_civil [OF v31] .
  have "days_from_civil y m 31 = days_from_civil y m 1 + 30"
    using days_from_civil_shift [of y m 1 30] by simp
  then show ?thesis using l c1 c31 by (simp add: format_MMM_yyyy_def)
qed

theorem month_labels_repeat_month_witness:
  "map snd (take 2 (month_labels 1 1200 (days_from_civil 2024 1 1) 60)) =
     [days_from_civil 2024 1 1, days_from_civil 2024 1 31] \<and>
   civil_from_days (days_from_civil 2024 1 31) = (2024, 1, 31) \<and>
   format_MMM_yyyy (days_from_civil 2024 1 31) = format_MMM_yyyy (days_from_civil 2024 1 1)"
proof -
  have "days_in_month 2024 1 = 31" by (simp add: days_in_month_def)
  then show ?thesis using month_labels_repeat_month [of 1 2024 60 1 1200] by simp
qed

lemma annotated_ids_mset:
  assumes "timelineData its = Inr (Some td)"
  shows "mset (map item_id (itemsWithLanes td)) = mset (map item_id its)"
proof -
  have "mset (map item.truncate (itemsWithLanes td)) = mset its"
    using timelineData_Some [OF assms] assignLanes_complete
    by (simp add: items_with_lanes_def map_truncate_lanes_items)
  then have "mset (map item_id (map item.truncate (itemsWithLanes td))) = mset (map item_id its)"
    by (metis mset_map)
  then show ?thesis by (simp add: comp_def item.defs)
qed

lemma lane_panel_ids:
  "map fst (concat (map (card_entries \<circ> fst) (lp_cards (lane_info_panel td onItemClick)))) =
   map item_id (concat (lanes td))"
proof -
  let ?Y = "map (map (\<lambda>it. (format_MMM_dd (start it), format_MMM_dd (end' it), onItemClick (item_id it)))) (lanes td)"
  have "map fst (zip (lane_cards td) ?Y) = lane_cards td" using length_lane_cards [of td] by simp
  then have "map (card_entries \<circ> fst) (zip (lane_cards td) ?Y) = map card_entries (lane_cards td)"
    by (metis map_map)
  then show ?thesis
    by (simp add: lane_info_panel_def card_entries_lane_cards map_concat comp_def lane_entry_def)
qed

text \<open>C32. The page lists every item exactly once: in every reachable state of a page with
  data it shows either the visual, whose bars carry the ids of the input items once each, or
  the lane panel, whose entries do, and never both.\<close>

theorem page_lists_every_item_once:
  assumes r: "ui_reachable its s" and td: "timelineData its = Inr (Some td)"
  shows "\<exists>btns ctl v lp dlg. timeline_page its s = Inr (TimelinePage btns ctl v lp dlg) \<and>
    ((\<exists>vis. v = Some vis \<and> lp = None \<and> mset (map ti_key (tv_bars vis)) = mset (map item_id its)) \<or>
     (\<exists>p. lp = Some p \<and> v = None \<and>
        mset (map fst (concat (map (card_entries \<circ> fst) (lp_cards p)))) = mset (map item_id its)))"
proof -
  have opt: "optionShow s = ''timeline'' \<or> optionShow s = ''laneInfoPanel''"
    using ui_reachable_inv [OF r] by (simp add: ui_inv_def)
  have bars: "map ti_key (tv_bars (timeline_visual td z sel ItemClick)) = map item_id (itemsWithLanes td)" for z sel
    by (simp add: timeline_visual_def timeline_item_def Let_def)
  have a: "assignLanes its = Inr (lanes td)" using timelineData_Some [OF td] by simp
  have entries: "mset (map item_id (concat (lanes td))) = mset (map item_id its)"
    using assignLanes_complete [OF a] by (metis mset_map)
  have vb: "mset (map ti_key (tv_bars (timeline_visual td (zoomLevel s) (selectedItem s) ItemClick))) =
      mset (map item_id its)"
    unfolding bars using annotated_ids_mset [OF td] .
  have le: "mset (map fst (concat (map (card_entries \<circ> fst) (lp_cards (lane_info_panel td ItemClick))))) =
      mset (map item_id its)"
    unfolding lane_panel_ids using entries .
  from opt show ?thesis
  proof
    assume "optionShow s = ''timeline''"
    then show ?thesis using td vb by (simp add: timeline_page_def del: mset_map)
  next
    assume "optionShow s = ''laneInfoPanel''"
    then show ?thesis using td le by (simp add: timeline_page_def del: mset_map)
  qed
qed

theorem page_lists_every_item_once_witness:
  "\<exists>btns ctl v lp dlg. timeline_page [task_A, task_B, task_C] init_ui = Inr (TimelinePage btns ctl v lp dlg) \<and>
    ((\<exists>vis. v = Some vis \<and> lp = None \<and> mset (map ti_key (tv_bars vis)) = mset [1, 2, 3]) \<or>
     (\<exists>p. lp = Some p \<and> v = None \<and> mset (map fst (concat (map (card_entries \<circ> fst) (lp_cards p)))) = mset [1, 2, 3]))"
proof -
  have h: "timelineData [task_A, task_B, task_C] =
     Inr (Some \<lparr>startDate = 19723, endDate = 19728, totalDays = 6,
                itemsWithLanes = [with_lane 0 task_A, with_lane 0 task_C, with_lane 1 task_B],
                lanes = [[task_A, task_C], [task_B]], maxLane = 1\<rparr>)"
    by (simp add: model_defs scenario_items)
  have ids: "map item_id [task_A, task_B, task_C] = [1, 2, 3]" by (simp add: scenario_items model_defs)
  show ?thesis using page_lists_every_item_once [OF ui_reachable.init h] ids by simp
qed

text \<open>C36. Every item's dialog stays reachable: from any state of a page with data and
  distinct ids, at most one click on an item whose id is not 0 (on its bar or its lane entry)
  selects it and opens the dialog, which finds that item and shows its content.\<close>

theorem dialog_opens_for_every_item:
  assumes td: "timelineData its = Inr (Some td)" and ids: "distinct (map item_id its)"
    and x: "x \<in> set its" and nz: "item_id x \<noteq> 0"
  shows "\<exists>s'. ui_steps its s s' \<and> selectedItem s' = Some (item_id x) \<and>
           dlg_open (timeline_item_dialog (modalOpen s') ModalClose (selectedItem s') its) \<and>
           dialog_item its (selectedItem s') = Some x \<and>
           dlg_shown (timeline_item_dialog (modalOpen s') ModalClose (selectedItem s') its) \<noteq> None"
proof -
  have f: "dialog_item its (Some (item_id x)) = Some x"
    using find_distinct_key [OF ids x] by (simp add: dialog_item_def)
  obtain s' where s': "ui_steps its s s'" "selectedItem s' = Some (item_id x)"
  proof (cases "selectedItem s = Some (item_id x)")
    case True
    then show ?thesis using that ui_steps.refl by blast
  next
    case False
    have "event_enabled its s (ItemClick (item_id x))"
      using td x by (auto simp: renders_data_def list_ex_iff)
    moreover have "selectedItem (ui_step s (ItemClick (item_id x))) = Some (item_id x)"
      using False by (simp add: handleItemClick_def)
    ultimately show ?thesis using that ui_steps.step [OF _ ui_steps.refl] by blast
  qed
  have "modalOpen s'" using s'(2) nz by (simp add: modalOpen_def)
  then show ?thesis using s' f by (auto simp: timeline_item_dialog_def dialog_view_def)
qed

theorem dialog_opens_for_every_item_witness:
  "\<exists>s'. ui_steps [task_A, task_B, task_C] init_ui s' \<and> selectedItem s' = Some 2 \<and>
     dlg_open (timeline_item_dialog (modalOpen s') ModalClose (selectedItem s') [task_A, task_B, task_C]) \<and>
     dialog_item [task_A, task_B, task_C] (selectedItem s') = Some task_B \<and>
     dlg_shown (timeline_item_dialog (modalOpen s') ModalClose (selectedItem s') [task_A, task_B, task_C]) \<noteq> None"
proof -
  have h: "timelineData [task_A, task_B, task_C] =
     Inr (Some \<lparr>startDate = 19723, endDate = 19728, totalDays = 6,
                itemsWithLanes = [with_lane 0 task_A, with_lane 0 task_C, with_lane 1 task_B],
                lanes = [[task_A, task_C], [task_B]], maxLane = 1\<rparr>)"
    by (simp add: model_defs scenario_items)
  have d: "distinct (map item_id [task_A, task_B, task_C])" by (simp add: scenario_items model_defs)
  have m: "task_B \<in> set [task_A, task_B, task_C]" and z: "item_id task_B \<noteq> 0" and i: "item_id task_B = 2"
    by (simp_all add: scenario_items model_defs)
  show ?thesis using dialog_opens_for_every_item [OF h d m z, of init_ui] i by simp
qed

end
