(* ===== verification/Spec2Isabelle.thy ===== *)
theory Spec2Isabelle
  imports Page
begin

text \<open>
  \<^bold>\<open>A verified model of the timeline viewer (rhayann1337/timeline).\<close>

  \<^medskip>
  \<^emph>\<open>The program.\<close> A React page (\<open>src/pages/timeline/timeline.jsx\<close>) shows a list of
  dated items as bars on a zoomable timeline. It computes its data in one memo: the
  earliest start and latest end of the items, the lanes of \<open>assignLanes\<close> (rows in
  which no two items overlap), every item annotated with its lane index and with colours
  chosen by its duration, and the last lane index. It keeps three pieces of state (zoom
  level, selected item, shown panel) changed by handlers that its children call:
  \<open>TimelineControls\<close> (zoom buttons, disabled at the clamps), \<open>TimelineVisual\<close> and
  \<open>TimelineItem\<close> (the ruler, the grid and one bar per item, clicking a bar selects it),
  \<open>LaneInfoPanel\<close> (the lanes as lists) and \<open>TimelineItemDialog\<close> (details of the
  selected item). \<open>assignLanes\<close> lives in \<open>utils/assign-lanes\<close>, which is not part of
  the sources; it is modelled from the spec (section 4.1).

  \<^medskip>
  \<^emph>\<open>Theories and what they model.\<close>
  \<^item> \<open>Prelude\<close>: day and id types, the \<open>model_defs\<close> collection used to evaluate
    concrete inputs, and generic lemmas (counting with \<open>filter\<close>, the last elements of
    a list of lists, maxima over a list, the running minimum and maximum of a reduce).
  \<^item> \<open>Item\<close>: the item record (\<open>end\<close> is called \<open>end'\<close>, \<open>id\<close> is \<open>item_id\<close>);
    dates are calendar days (the value of \<open>parseISO\<close> at day resolution), so
    \<open>differenceInDays\<close> is subtraction.
  \<^item> \<open>Lanes\<close> (LaneAssigner, from the spec): \<open>assignLanes\<close> sorts by start with a
    stable sort, keeps the lanes and the array of their last ends (\<open>lane_state\<close>),
    places each item with \<open>first_fit\<close> in the lowest lane whose last end is strictly
    before its start or opens a lane (\<open>place_item\<close>), and returns \<open>Inl ValidationError\<close>
    when an item starts after it ends. The reference \<open>place\<close> does first fit over the
    lanes themselves; the lane-end array refines it (\<open>fold_place_item_refines\<close>).
    Lemmas: completeness as multisets, non-overlap of every lane, the lower bound (any
    partition into non-overlapping lanes has at least the depth of every day) and the
    upper bound of the greedy order (a lane is opened only when the last items of all
    lanes cover the new start day), hence the lane count is the clique number
    \<open>max_depth\<close>; lanes are sorted by start and in opening order.
  \<^item> \<open>TimelineData\<close> (\<open>timeline.jsx\<close> lines 19--87): \<open>timelineData\<close> returns
    \<open>Inr None\<close> for no items, propagates \<open>Inl ValidationError\<close> from \<open>assignLanes\<close>,
    and otherwise the record \<open>timeline_data\<close>; \<open>earliest_start\<close> and \<open>latest_end\<close> are
    the two reduces, \<open>item_colors\<close> the colour rules with their fallback, \<open>with_lane\<close>
    the spread-and-annotate, \<open>lanes_items\<close> the nested \<open>forEach\<close>. Claims C1--C3,
    C5, C6, C9, C10, C15 and C17 state the lane guarantees on the page data.
    \<open>timeline_data_wf\<close> is the shape of the data that the consumers rely on
    (well-formed lanes, \<open>maxLane\<close> the last index, \<open>totalDays\<close> the length of the
    range, every annotated item in its lane and in the range), and every page data has
    it (C4).
  \<^item> \<open>TimelineState\<close> (\<open>timeline.jsx\<close> lines 15--17 and 89--140, the disabled props
    of the controls): the record \<open>ui_state\<close>, the handlers, \<open>ui_step\<close> per event, the
    guard \<open>event_enabled\<close> saying which rendered control can fire an event, and the
    inductive \<open>ui_reachable\<close>. The invariant \<open>ui_inv\<close> (zoom within the clamps, a valid
    panel, a selected id of an existing item) holds in every reachable state (C8, C14).
  \<^item> \<open>Layout\<close> (\<open>TimelineVisual\<close>, \<open>TimelineItem\<close>): base width, height, ruler and
    grid positions and the bar of every item in percent and pixels. Bars of one lane
    are disjoint exactly when the earlier item lasts two days or more or a day separates
    them, so a one-day bar overlaps an item of its lane that starts the next day (C7);
    bars stay in their rows and the height leaves exactly 62px below the last lane (C11);
    the bar of an item ending on the last day spills past the right edge once the days
    take more than 1168px, because bars are scaled to the container inset by 32px while the
    base width is computed for the days alone (C13); tooltips open below in the first two
    lanes (C21); C20 records the offset between the ruler and the bars.
  \<^item> \<open>Views\<close> (\<open>timeline.jsx\<close> lines 103--177, \<open>LaneInfoPanel\<close>,
    \<open>TimelineControls\<close>, \<open>TimelineItemDialog\<close>): \<open>render_panels\<close> is the list of
    elements the page returns for a state, \<open>lane_cards\<close> and \<open>lane_entry\<close> the lane
    panel (with the colour looked up by id with \<open>find\<close>), \<open>zoomPercent\<close> and
    \<open>controls_count_text\<close> the controls, \<open>dialog_item\<close> and \<open>dialog_duration\<close> the
    dialog; \<open>decimal\<close> writes numbers into text. The lane panel lists every item once
    (C25) in the colour of its duration (C26), the card a bar's tooltip names lists it
    (C27), and its summary agrees with the controls' count (C23); an open dialog finds its
    item (C28); the panels shown agree with the events the guard allows (C30); C31 shows
    what a repeated id does to the selection and the lane panel.
  \<^item> \<open>Dates\<close>: the calendar that \<open>Date\<close> and date-fns provide, a library the sources
    only call, as the model needs it: \<open>civil_from_days\<close> gives the (year, month, day) of
    a day number, as \<open>addDays\<close> and \<open>getDate\<close> see it, and \<open>days_from_civil\<close> the day
    number of a date, as \<open>parseISO\<close> reads a \<open>YYYY-MM-DD\<close> string, in UTC. These are
    helpers of the model, not code of the repository; the lemmas that they are inverse
    (on every day number and every valid date) are what the claims on the ruler use.
  \<^item> \<open>Ruler\<close> (\<open>timeline-visual.jsx\<close> lines 30--131): the month labels every 30 days,
    the day cells with their label, emphasis and 24px minimum width, and the grid lines;
    \<open>Array.from({ length: n }, f)\<close> is \<open>map f [0..n - 1]\<close>. The month labels stay
    within the date range (C16); the week starts are the Mondays, one in every seven days,
    and from zoom 0.4 a label in every seven days (C35); C37 records overlapping day cells.
  \<^item> \<open>Display\<close> (the text of \<open>TimelineItem\<close>, \<open>TimelineItemDialog\<close> and
    \<open>TimelineControls\<close>): the date-fns patterns \<open>MMM dd\<close>, \<open>MMM dd, yyyy\<close> and
    \<open>MMM yyyy\<close> over the calendar of \<open>Dates\<close>, the duration text, the description shown
    only when it is a non-empty string, the bar and tooltip of an item
    (\<open>item_bar_view\<close>, \<open>item_tooltip\<close>), the dialog (\<open>dialog_view\<close>) and the controls
    (\<open>controls\<close>). The dialog of a bar repeats its tooltip (C39).
  \<^item> \<open>Zoom\<close> (the zoom levels of \<open>handleZoomIn\<close> and \<open>handleZoomOut\<close>): the exact
    effect of one click on each of four families of levels (\<open>zoom_in_A\<close> to
    \<open>zoom_out_D\<close>) and the closure of the list \<open>zoom_levels\<close> under the handlers, so
    every reachable level other than 0.3 and 3 lies in [0.33, 2.99]. Hence the controls
    show 30 or 300 percent exactly when a zoom button is disabled (C29), and every enabled
    zoom click changes the percentage shown (C18).
  \<^item> \<open>Interaction\<close>: \<open>page_events\<close>, the events a state offers by panel, agrees with
    the guard in every reachable state; \<open>ui_steps\<close>, the closure of the guarded steps,
    states what later clicks can reach: both zoom clamps stay reachable from every state
    (C22), and after a clamp the initial level 1 never comes back (C12).
  \<^item> \<open>Page\<close> (the components as functions of their props, composed as \<open>Timeline\<close>
    composes them, \<open>timeline.jsx\<close> lines 14--180): \<open>timeline_item\<close> (style, colours,
    content, tooltip and the \<open>onItemClick\<close> it fires), \<open>timeline_visual\<close> (size, month
    labels, ruler cells, bars and grid), \<open>lane_info_panel\<close> (summary and cards with each
    entry's dates and click), \<open>timeline_controls\<close> (the controls and the two buttons
    with their \<open>disabled\<close> and \<open>onClick\<close> props), \<open>timeline_item_dialog\<close> (open, close
    callback and the content while open) and \<open>timeline_page\<close>, which returns the
    empty-state card, the page with its buttons, optional panels and dialog, or the
    \<open>ValidationError\<close> the memo throws. Callback props are the events they fire, as the
    page passes them. With the timeline option the page shows the controls and a visual
    whose bars are those of \<open>visual_bars\<close>, with one ruler cell and grid line per day
    (C33); each reachable page lists every item once, in its one panel (C32). The events
    read off the rendered page are exactly those the guard enables (C34). With the id 0
    selected the dialog stays closed (C19); every item's dialog can be opened by one click
    (C36); month labels 30 days apart repeat a month (C38).
  \<^item> This theory: properties that span the page state and the layout (C24), and the
    last lane index as the largest lane of the annotated items (C40).

  \<^medskip>
  \<^emph>\<open>Bounds and evaluation.\<close> No fuel is used: every loop of the code is a fold or a
  structural recursion over a list (\<open>Array.from\<close> of a length is a \<open>map\<close> over the
  indices). Witnesses evaluate the definitions on the spec's scenarios by \<open>simp\<close> with
  \<open>model_defs\<close>, with dates as day numbers from 1970-01-01; calendar dates are
  evaluated by \<open>code_simp\<close>, which also checks the finite tables of year and month
  boundaries in \<open>Dates\<close>.

  \<^medskip>
  \<^emph>\<open>Not modelled.\<close> \<open>index.js\<close> (mounting the React root); the libraries the
  sources call (React, the UI kit and icons, date-fns and \<open>Date\<close>, whose calendar is
  taken in UTC, not in the local time zone); an unparsable date, which gives \<open>NaN\<close> in
  the code (items carry day numbers); class names and static text of the rendered
  elements (class names are modelled by their category, day labels of the ruler by their
  format); the \<open>console.log\<close> calls of the handlers. The zoom level is an exact real,
  while the code computes in IEEE doubles: the claims about it bound it by intervals
  ([0.3, 3], [0.33, 2.99] away from the clamps, and the clamp levels that avoid 1) that
  hold for the doubles as well; the exact set of reachable levels differs (39 values in
  the reals, more in doubles, such as both 2.5 and 2.5000000000000004) and is not claimed.
\<close>

subsection \<open>Selection across the page state and the visual\<close>

lemma length_filter_eq_distinct:
  "distinct xs \<Longrightarrow> length (filter (\<lambda>y. y = x) xs) = (if x \<in> set xs then 1 else 0)"
  by (induction xs) (auto simp: filter_empty_conv)

text \<open>C24. With distinct item ids, in every reachable state of the page the visual marks
  exactly one bar as selected when an item is selected, and none otherwise.\<close>

theorem selected_bars:
  assumes ids: "distinct (map item_id its)" and r: "ui_reachable its s"
    and td: "timelineData its = Inr (Some td)"
  shows "length (filter (\<lambda>(_, _, sel). sel) (visual_bars s td)) =
           (if selectedItem s = None then 0 else 1)"
proof -
  let ?L = "map item_id (itemsWithLanes td)"
  have m: "mset ?L = mset (map item_id its)" by (rule annotated_ids [OF td])
  then have d: "distinct ?L" using ids by (rule mset_eq_imp_distinct_iff [THEN iffD2])
  have sl: "set ?L = item_id ` set its" using m by (metis set_map set_mset_mset)
  have cnt: "length (filter (\<lambda>(_, _, sel). sel) (visual_bars s td)) =
      length (filter (\<lambda>k. selectedItem s = Some k) ?L)"
    by (simp add: visual_bars_def Let_def filter_map comp_def length_filter_map)
  show ?thesis
  proof (cases "selectedItem s")
    case None
    then show ?thesis using cnt by simp
  next
    case (Some i)
    then have "\<exists>x\<in>set its. item_id x = i"
      using ui_reachable_inv [OF r] by (simp add: ui_inv_def)
    then have "i \<in> set ?L" using sl by auto
    moreover have "(\<lambda>k. selectedItem s = Some k) = (\<lambda>k. k = i)" using Some by auto
    ultimately show ?thesis using cnt Some length_filter_eq_distinct [OF d, of i] by simp
  qed
qed

theorem selected_bars_witness:
  "length (filter (\<lambda>(_, _, sel). sel)
     (visual_bars (ui_step init_ui (ItemClick 2))
       \<lparr>startDate = 19723, endDate = 19728, totalDays = 6,
        itemsWithLanes = [with_lane 0 task_A, with_lane 0 task_C, with_lane 1 task_B],
        lanes = [[task_A, task_C], [task_B]], maxLane = 1\<rparr>)) = 1"
proof -
  have ids: "distinct (map item_id [task_A, task_B, task_C])"
    by (simp add: model_defs scenario_items)
  have r: "ui_reachable [task_A, task_B, task_C] (ui_step init_ui (ItemClick 2))"
    by (rule ui_reachable.step [OF ui_reachable.init]) (simp add: model_defs scenario_items)
  have h: "timelineData [task_A, task_B, task_C] =
     Inr (Some \<lparr>startDate = 19723, endDate = 19728, totalDays = 6,
                itemsWithLanes = [with_lane 0 task_A, with_lane 0 task_C, with_lane 1 task_B],
                lanes = [[task_A, task_C], [task_B]], maxLane = 1\<rparr>)"
    by (simp add: model_defs scenario_items)
  show ?thesis using selected_bars [OF ids r h] by (simp add: init_ui_def handleItemClick_def)
qed

subsection \<open>The last lane index\<close>

text \<open>C40. The last lane index maxLane, computed from the number of lanes, equals the largest lane
  index among the annotated items, so the visual's height (maxLane + 1 rows) fits exactly the
  rows its bars use.\<close>

theorem maxLane_is_largest_lane:
  assumes td: "timelineData its = Inr (Some td)"
  shows "maxLane td = int (Max (lane ` set (itemsWithLanes td)))"
proof -
  have s: "its \<noteq> [] \<and> assignLanes its = Inr (lanes td) \<and> itemsWithLanes td = lanes_items 0 (lanes td) \<and>
      maxLane td = int (length (lanes td)) - 1"
    using timelineData_Some [OF td] by (simp add: items_with_lanes_def)
  then have wf: "lanes_wf (lanes td) \<and> mset (concat (lanes td)) = mset its"
    using assignLanes_Inr_wf by blast
  then have "lanes td \<noteq> []" using s by auto
  moreover have "lane ` set (itemsWithLanes td) = {0..<length (lanes td)}"
    using s wf lanes_items_lanes_set by (simp add: lanes_wf_def)
  moreover have "Max {0..<length (lanes td)} = length (lanes td) - 1" if "lanes td \<noteq> []"
    using that by (intro Max_eqI) auto
  moreover have "int (length (lanes td) - 1) = int (length (lanes td)) - 1" if "lanes td \<noteq> []"
    using that by (simp add: of_nat_diff Suc_le_eq)
  ultimately show ?thesis using s by simp
qed

theorem maxLane_is_largest_lane_witness:
  "maxLane \<lparr>startDate = 19723, endDate = 19728, totalDays = 6,
            itemsWithLanes = [with_lane 0 task_A, with_lane 0 task_C, with_lane 1 task_B],
            lanes = [[task_A, task_C], [task_B]], maxLane = 1\<rparr> =
   int (Max (lane ` set [with_lane 0 task_A, with_lane 0 task_C, with_lane 1 task_B]))"
proof -
  have h: "timelineData [task_A, task_B, task_C] =
     Inr (Some \<lparr>startDate = 19723, endDate = 19728, totalDays = 6,
                itemsWithLanes = [with_lane 0 task_A, with_lane 0 task_C, with_lane 1 task_B],
                lanes = [[task_A, task_C], [task_B]], maxLane = 1\<rparr>)"
    by (simp add: model_defs scenario_items)
  show ?thesis using maxLane_is_largest_lane [OF h] by simp
qed

end
